(* ===== verification/Prelude.thy ===== *)
theory Prelude
  imports Main "HOL-Library.Word"
begin

text \<open>
  Shared vocabulary of the development: machine words, the outcome of a Go call (it
  returns, it panics, it blocks on a mutex for ever), Go maps with their \<open>nil\<close> value,
  time, and the functions of \<^verbatim>\<open>github.com/google/uuid\<close> the server calls, which are
  parameters of the model.
\<close>

subsection \<open>Machine words and identifiers\<close>

type_synonym byte = "8 word"
type_synonym u8 = "8 word"
type_synonym u16 = "16 word"
type_synonym u32 = "32 word"

text \<open>
  \<open>uuid.UUID\<close> is the array type \<open>[16]byte\<close>; two of them are equal when all bytes are, so
  a 128-bit word carries the same information.
\<close>

type_synonym uuid = "128 word"

text \<open>
  Go's \<open>time.Time\<close> as nanoseconds since its zero value (year 1), so \<open>0\<close> is the zero time;
  a \<open>time.Duration\<close> is a number of nanoseconds.
\<close>

type_synonym time = int
type_synonym duration = int

definition second :: duration where
  "second = 1000000000"

definition minute :: duration where
  "minute = 60 * second"

text \<open>\<open>t.Sub(u)\<close> saturates at the bounds of the 64-bit duration.\<close>

definition time_sub :: "time \<Rightarrow> time \<Rightarrow> duration" where
  "time_sub t u = max (- (2 ^ 63)) (min (2 ^ 63 - 1) (t - u))"

lemma second_pos [simp]: "0 < second" and minute_pos [simp]: "0 < minute"
  by (simp_all add: second_def minute_def)

lemma time_sub_gt_iff:
  assumes "0 \<le> d" and "d < 2 ^ 63 - 1"
  shows "d < time_sub t u \<longleftrightarrow> d < t - u"
  using assms by (auto simp: time_sub_def max_def min_def)

subsection \<open>Outcomes of a call\<close>

datatype 'a outcome = Ret 'a | Panics | Blocks

fun bind_outcome :: "'a outcome \<Rightarrow> ('a \<Rightarrow> 'b outcome) \<Rightarrow> 'b outcome" where
  "bind_outcome (Ret x) f = f x"
| "bind_outcome Panics f = Panics"
| "bind_outcome Blocks f = Blocks"

fun map_ret :: "('a \<Rightarrow> 'b) \<Rightarrow> 'a outcome \<Rightarrow> 'b outcome" where
  "map_ret f (Ret x) = Ret (f x)"
| "map_ret f Panics = Panics"
| "map_ret f Blocks = Blocks"

lemma bind_outcome_eq_Ret:
  "bind_outcome m f = Ret y \<longleftrightarrow> (\<exists>x. m = Ret x \<and> f x = Ret y)"
  by (cases m) auto

text \<open>Turning a case analysis that equals something into its branches.\<close>

lemma case_sum_eq:
  "(case r of Inl a \<Rightarrow> f a | Inr b \<Rightarrow> g b) = y \<longleftrightarrow> (\<exists>a. r = Inl a \<and> f a = y) \<or> (\<exists>b. r = Inr b \<and> g b = y)"
  by (cases r) auto

lemma case_option_eq:
  "(case m of None \<Rightarrow> f | Some x \<Rightarrow> g x) = y \<longleftrightarrow> (m = None \<and> f = y) \<or> (\<exists>x. m = Some x \<and> g x = y)"
  by (cases m) auto

lemmas branch_iffs = bind_outcome_eq_Ret case_sum_eq case_option_eq

subsection \<open>Lists\<close>

lemma take_append_take: "take n (take n xs @ ys) = take n (xs @ ys)"
  by (cases "length xs \<le> n") simp_all

subsection \<open>Go maps\<close>

text \<open>
  A Go map variable is \<open>nil\<close> (\<open>None\<close>) or a map (\<open>Some\<close>). Reading and deleting are allowed on
  \<open>nil\<close>; storing into it panics.
\<close>

type_synonym ('k, 'v) gomap = "('k \<rightharpoonup> 'v) option"

named_theorems gomap_simps \<open>reading a Go map after an operation\<close>

definition gget :: "('k, 'v) gomap \<Rightarrow> 'k \<Rightarrow> 'v option" where
  "gget m k = (case m of None \<Rightarrow> None | Some f \<Rightarrow> f k)"

definition gput :: "('k, 'v) gomap \<Rightarrow> 'k \<Rightarrow> 'v \<Rightarrow> ('k, 'v) gomap outcome" where
  "gput m k v = (case m of None \<Rightarrow> Panics | Some f \<Rightarrow> Ret (Some (f(k \<mapsto> v))))"

definition gdel :: "('k, 'v) gomap \<Rightarrow> 'k \<Rightarrow> ('k, 'v) gomap" where
  "gdel m k = map_option (\<lambda>f. f(k := None)) m"

definition gmake :: "('k, 'v) gomap" where
  "gmake = Some Map.empty"

definition gdom :: "('k, 'v) gomap \<Rightarrow> 'k set" where
  "gdom m = dom (gget m)"

text \<open>Update of an entry that is present (through the pointer the map holds).\<close>

definition gadjust :: "('k, 'v) gomap \<Rightarrow> 'k \<Rightarrow> ('v \<Rightarrow> 'v) \<Rightarrow> ('k, 'v) gomap" where
  "gadjust m k h = map_option (\<lambda>f. f(k := map_option h (f k))) m"

lemma gget_Some [simp]: "gget (Some f) = f" and gget_None [simp]: "gget None = Map.empty"
  by (simp_all add: gget_def fun_eq_iff)

lemma gget_gdel [gomap_simps]: "gget (gdel m k) = (gget m)(k := None)"
  by (cases m) (auto simp: gdel_def)

lemma gget_gadjust [gomap_simps]:
  "gget (gadjust m k h) = (gget m)(k := map_option h (gget m k))"
  by (cases m) (auto simp: gadjust_def)

lemma gget_gmake [simp]: "gget gmake = Map.empty"
  by (simp add: gmake_def)

lemma gput_Some [simp]: "gput (Some f) k v = Ret (Some (f(k \<mapsto> v)))"
  and gput_None [simp]: "gput None k v = Panics"
  by (simp_all add: gput_def)

lemma gput_Ret: "gput m k v = Ret m' \<Longrightarrow> gget m' = (gget m)(k \<mapsto> v)"
  by (cases m) auto

lemma gdom_gdel [gomap_simps]: "gdom (gdel m k) = gdom m - {k}"
  by (auto simp: gdom_def gomap_simps)

lemma gdom_gadjust [gomap_simps]: "gdom (gadjust m k h) = gdom m"
  by (auto simp: gdom_def gomap_simps split: if_splits)

lemma gdom_iff: "k \<in> gdom m \<longleftrightarrow> (\<exists>v. gget m k = Some v)"
  by (auto simp: gdom_def)

text \<open>
  \<open>range\<close> visits the keys of a map in an order the language leaves open: an operation that
  ranges over a map takes the order as an argument, and its theorems hold for each.
\<close>

definition iter_order :: "'k list \<Rightarrow> ('k \<rightharpoonup> 'v) \<Rightarrow> bool" where
  "iter_order ks f \<longleftrightarrow> distinct ks \<and> set ks = dom f"

definition entries_in :: "'k list \<Rightarrow> ('k \<rightharpoonup> 'v) \<Rightarrow> ('k \<times> 'v) list" where
  "entries_in ks f = List.map_filter (\<lambda>k. map_option (Pair k) (f k)) ks"

lemma set_entries_in: "set (entries_in ks f) = {(k, v). k \<in> set ks \<and> f k = Some v}"
  by (force simp: entries_in_def List.map_filter_def)

lemma set_entries_iter: "iter_order ks f \<Longrightarrow> set (entries_in ks f) = {(k, v). f k = Some v}"
  by (auto simp: set_entries_in iter_order_def)

lemma entries_in_simps [simp]:
  "entries_in [] f = []"
  "entries_in (k # ks) f =
     (case f k of None \<Rightarrow> entries_in ks f | Some v \<Rightarrow> (k, v) # entries_in ks f)"
  by (simp_all add: entries_in_def List.map_filter_def split: option.splits)

lemma distinct_entries_in: "distinct ks \<Longrightarrow> distinct (map fst (entries_in ks f))"
  by (induction ks) (auto simp: set_entries_in split: option.splits)

subsection \<open>The UUID library\<close>

text \<open>
  The functions of \<^verbatim>\<open>github.com/google/uuid\<close> that the server calls: \<open>FromBytes\<close>,
  \<open>MarshalBinary\<close>, \<open>Parse\<close> and \<open>String\<close> (\<open>None\<close> where the call returns an error). The
  contract below is their documented behaviour.
\<close>

record uuid_lib =
  uuid_from_bytes :: "byte list \<Rightarrow> uuid option"
  uuid_marshal :: "uuid \<Rightarrow> byte list"
  uuid_parse :: "string \<Rightarrow> uuid option"
  uuid_string :: "uuid \<Rightarrow> string"

definition uuid_lib_ok :: "uuid_lib \<Rightarrow> bool" where
  "uuid_lib_ok L \<longleftrightarrow>
     (\<forall>u. length (uuid_marshal L u) = 16 \<and> uuid_from_bytes L (uuid_marshal L u) = Some u) \<and>
     (\<forall>bs. length bs = 16 \<longrightarrow>
        (\<exists>u. uuid_from_bytes L bs = Some u \<and> uuid_marshal L u = bs)) \<and>
     (\<forall>u. uuid_parse L (uuid_string L u) = Some u)"

lemma uuid_lib_okD:
  assumes "uuid_lib_ok L"
  shows "length (uuid_marshal L u) = 16"
    and "uuid_from_bytes L (uuid_marshal L u) = Some u"
    and "length bs = 16 \<Longrightarrow> \<exists>u. uuid_from_bytes L bs = Some u \<and> uuid_marshal L u = bs"
    and "uuid_parse L (uuid_string L u) = Some u"
  using assms by (auto simp: uuid_lib_ok_def)

text \<open>
  An instance of the contract, used by the witnesses: the big-endian bytes of the word, and
  for the text form the bytes as characters.
\<close>

fun base256 :: "nat \<Rightarrow> nat \<Rightarrow> byte list" where
  "base256 0 m = []"
| "base256 (Suc n) m = word_of_nat (m mod 256) # base256 n (m div 256)"

fun base256_val :: "byte list \<Rightarrow> nat" where
  "base256_val [] = 0"
| "base256_val (b # bs) = unat b + 256 * base256_val bs"

lemma length_base256 [simp]: "length (base256 n m) = n"
  by (induction n arbitrary: m) auto

lemma base256_val_base256: "base256_val (base256 n m) = m mod 256 ^ n"
proof (induction n arbitrary: m)
  case (Suc n)
  have "m mod 256 + 256 * (m div 256 mod 256 ^ n) = m mod (256 * 256 ^ n)"
    by (simp add: mod_mult2_eq)
  with Suc show ?case by (simp add: unat_of_nat)
qed simp

lemma base256_base256_val: "base256 (length bs) (base256_val bs) = bs"
proof (induction bs)
  case (Cons b bs)
  have "unat b < 256" using unsigned_less [of b, where ?'a = nat] by simp
  then have "(unat b + 256 * base256_val bs) div 256 = base256_val bs"
    and "(unat b + 256 * base256_val bs) mod 256 = unat b" by simp_all
  with Cons show ?case by simp
qed simp

lemma base256_val_less: "base256_val bs < 256 ^ length bs"
proof -
  have "base256_val bs mod 256 ^ length bs = base256_val bs"
    using base256_val_base256 [of "length bs" "base256_val bs"] by (simp add: base256_base256_val)
  moreover have "base256_val bs mod 256 ^ length bs < 256 ^ length bs" by simp
  ultimately show ?thesis by simp
qed

definition sample_uuid_lib :: uuid_lib where
  "sample_uuid_lib = \<lparr>
     uuid_from_bytes =
       (\<lambda>bs. if length bs = 16 then Some (word_of_nat (base256_val (rev bs))) else None),
     uuid_marshal = (\<lambda>u. rev (base256 16 (unat u))),
     uuid_parse =
       (\<lambda>s. if length s = 16
            then Some (word_of_nat (base256_val (map (\<lambda>c. word_of_nat (of_char c)) s))) else None),
     uuid_string = (\<lambda>u. map (\<lambda>b. char_of (unat b)) (base256 16 (unat u)))\<rparr>"

lemma word_of_nat_base256 [simp]:
  "(word_of_nat (base256_val (base256 16 (unat u))) :: uuid) = u"
  using unsigned_less [of u, where ?'a = nat] by (simp add: base256_val_base256)

lemma base256_word_of_nat:
  assumes "length bs = 16"
  shows "base256 16 (unat (word_of_nat (base256_val bs) :: uuid)) = bs"
proof -
  have "base256_val bs < 2 ^ 128" using base256_val_less [of bs] assms by simp
  then have "unat (word_of_nat (base256_val bs) :: uuid) = base256_val bs"
    by (simp add: unat_of_nat)
  then show ?thesis using base256_base256_val [of bs] assms by simp
qed

lemma sample_uuid_lib_ok: "uuid_lib_ok sample_uuid_lib"
proof -
  have bmod: "(word_of_nat (unat b mod 256) :: byte) = b" for b :: byte
    using unsigned_less [of b, where ?'a = nat] by simp
  have chars: "map ((\<lambda>c. word_of_nat (of_char c)) \<circ> (\<lambda>b. char_of (unat b) :: char)) bs = bs"
    for bs :: "byte list"
    by (rule map_idI) (simp add: of_char_of bmod)
  show ?thesis
    by (auto simp: uuid_lib_ok_def sample_uuid_lib_def base256_word_of_nat chars)
qed

end
