(* ===== verification/GoFloat.thy ===== *)
theory GoFloat
  imports Prelude
begin

text \<open>
  IEEE 754 arithmetic as far as the server uses it: conversion of an integer, division and
  multiplication by \<open>1000\<close>, comparison. A finite binary32 value is an integer multiple of
  \<open>2 ^ -149\<close> and a finite binary64 value one of \<open>2 ^ -1074\<close>, so \<open>Fin32 k\<close> and \<open>Fin64 k\<close>
  hold that multiple; rounding is to nearest, ties to even. The two zeros are one value here,
  as they are for every comparison of the code.
\<close>

subsection \<open>Rounding to a number of significant bits\<close>

fun bitlen :: "nat \<Rightarrow> nat" where
  "bitlen n = (if n = 0 then 0 else Suc (bitlen (n div 2)))"

declare bitlen.simps [simp del]

definition round_half_even :: "nat \<Rightarrow> nat \<Rightarrow> nat" where
  "round_half_even a b =
     (let q = a div b; r = a mod b
      in if 2 * r < b then q else if b < 2 * r then Suc q else if even q then q else Suc q)"

text \<open>The quotient \<open>a / b\<close> rounded to \<open>p\<close> significant bits.\<close>

definition round_ratio :: "nat \<Rightarrow> nat \<Rightarrow> nat \<Rightarrow> nat" where
  "round_ratio p a b =
     (let s = bitlen (a div b) - p in round_half_even a (b * 2 ^ s) * 2 ^ s)"

lemma bitlen_bounds: "n < 2 ^ bitlen n \<and> (0 < n \<longrightarrow> 2 ^ (bitlen n - 1) \<le> n)"
proof (induction n rule: bitlen.induct)
  case (1 n)
  show ?case
  proof (cases "n = 0")
    case False
    with "1.IH" have lt: "n div 2 < 2 ^ bitlen (n div 2)"
      and ge: "0 < n div 2 \<longrightarrow> 2 ^ (bitlen (n div 2) - 1) \<le> n div 2" by auto
    have eq: "bitlen n = Suc (bitlen (n div 2))" using False by (simp add: bitlen.simps [of n])
    have "2 ^ bitlen (n div 2) \<le> n"
    proof (cases "n div 2 = 0")
      case True
      with False show ?thesis by (simp add: bitlen.simps [of 0])
    next
      case nz: False
      then have "bitlen (n div 2) = Suc (bitlen (n div 2) - 1)"
        by (simp add: bitlen.simps [of "n div 2"])
      then have "(2::nat) ^ bitlen (n div 2) = 2 * 2 ^ (bitlen (n div 2) - 1)"
        by (metis power_Suc)
      with ge nz show ?thesis by simp
    qed
    with lt eq show ?thesis by auto
  qed (simp add: bitlen.simps)
qed

lemma bitlen_le: "n < 2 ^ k \<Longrightarrow> bitlen n \<le> k"
proof (rule ccontr)
  assume n: "n < 2 ^ k" and "\<not> bitlen n \<le> k"
  then have k: "k \<le> bitlen n - 1" and "0 < n" by (auto simp: bitlen.simps intro!: Nat.gr0I)
  with bitlen_bounds [of n] have "2 ^ (bitlen n - 1) \<le> n" by blast
  moreover have "(2::nat) ^ k \<le> 2 ^ (bitlen n - 1)" using k by (simp add: power_increasing)
  ultimately have "2 ^ k \<le> n" by (rule order_trans [rotated])
  with n show False by simp
qed

lemma bitlen_unique:
  assumes "n < 2 ^ l" and "2 ^ l \<le> 2 * n"
  shows "bitlen n = l"
proof (rule antisym)
  show "bitlen n \<le> l" using assms(1) by (rule bitlen_le)
  have "2 ^ l < (2::nat) ^ Suc (bitlen n)"
    using bitlen_bounds [of n] assms(2) by simp
  then have "l < Suc (bitlen n)" by (simp only: power_strict_increasing_iff one_less_numeral_iff
        semiring_norm)
  then show "l \<le> bitlen n" by simp
qed

lemma bitlen_scale:
  assumes "0 < n" and "r < 2 ^ k"
  shows "bitlen (n * 2 ^ k + r) = bitlen n + k"
proof (rule bitlen_unique)
  have n: "n < 2 ^ bitlen n" "2 ^ bitlen n \<le> 2 * n"
  proof -
    show "n < 2 ^ bitlen n" using bitlen_bounds by blast
    have "bitlen n = Suc (bitlen n - 1)" using assms(1) by (simp add: bitlen.simps [of n])
    then have "2 ^ bitlen n = 2 * (2::nat) ^ (bitlen n - 1)" by (metis power_Suc)
    then show "2 ^ bitlen n \<le> 2 * n" using bitlen_bounds [of n] assms(1) by simp
  qed
  have "n * 2 ^ k + r < Suc n * 2 ^ k" using assms(2) by simp
  also have "\<dots> \<le> 2 ^ bitlen n * 2 ^ k" using n(1) by (intro mult_right_mono) auto
  finally show "n * 2 ^ k + r < 2 ^ (bitlen n + k)" by (simp add: power_add)
  have "2 ^ bitlen n * 2 ^ k \<le> 2 * n * 2 ^ k" using n(2) by (intro mult_right_mono) simp_all
  also have "2 * n * 2 ^ k \<le> 2 * (n * 2 ^ k + r)" by simp
  finally show "2 ^ (bitlen n + k) \<le> 2 * (n * 2 ^ k + r)" by (simp add: power_add)
qed

text \<open>Rounding to an integer is off by at most a half.\<close>

lemma round_half_even_error:
  assumes "0 < b"
  shows "2 * (round_half_even a b * b) \<le> 2 * a + b" and "2 * a \<le> 2 * (round_half_even a b * b) + b"
proof -
  define q r where "q = a div b" and "r = a mod b"
  have a: "a = q * b + r" and r: "r < b" using assms by (simp_all add: q_def r_def)
  have "round_half_even a b = (if 2 * r < b then q else if b < 2 * r then Suc q
      else if even q then q else Suc q)"
    by (simp add: round_half_even_def q_def r_def Let_def)
  then consider "round_half_even a b = q" "2 * r \<le> b" | "round_half_even a b = Suc q" "b \<le> 2 * r"
    by (auto split: if_splits)
  then have "2 * (round_half_even a b * b) \<le> 2 * a + b \<and> 2 * a \<le> 2 * (round_half_even a b * b) + b"
    using a r by cases simp_all
  then show "2 * (round_half_even a b * b) \<le> 2 * a + b"
    and "2 * a \<le> 2 * (round_half_even a b * b) + b" by auto
qed

lemma round_ratio_error:
  assumes "0 < b" and "a div b < 2 ^ (p + e)"
  shows "2 * (round_ratio p a b * b) \<le> 2 * a + b * 2 ^ e"
    and "2 * a \<le> 2 * (round_ratio p a b * b) + b * 2 ^ e"
proof -
  define s where "s = bitlen (a div b) - p"
  have "s \<le> e" using bitlen_le [OF assms(2)] by (simp add: s_def)
  then have "(2::nat) ^ s \<le> 2 ^ e" by (simp add: power_increasing)
  then have le: "b * 2 ^ s \<le> b * 2 ^ e" by simp
  have pos: "0 < b * 2 ^ s" using assms(1) by simp
  have eq: "round_ratio p a b * b = round_half_even a (b * 2 ^ s) * (b * 2 ^ s)"
    by (simp add: round_ratio_def s_def Let_def)
  from round_half_even_error [OF pos, of a] le
  show "2 * (round_ratio p a b * b) \<le> 2 * a + b * 2 ^ e"
    and "2 * a \<le> 2 * (round_ratio p a b * b) + b * 2 ^ e" unfolding eq by linarith+
qed

text \<open>A value that fits into the significand is not rounded.\<close>

lemma round_half_even_exact: "0 < b \<Longrightarrow> b dvd a \<Longrightarrow> round_half_even a b = a div b"
  by (simp add: round_half_even_def)

lemma round_ratio_exact:
  assumes "n < 2 ^ p"
  shows "round_ratio p (n * 2 ^ k) 1 = n * 2 ^ k"
proof -
  have "n * 2 ^ k < 2 ^ (p + k)" using assms by (simp add: power_add)
  then have s: "bitlen (n * 2 ^ k) - p \<le> k" using bitlen_le by fastforce
  let ?s = "bitlen (n * 2 ^ k) - p"
  have "2 ^ ?s dvd n * 2 ^ k" using s by (simp add: le_imp_power_dvd dvd_mult)
  then show ?thesis by (simp add: round_ratio_def Let_def round_half_even_exact)
qed

text \<open>
  The unit of the representation does not matter once the quotient fills the significand.
\<close>

lemma round_half_even_scale: "0 < c \<Longrightarrow> round_half_even (a * c) (b * c) = round_half_even a b"
proof -
  assume c: "0 < c"
  have "2 * (a mod b * c) < b * c \<longleftrightarrow> 2 * (a mod b) < b"
    and "b * c < 2 * (a mod b * c) \<longleftrightarrow> b < 2 * (a mod b)"
    using c by (metis mult.assoc mult_less_cancel2)+
  with c show ?thesis by (simp add: round_half_even_def Let_def mult_mod_left [symmetric])
qed

lemma round_ratio_scale:
  assumes "0 < b" and "2 ^ p \<le> a div b"
  shows "round_ratio p (a * 2 ^ k) b = round_ratio p a b * 2 ^ k"
proof -
  define q r where "q = a div b" and "r = a mod b"
  have a: "a = q * b + r" and r: "r < b" using assms by (simp_all add: q_def r_def)
  have eq: "a * 2 ^ k = q * 2 ^ k * b + r * 2 ^ k" by (simp add: a algebra_simps)
  have "a * 2 ^ k div b = q * 2 ^ k + r * 2 ^ k div b"
    unfolding eq using assms(1) by (simp add: div_mult_self3 add.commute)
  moreover have "r * 2 ^ k div b < 2 ^ k"
    using r by (intro less_mult_imp_div_less) (simp add: mult.commute)
  moreover have q: "0 < q" using assms(2) by (metis q_def gr0I le_zero_eq power_not_zero zero_neq_numeral)
  ultimately have len: "bitlen (a * 2 ^ k div b) = bitlen q + k" by (simp add: bitlen_scale)
  have "p \<le> bitlen q"
  proof (rule ccontr)
    assume "\<not> p \<le> bitlen q"
    then have "(2::nat) ^ bitlen q \<le> 2 ^ p" by (simp add: power_increasing)
    also have "\<dots> \<le> q" using assms(2) by (simp add: q_def)
    also have "\<dots> < 2 ^ bitlen q" using bitlen_bounds [of q] by blast
    finally show False by simp
  qed
  then have s: "bitlen (a * 2 ^ k div b) - p = (bitlen (a div b) - p) + k"
    by (simp add: len q_def)
  let ?s = "bitlen (a div b) - p"
  have "round_half_even (a * 2 ^ k) (b * 2 ^ (?s + k)) = round_half_even a (b * 2 ^ ?s)"
    using round_half_even_scale [of "2 ^ k" a "b * 2 ^ ?s"] by (simp add: power_add mult.assoc)
  then show ?thesis by (simp add: round_ratio_def s power_add Let_def)
qed

subsection \<open>binary32\<close>

datatype float32 = Fin32 int | PosInf32 | NegInf32 | NaN32

text \<open>The comparison \<open>==\<close>: a NaN is equal to nothing.\<close>

definition f32_eq :: "float32 \<Rightarrow> float32 \<Rightarrow> bool" where
  "f32_eq x y \<longleftrightarrow> x \<noteq> NaN32 \<and> x = y"

text \<open>\<open>float32(n)\<close> for a \<open>uint32\<close>, and the quotient by the constant \<open>1000.0\<close>.\<close>

definition f32_of_u32 :: "u32 \<Rightarrow> float32" where
  "f32_of_u32 n = Fin32 (int (round_ratio 24 (unat n * 2 ^ 149) 1))"

fun f32_div1000 :: "float32 \<Rightarrow> float32" where
  "f32_div1000 (Fin32 k) = Fin32 (sgn k * int (round_ratio 24 (nat \<bar>k\<bar>) 1000))"
| "f32_div1000 x = x"

lemma f32_eq_refl [simp]: "f32_eq x x \<longleftrightarrow> x \<noteq> NaN32"
  by (simp add: f32_eq_def)

lemma f32_eq_Fin [simp]: "f32_eq (Fin32 k) x \<longleftrightarrow> x = Fin32 k" "f32_eq x (Fin32 k) \<longleftrightarrow> x = Fin32 k"
  by (auto simp: f32_eq_def)

lemma f32_eq_sym: "f32_eq x y = f32_eq y x"
  by (auto simp: f32_eq_def)

text \<open>\<open>slices.Contains\<close> on a slice of \<open>float32\<close> compares with \<open>==\<close>.\<close>

definition f32_contains :: "float32 list \<Rightarrow> float32 \<Rightarrow> bool" where
  "f32_contains xs x \<longleftrightarrow> list_ex (\<lambda>y. f32_eq y x) xs"

lemma f32_contains_Fin [simp]: "f32_contains xs (Fin32 k) \<longleftrightarrow> Fin32 k \<in> set xs"
  by (induction xs) (auto simp: f32_contains_def)

subsection \<open>A frequency in kHz as binary32 MHz\<close>

definition khz_as_f32 :: "u32 \<Rightarrow> float32" where
  "khz_as_f32 n = f32_div1000 (f32_of_u32 n)"

lemma round_ratio_0 [simp]: "round_ratio p 0 b = 0"
  by (simp add: round_ratio_def round_half_even_def Let_def)

lemma f32_div1000_nat: "f32_div1000 (Fin32 (int k)) = Fin32 (int (round_ratio 24 k 1000))"
  by (cases "k = 0") simp_all

lemma khz_as_f32_eq:
  assumes "unat n < 2 ^ 24"
  shows "khz_as_f32 n = Fin32 (int (round_ratio 24 (unat n * 2 ^ 149) 1000))"
  unfolding khz_as_f32_def f32_of_u32_def round_ratio_exact [OF assms] by (rule f32_div1000_nat)

text \<open>
  Below 16384 MHz the spacing of binary32 values is smaller than 1 kHz, so two distinct
  frequencies stay distinct.
\<close>

lemma round_ratio_khz_less:
  assumes "m < n" and "n < 16384000"
  shows "round_ratio 24 (m * 2 ^ 149) 1000 < round_ratio 24 (n * 2 ^ 149) 1000"
proof -
  define u :: nat where "u = 2 ^ 139"
  have u: "(2::nat) ^ 149 = 1024 * u" "0 < u" by (simp_all add: u_def)
  have small: "k * 2 ^ 149 div 1000 < (2::nat) ^ (24 + 139)" if "k < 16384000" for k
  proof -
    have "k * (1024 * u) < 16384000 * (1024 * u)" using that u(2) by (intro mult_strict_right_mono) auto
    also have "16384000 * (1024 * u) = 2 ^ (24 + 139) * 1000" by (simp add: u_def)
    finally show ?thesis using u(1) by (simp only: less_mult_imp_div_less)
  qed
  let ?r = "\<lambda>k. round_ratio 24 (k * 2 ^ 149) 1000"
  have "Suc m * (1024 * u) \<le> n * (1024 * u)" using assms(1) by (intro mult_right_mono) auto
  then have gap: "m * 2 ^ 149 + 1024 * u \<le> n * 2 ^ 149" by (simp only: u(1) mult_Suc add.commute)
  have "2 * (?r m * 1000) \<le> 2 * (m * 2 ^ 149) + 1000 * u"
    unfolding u_def using assms by (intro round_ratio_error small) auto
  moreover have "2 * (n * 2 ^ 149) \<le> 2 * (?r n * 1000) + 1000 * u"
    unfolding u_def using assms by (intro round_ratio_error small) auto
  ultimately show ?thesis using gap u(2) by linarith
qed

lemma khz_as_f32_inject:
  assumes "unat m < 16384000" and "unat n < 16384000"
  shows "khz_as_f32 m = khz_as_f32 n \<longleftrightarrow> m = n"
proof -
  have eq: "khz_as_f32 m = khz_as_f32 n \<longleftrightarrow>
      round_ratio 24 (unat m * 2 ^ 149) 1000 = round_ratio 24 (unat n * 2 ^ 149) 1000"
    using assms by (simp add: khz_as_f32_eq)
  show ?thesis
  proof (cases "unat m" "unat n" rule: linorder_cases)
    case less
    then show ?thesis using round_ratio_khz_less [of "unat m" "unat n"] assms eq by auto
  next
    case equal
    then have "m = n" by (simp add: word_unat_eq_iff)
    then show ?thesis by simp
  next
    case greater
    then show ?thesis using round_ratio_khz_less [of "unat n" "unat m"] assms eq by auto
  qed
qed

subsection \<open>binary64\<close>

datatype float64 = Fin64 int | PosInf64 | NegInf64 | NaN64

definition f64_of_u32 :: "u32 \<Rightarrow> float64" where
  "f64_of_u32 n = Fin64 (int (round_ratio 53 (unat n * 2 ^ 1074) 1))"

fun f64_div1000 :: "float64 \<Rightarrow> float64" where
  "f64_div1000 (Fin64 k) = Fin64 (sgn k * int (round_ratio 53 (nat \<bar>k\<bar>) 1000))"
| "f64_div1000 x = x"

text \<open>The product by \<open>1000\<close> overflows to an infinity at \<open>2 ^ 1024\<close>.\<close>

fun f64_mul1000 :: "float64 \<Rightarrow> float64" where
  "f64_mul1000 (Fin64 k) =
     (let r = round_ratio 53 (nat \<bar>k\<bar> * 1000) 1
      in if r < 2 ^ (1024 + 1074) then Fin64 (sgn k * int r)
         else if 0 < k then PosInf64 else NegInf64)"
| "f64_mul1000 x = x"

text \<open>
  \<open>uint32(x)\<close> drops the fraction. Where the integer part does not fit, the Go language
  leaves the result to the implementation: the argument \<open>oor\<close>.
\<close>

fun f64_to_u32 :: "(float64 \<Rightarrow> u32) \<Rightarrow> float64 \<Rightarrow> u32" where
  "f64_to_u32 oor (Fin64 k) =
     (let t = sgn k * (\<bar>k\<bar> div 2 ^ 1074)
      in if 0 \<le> t \<and> t < 2 ^ 32 then word_of_int t else oor (Fin64 k))"
| "f64_to_u32 oor x = oor x"

subsection \<open>A frequency in kHz as binary64 MHz and back\<close>

definition khz_roundtrip :: "(float64 \<Rightarrow> u32) \<Rightarrow> u32 \<Rightarrow> u32" where
  "khz_roundtrip oor n = f64_to_u32 oor (f64_mul1000 (f64_div1000 (f64_of_u32 n)))"

lemma f64_div1000_nat: "f64_div1000 (Fin64 (int k)) = Fin64 (int (round_ratio 53 k 1000))"
  by (cases "k = 0") simp_all

lemma khz_div1000:
  "f64_div1000 (f64_of_u32 n) = Fin64 (int (round_ratio 53 (unat n * 2 ^ 1074) 1000))"
proof -
  have "unat n < 2 ^ 32" using unsigned_less [of n, where ?'a = nat] by simp
  also have "\<dots> \<le> (2::nat) ^ 53" by simp
  finally show ?thesis
    unfolding f64_of_u32_def by (simp only: round_ratio_exact f64_div1000_nat)
qed

lemma f64_mul1000_nat:
  assumes "round_ratio 53 (k * 1000) 1 < 2 ^ (1024 + 1074)"
  shows "f64_mul1000 (Fin64 (int k)) = Fin64 (int (round_ratio 53 (k * 1000) 1))"
  using assms by (cases "k = 0") (simp_all only: f64_mul1000.simps Let_def nat_int abs_of_nat if_True, auto)

text \<open>Both roundings together move the product by far less than one unit.\<close>

lemma khz_product_bounds:
  fixes m :: nat
  assumes "m < 2 ^ 32"
  defines "x \<equiv> round_ratio 53 (m * 2 ^ 1074) 1000"
  defines "y \<equiv> round_ratio 53 (x * 1000) 1"
  shows "y < (m + 1) * 2 ^ 1074" and "m * 2 ^ 1074 < y + 2 ^ 1074"
proof -
  define u :: nat where "u = 2 ^ 1044"
  have u: "0 < u" "(2::nat) ^ 1054 = 1024 * u" "(2::nat) ^ 1074 = 1024 * 1024 * 1024 * u"
  proof -
    have "(2::nat) ^ 1054 = 2 ^ 10 * 2 ^ 1044" "(2::nat) ^ 1074 = 2 ^ 30 * 2 ^ 1044"
      unfolding power_add [symmetric] by (simp_all only: numeral_plus_numeral semiring_norm)
    then show "(2::nat) ^ 1054 = 1024 * u" "(2::nat) ^ 1074 = 1024 * 1024 * 1024 * u"
      unfolding u_def by (simp_all only: mult.assoc) simp_all
    show "0 < u" unfolding u_def by (rule zero_less_power) simp
  qed
  have "m * 2 ^ 1074 < 2 ^ (53 + 1044) * 1000"
  proof -
    have "m * 2 ^ 1074 < 2 ^ 32 * 2 ^ 1074" using assms(1) u by (intro mult_strict_right_mono) simp_all
    also have "\<dots> \<le> 2 ^ (53 + 1044) * 1000"
      unfolding power_add u(3) u_def [symmetric] by simp
    finally show ?thesis .
  qed
  then have lt: "m * 2 ^ 1074 div 1000 < 2 ^ (53 + 1044)" by (rule less_mult_imp_div_less)
  have x: "2 * (x * 1000) \<le> 2 * (m * 2 ^ 1074) + 1000 * u"
      "2 * (m * 2 ^ 1074) \<le> 2 * (x * 1000) + 1000 * u"
    unfolding x_def u_def using lt by (intro round_ratio_error; simp only: zero_less_numeral)+
  have "x * 1000 < 2 ^ (53 + 1054)"
  proof -
    have "m * 2 ^ 1074 \<le> 2 ^ 32 * 2 ^ 1074" using assms(1) by (intro mult_right_mono) simp_all
    moreover have "(2::nat) ^ (53 + 1054) = 2 ^ 53 * (1024 * u)" by (simp only: power_add u(2))
    ultimately show ?thesis using x(1) u(1) unfolding u(3) by simp
  qed
  then have lt': "x * 1000 div 1 < 2 ^ (53 + 1054)" by simp
  have "2 * (y * 1) \<le> 2 * (x * 1000) + 1 * 2 ^ 1054" "2 * (x * 1000) \<le> 2 * (y * 1) + 1 * 2 ^ 1054"
    unfolding y_def using lt' by (intro round_ratio_error; simp only: zero_less_one)+
  with x u(1) show "y < (m + 1) * 2 ^ 1074" and "m * 2 ^ 1074 < y + 2 ^ 1074"
    unfolding u(2) u(3) by simp_all
qed

lemma f64_to_u32_nat:
  assumes "y div 2 ^ 1074 < 2 ^ 32"
  shows "f64_to_u32 oor (Fin64 (int y)) = word_of_nat (y div 2 ^ 1074)"
proof -
  have "sgn (int y) * (\<bar>int y\<bar> div 2 ^ 1074) = int (y div 2 ^ 1074)"
    by (cases "y = 0") (simp_all only: zdiv_int of_nat_power of_nat_numeral abs_of_nat, auto)
  moreover have "int (y div 2 ^ 1074) < 2 ^ 32" using assms by (metis of_nat_less_numeral_power_cancel_iff)
  ultimately show ?thesis by (simp only: f64_to_u32.simps Let_def) simp
qed

lemma unat_of_nat_u32: "m < 2 ^ 32 \<Longrightarrow> unat (word_of_nat m :: u32) = m"
  by (simp add: unsigned_of_nat take_bit_nat_eq_self)

lemma khz_roundtrip_eq:
  fixes n :: u32
  defines "x \<equiv> round_ratio 53 (unat n * 2 ^ 1074) 1000"
  shows "khz_roundtrip oor n = word_of_nat (round_ratio 53 (x * 1000) 1 div 2 ^ 1074)"
    and "unat (khz_roundtrip oor n) = round_ratio 53 (x * 1000) 1 div 2 ^ 1074"
    and "unat n = unat (khz_roundtrip oor n) \<or> unat n = Suc (unat (khz_roundtrip oor n))"
proof -
  define y where "y = round_ratio 53 (x * 1000) 1"
  define w :: nat where "w = 2 ^ 1074"
  have w: "0 < w" unfolding w_def by (rule zero_less_power) simp
  have n: "unat n < 2 ^ 32" using unsigned_less [of n, where ?'a = nat] by simp
  have "y < (unat n + 1) * w" and "unat n * w < y + w"
    unfolding y_def x_def w_def using khz_product_bounds [OF n] by blast+
  then have up: "y div w \<le> unat n" and lo: "unat n \<le> Suc (y div w)"
  proof -
    assume "y < (unat n + 1) * w" and lt: "unat n * w < y + w"
    then have "y div w < unat n + 1" by (simp only: less_mult_imp_div_less)
    then show "y div w \<le> unat n" by simp
    have "unat n * w div w \<le> (y + w) div w" using lt by (intro div_le_mono) simp
    with w show "unat n \<le> Suc (y div w)" by (simp add: div_add_self2)
  qed
  have "y < (unat n + 1) * w" by fact
  also have "\<dots> \<le> 2 ^ 1024 * w"
  proof (intro mult_right_mono)
    have "unat n + 1 \<le> 2 ^ 32" using n by simp
    also have "(2::nat) ^ 32 \<le> 2 ^ 1024" by (rule power_increasing) simp_all
    finally show "unat n + 1 \<le> 2 ^ 1024" .
  qed simp
  finally have "round_ratio 53 (x * 1000) 1 < 2 ^ (1024 + 1074)"
    unfolding power_add w_def [symmetric] y_def .
  then have mul: "f64_mul1000 (Fin64 (int x)) = Fin64 (int y)"
    unfolding y_def by (rule f64_mul1000_nat)
  have small: "y div 2 ^ 1074 < 2 ^ 32" using up n unfolding w_def by (rule le_less_trans)
  show eq: "khz_roundtrip oor n = word_of_nat (round_ratio 53 (x * 1000) 1 div 2 ^ 1074)"
    unfolding khz_roundtrip_def khz_div1000 x_def [symmetric] mul f64_to_u32_nat [OF small]
    by (simp only: y_def)
  show eq': "unat (khz_roundtrip oor n) = round_ratio 53 (x * 1000) 1 div 2 ^ 1074"
    unfolding eq y_def [symmetric] using small by (rule unat_of_nat_u32)
  show "unat n = unat (khz_roundtrip oor n) \<or> unat n = Suc (unat (khz_roundtrip oor n))"
    unfolding eq' y_def [symmetric] w_def [symmetric] using up lo by linarith
qed

text \<open>1001 kHz comes back as 1000 kHz: the product is just below 1001 and is truncated.\<close>

lemma khz_roundtrip_1001: "khz_roundtrip oor 1001 = 1000"
proof -
  have split: "(2::nat) ^ 1074 = 2 ^ 60 * 2 ^ 1014" unfolding power_add [symmetric] by simp
  have x: "round_ratio 53 (unat (1001 :: u32) * 2 ^ 1074) 1000 =
      round_ratio 53 (1001 * 2 ^ 60) 1000 * 2 ^ 1014"
    unfolding split mult.assoc [symmetric]
    using round_ratio_scale [of 1000 53 "1001 * 2 ^ 60" 1014] by simp
  define x0 where "x0 = round_ratio 53 (1001 * 2 ^ 60) 1000"
  have x0: "x0 = 1154074426111453696"
    by (simp add: x0_def round_ratio_def round_half_even_def Let_def bitlen.simps)
  have "round_ratio 53 (x0 * 2 ^ 1014 * 1000) 1 = round_ratio 53 (x0 * 1000) 1 * 2 ^ 1014"
    using round_ratio_scale [of 1 53 "x0 * 1000" 1014] by (simp add: x0 ac_simps)
  moreover have "round_ratio 53 (x0 * 1000) 1 div 2 ^ 60 = 1000"
    by (simp add: x0 round_ratio_def round_half_even_def Let_def bitlen.simps)
  ultimately have "round_ratio 53 (x0 * 2 ^ 1014 * 1000) 1 div 2 ^ 1074 = 1000"
    unfolding split by (simp only: div_mult_mult2 power_not_zero) simp
  then show ?thesis
    unfolding khz_roundtrip_eq(1) x x0_def [symmetric] by simp
qed

end
