(* ===== verification/Protocol.thy ===== *)
theory Protocol
  imports Prelude GoFloat
begin

text \<open>
  The UDP voice protocol, \<^verbatim>\<open>voice/protocol.go\<close>: the packet struct, its parser and
  serialiser, the constructors of the server's answers, the flag bits and the conversions of
  the frequency. The interface the voice server relies on is the locale \<open>packet_codec\<close>,
  interpreted at the end on \<open>ParsePacket\<close> and \<open>SerializePacket\<close>.
\<close>

unbundle bit_operations_syntax

subsection \<open>Packet types and the packet\<close>

definition currentVersion :: u8 where
  "currentVersion = 1"

definition PacketTypeVoice :: u8 where
  "PacketTypeVoice = 0"

definition PacketTypeHello :: u8 where
  "PacketTypeHello = 1"

definition PacketTypeHelloAck :: u8 where
  "PacketTypeHelloAck = 2"

definition PacketTypeKeepalive :: u8 where
  "PacketTypeKeepalive = 3"

definition PacketTypeBye :: u8 where
  "PacketTypeBye = 4"

lemmas packet_type_defs = PacketTypeVoice_def PacketTypeHello_def PacketTypeHelloAck_def
  PacketTypeKeepalive_def PacketTypeBye_def

definition PacketType_String :: "u8 \<Rightarrow> string" where
  "PacketType_String pt =
     (if pt = PacketTypeVoice then ''VOICE''
      else if pt = PacketTypeHello then ''HELLO''
      else if pt = PacketTypeHelloAck then ''HELLO_ACK''
      else if pt = PacketTypeKeepalive then ''KEEPALIVE''
      else if pt = PacketTypeBye then ''BYE''
      else ''UNKNOWN'')"

text \<open>The array \<open>[3]byte\<close> is a triple.\<close>

record vcs_packet =
  Magic :: "byte \<times> byte \<times> byte"
  Version :: u8
  PType :: u8
  Flags :: u8
  Sequence :: u32
  Frequency :: u32
  SenderID :: uuid
  Payload :: "byte list"

definition HeaderSize :: nat where
  "HeaderSize = 27"

definition MagicVCS :: "byte \<times> byte \<times> byte" where
  "MagicVCS = (0x56, 0x43, 0x53)"

definition NewVCSHelloAckPacket :: "uuid \<Rightarrow> vcs_packet" where
  "NewVCSHelloAckPacket clientId = \<lparr>Magic = (0x56, 0x43, 0x53), Version = currentVersion,
     PType = PacketTypeHelloAck, Flags = 0, Sequence = 0, Frequency = 0, SenderID = clientId,
     Payload = []\<rparr>"

definition NewVCSVoicePacket :: "uuid \<Rightarrow> u32 \<Rightarrow> u32 \<Rightarrow> byte list \<Rightarrow> vcs_packet" where
  "NewVCSVoicePacket clientId sequence frequency payload =
     \<lparr>Magic = (0x56, 0x43, 0x53), Version = currentVersion, PType = PacketTypeVoice, Flags = 0,
      Sequence = sequence, Frequency = frequency, SenderID = clientId, Payload = payload\<rparr>"

definition NewVCSKeepalivePacket :: "uuid \<Rightarrow> vcs_packet" where
  "NewVCSKeepalivePacket clientId = \<lparr>Magic = (0x56, 0x43, 0x53), Version = currentVersion,
     PType = PacketTypeKeepalive, Flags = 0, Sequence = 0, Frequency = 0, SenderID = clientId,
     Payload = []\<rparr>"

subsection \<open>Flags\<close>

definition IsPTTActive :: "vcs_packet \<Rightarrow> bool" where
  "IsPTTActive p \<longleftrightarrow> Flags p AND 0x01 \<noteq> 0"

definition SetPTT :: "bool \<Rightarrow> vcs_packet \<Rightarrow> vcs_packet" where
  "SetPTT active p =
     (if active then p\<lparr>Flags := Flags p OR 0x01\<rparr> else p\<lparr>Flags := Flags p AND 0xFE\<rparr>)"

definition IsIntercomPacket :: "vcs_packet \<Rightarrow> bool" where
  "IsIntercomPacket p \<longleftrightarrow> Flags p AND 0x02 \<noteq> 0"

definition SetIntercom :: "bool \<Rightarrow> vcs_packet \<Rightarrow> vcs_packet" where
  "SetIntercom active p =
     (if active then p\<lparr>Flags := Flags p OR 0x02\<rparr> else p\<lparr>Flags := Flags p AND 0xFD\<rparr>)"

subsection \<open>Frequencies\<close>

definition FrequencyMHz :: "vcs_packet \<Rightarrow> float64" where
  "FrequencyMHz p = f64_div1000 (f64_of_u32 (Frequency p))"

definition SetFrequencyMHz :: "(float64 \<Rightarrow> u32) \<Rightarrow> float64 \<Rightarrow> vcs_packet \<Rightarrow> vcs_packet" where
  "SetFrequencyMHz oor freqMHz p = p\<lparr>Frequency := f64_to_u32 oor (f64_mul1000 freqMHz)\<rparr>"

definition FrequencyAsFloat32 :: "vcs_packet \<Rightarrow> float32" where
  "FrequencyAsFloat32 p = f32_div1000 (f32_of_u32 (Frequency p))"

subsection \<open>Parsing and serialising\<close>

datatype parse_error =
    PacketTooShort
  | InvalidMagic "byte \<times> byte \<times> byte"
  | UnsupportedVersion u8
  | InvalidSessionID

definition be24 :: "byte \<Rightarrow> byte \<Rightarrow> byte \<Rightarrow> u32" where
  "be24 a b c = push_bit 16 (ucast a) OR push_bit 8 (ucast b) OR ucast c"

definition ParsePacket :: "uuid_lib \<Rightarrow> byte list \<Rightarrow> parse_error + vcs_packet" where
  "ParsePacket L data =
     (if length data < HeaderSize then Inl PacketTooShort
      else
        let magic = (data ! 0, data ! 1, data ! 2) in
        if magic \<noteq> MagicVCS then Inl (InvalidMagic magic)
        else
          let versionType = data ! 3; version = drop_bit 4 versionType AND 0x0F in
          if version \<noteq> currentVersion then Inl (UnsupportedVersion version)
          else
            (case uuid_from_bytes L (take 16 (drop 11 data)) of
               None \<Rightarrow> Inl InvalidSessionID
             | Some sid \<Rightarrow>
                 Inr \<lparr>Magic = magic, Version = version, PType = versionType AND 0x0F,
                      Flags = data ! 4,
                      Sequence = be24 (data ! 5) (data ! 6) (data ! 7),
                      Frequency = be24 (data ! 8) (data ! 9) (data ! 10),
                      SenderID = sid, Payload = drop HeaderSize data\<rparr>))"

text \<open>The built-in \<open>copy(dst, src)\<close>: the common prefix of \<open>src\<close>, the rest of \<open>dst\<close> unchanged.\<close>

definition go_copy :: "'a list \<Rightarrow> 'a list \<Rightarrow> 'a list" where
  "go_copy dst src = take (length dst) src @ drop (length src) dst"

lemma length_go_copy [simp]: "length (go_copy dst src) = length dst"
  by (simp add: go_copy_def)

lemma go_copy_all: "length src = length dst \<Longrightarrow> go_copy dst src = src"
  by (simp add: go_copy_def)

definition SerializePacket :: "uuid_lib \<Rightarrow> vcs_packet \<Rightarrow> byte list" where
  "SerializePacket L p =
     (let (m0, m1, m2) = Magic p in
      [m0, m1, m2, push_bit 4 (Version p) OR PType p, Flags p,
       ucast (drop_bit 16 (Sequence p)), ucast (drop_bit 8 (Sequence p)), ucast (Sequence p),
       ucast (drop_bit 16 (Frequency p)), ucast (drop_bit 8 (Frequency p)), ucast (Frequency p)]
      @ go_copy (replicate 16 0) (uuid_marshal L (SenderID p))
      @ Payload p)"

text \<open>The packets the format can carry: the fixed magic and version, 4-bit type, 24-bit numbers.\<close>

definition wf_packet :: "vcs_packet \<Rightarrow> bool" where
  "wf_packet p \<longleftrightarrow> Magic p = MagicVCS \<and> Version p = currentVersion \<and> PType p < 16 \<and>
     Sequence p < 2 ^ 24 \<and> Frequency p < 2 ^ 24"

subsection \<open>Bit-level lemmas\<close>

lemma ucast_be24 [simp]:
  "(ucast (drop_bit 16 (be24 a b c)) :: byte) = a"
  "(ucast (drop_bit 8 (be24 a b c)) :: byte) = b"
  "(ucast (be24 a b c) :: byte) = c"
  by (rule bit_word_eqI; auto simp: be24_def bit_simps dest: bit_imp_le_length)+

lemma be24_ucast:
  "be24 (ucast (drop_bit 16 s)) (ucast (drop_bit 8 s)) (ucast s) = take_bit 24 s"
proof (rule bit_word_eqI)
  fix n
  assume "n < LENGTH(32)"
  then show "bit (be24 (ucast (drop_bit 16 s)) (ucast (drop_bit 8 s)) (ucast s)) n =
      bit (take_bit 24 s) n"
    by (cases "n < 8"; cases "n < 16"; cases "n < 24") (auto simp: be24_def bit_simps)
qed

lemma be24_less: "be24 a b c < 2 ^ 24"
proof -
  have "be24 a b c = take_bit 24 (be24 a b c)"
    using be24_ucast [of "be24 a b c"] by simp
  then have "unat (be24 a b c) = take_bit 24 (unat (be24 a b c))"
    by (metis unsigned_take_bit_eq)
  also have "\<dots> < 2 ^ 24" by (rule take_bit_nat_less_exp)
  finally show ?thesis by (simp add: word_less_nat_alt)
qed

lemma take_bit_24_id: "s < 2 ^ 24 \<Longrightarrow> take_bit 24 (s :: u32) = s"
  by (simp add: word_unat_eq_iff unsigned_take_bit_eq take_bit_nat_eq_self word_less_nat_alt)

lemma low_nibble: "v AND 0x0F = take_bit 4 (v :: u8)"
proof -
  have "(0x0F :: u8) = mask 4" by (simp add: mask_eq_exp_minus_1)
  then show ?thesis by (simp only: take_bit_eq_mask)
qed

lemma low_nibble_less: "v AND 0x0F < (16 :: u8)"
proof -
  have "unat (take_bit 4 v) < 2 ^ 4"
    unfolding unsigned_take_bit_eq by (rule take_bit_nat_less_exp)
  then show ?thesis by (simp add: low_nibble word_less_nat_alt)
qed

lemma low_nibble_id: "t < 16 \<Longrightarrow> take_bit 4 (t :: u8) = t"
  by (simp add: word_unat_eq_iff unsigned_take_bit_eq take_bit_nat_eq_self word_less_nat_alt)

lemma nibbles_join: "push_bit 4 (drop_bit 4 v AND 0x0F) OR (v AND 0x0F) = (v :: u8)"
proof (rule bit_word_eqI)
  fix n
  assume "n < LENGTH(8)"
  then show "bit (push_bit 4 (drop_bit 4 v AND 0x0F) OR (v AND 0x0F)) n = bit v n"
    unfolding low_nibble by (cases "n < 4") (auto simp: bit_simps)
qed

lemma nibbles_split:
  assumes "v < 16" and "t < 16"
  shows "drop_bit 4 (push_bit 4 v OR t) AND 0x0F = (v :: u8)"
    and "(push_bit 4 v OR t) AND 0x0F = t"
proof -
  have v: "take_bit 4 v = v" and t: "take_bit 4 t = t"
    using assms by (simp_all add: low_nibble_id)
  have bv: "bit v n \<Longrightarrow> n < 4" and bt: "bit t n \<Longrightarrow> n < 4" for n
    by (metis bit_take_bit_iff v) (metis bit_take_bit_iff t)
  show "drop_bit 4 (push_bit 4 v OR t) AND 0x0F = v"
    unfolding low_nibble by (rule bit_word_eqI) (auto simp: bit_simps dest: bv bt)
  show "(push_bit 4 v OR t) AND 0x0F = t"
    unfolding low_nibble by (rule bit_word_eqI) (auto simp: bit_simps dest: bv bt)
qed

subsection \<open>Round trips\<close>

lemma header_bytes:
  assumes "11 \<le> length d"
  shows "take 11 d = [d ! 0, d ! 1, d ! 2, d ! 3, d ! 4, d ! 5, d ! 6, d ! 7, d ! 8, d ! 9, d ! 10]"
proof -
  have "take 11 d = map ((!) d) [0..<11]"
    using assms by (intro nth_equalityI) auto
  then show ?thesis by (simp add: upt_rec eval_nat_numeral)
qed

lemma packet_bytes:
  assumes "HeaderSize \<le> length d"
  shows "d = [d ! 0, d ! 1, d ! 2, d ! 3, d ! 4, d ! 5, d ! 6, d ! 7, d ! 8, d ! 9, d ! 10]
    @ take 16 (drop 11 d) @ drop HeaderSize d"
proof -
  have "d = take 11 d @ take 16 (drop 11 d) @ drop 16 (drop 11 d)"
    by (simp only: append_take_drop_id)
  moreover have "drop 16 (drop 11 d) = drop HeaderSize d" by (simp add: HeaderSize_def)
  moreover have "11 \<le> length d" using assms by (simp add: HeaderSize_def)
  ultimately show ?thesis by (metis header_bytes)
qed

lemma session_id_bytes:
  assumes "uuid_lib_ok L"
  shows "go_copy (replicate 16 0) (uuid_marshal L u) = uuid_marshal L u"
  by (rule go_copy_all) (simp add: uuid_lib_okD [OF assms])

lemma ParsePacket_SerializePacket_gen:
  assumes "uuid_lib_ok L" and "Magic p = MagicVCS" and "Version p = currentVersion"
    and "PType p < 16"
  shows "ParsePacket L (SerializePacket L p) =
    Inr (p\<lparr>Sequence := take_bit 24 (Sequence p), Frequency := take_bit 24 (Frequency p)\<rparr>)"
proof -
  have "(1 :: u8) < 16" by simp
  note nib = nibbles_split [OF this assms(4)]
  have "SerializePacket L p =
    [0x56, 0x43, 0x53, push_bit 4 1 OR PType p, Flags p,
       ucast (drop_bit 16 (Sequence p)), ucast (drop_bit 8 (Sequence p)), ucast (Sequence p),
       ucast (drop_bit 16 (Frequency p)), ucast (drop_bit 8 (Frequency p)), ucast (Frequency p)]
      @ uuid_marshal L (SenderID p) @ Payload p"
    using assms by (simp add: SerializePacket_def MagicVCS_def currentVersion_def session_id_bytes)
  then show ?thesis
    using assms uuid_lib_okD(1,2) [OF assms(1)] nib
    by (simp add: ParsePacket_def MagicVCS_def HeaderSize_def currentVersion_def be24_ucast)
qed

lemma ParsePacket_InrE:
  assumes "ParsePacket L d = Inr p"
  obtains "HeaderSize \<le> length d" "(d ! 0, d ! 1, d ! 2) = MagicVCS"
    "drop_bit 4 (d ! 3) AND 0x0F = currentVersion"
    "uuid_from_bytes L (take 16 (drop 11 d)) = Some (SenderID p)"
    "p = \<lparr>Magic = MagicVCS, Version = currentVersion, PType = d ! 3 AND 0x0F, Flags = d ! 4,
      Sequence = be24 (d ! 5) (d ! 6) (d ! 7), Frequency = be24 (d ! 8) (d ! 9) (d ! 10),
      SenderID = SenderID p, Payload = drop HeaderSize d\<rparr>"
  using assms by (auto simp: ParsePacket_def Let_def split: if_splits option.splits)

lemma ParsePacket_wf: "ParsePacket L d = Inr p \<Longrightarrow> wf_packet p"
proof (erule ParsePacket_InrE)
  assume "p = \<lparr>Magic = MagicVCS, Version = currentVersion, PType = d ! 3 AND 0x0F, Flags = d ! 4,
      Sequence = be24 (d ! 5) (d ! 6) (d ! 7), Frequency = be24 (d ! 8) (d ! 9) (d ! 10),
      SenderID = SenderID p, Payload = drop HeaderSize d\<rparr>"
  then have "Magic p = MagicVCS" "Version p = currentVersion"
    "PType p = d ! 3 AND 0x0F" "Sequence p = be24 (d ! 5) (d ! 6) (d ! 7)"
    "Frequency p = be24 (d ! 8) (d ! 9) (d ! 10)"
    by (metis vcs_packet.select_convs(1) vcs_packet.select_convs(2) vcs_packet.select_convs(3)
        vcs_packet.select_convs(5) vcs_packet.select_convs(6))+
  then show "wf_packet p" using low_nibble_less [of "d ! 3"] be24_less
    unfolding wf_packet_def by presburger
qed

lemma SerializePacket_ParsePacket:
  assumes ok: "uuid_lib_ok L" and "ParsePacket L d = Inr p"
  shows "SerializePacket L p = d"
  using assms(2)
proof (rule ParsePacket_InrE)
  assume len: "HeaderSize \<le> length d" and magic: "(d ! 0, d ! 1, d ! 2) = MagicVCS"
    and ver: "drop_bit 4 (d ! 3) AND 0x0F = currentVersion"
    and sid: "uuid_from_bytes L (take 16 (drop 11 d)) = Some (SenderID p)"
    and p: "p = \<lparr>Magic = MagicVCS, Version = currentVersion, PType = d ! 3 AND 0x0F, Flags = d ! 4,
      Sequence = be24 (d ! 5) (d ! 6) (d ! 7), Frequency = be24 (d ! 8) (d ! 9) (d ! 10),
      SenderID = SenderID p, Payload = drop HeaderSize d\<rparr>"
  define u where "u = SenderID p"
  have "length (take 16 (drop 11 d)) = 16" using len by (simp add: HeaderSize_def)
  then have m: "uuid_marshal L u = take 16 (drop 11 d)"
    using uuid_lib_okD(3) [OF ok, of "take 16 (drop 11 d)"] sid by (auto simp: u_def)
  have cp: "go_copy (replicate 16 0) (uuid_marshal L u) = take 16 (drop 11 d)"
    by (metis session_id_bytes [OF ok] m)
  have p': "p = \<lparr>Magic = (d ! 0, d ! 1, d ! 2), Version = drop_bit 4 (d ! 3) AND 0x0F,
      PType = d ! 3 AND 0x0F, Flags = d ! 4,
      Sequence = be24 (d ! 5) (d ! 6) (d ! 7), Frequency = be24 (d ! 8) (d ! 9) (d ! 10),
      SenderID = u, Payload = drop HeaderSize d\<rparr>"
    unfolding magic ver u_def by (rule p)
  have "SerializePacket L p =
     [d ! 0, d ! 1, d ! 2, d ! 3, d ! 4, d ! 5, d ! 6, d ! 7, d ! 8, d ! 9, d ! 10]
    @ take 16 (drop 11 d) @ drop HeaderSize d"
    unfolding p' SerializePacket_def vcs_packet.simps Let_def prod.case nibbles_join ucast_be24
      cp by (rule refl)
  with packet_bytes [OF len] show ?thesis by simp
qed

lemma ParsePacket_SerializePacket:
  assumes "uuid_lib_ok L" and "wf_packet p"
  shows "ParsePacket L (SerializePacket L p) = Inr p"
  using ParsePacket_SerializePacket_gen [OF assms(1), of p] assms(2)
  by (simp add: wf_packet_def take_bit_24_id)

lemma length_SerializePacket:
  "length (SerializePacket L p) = HeaderSize + length (Payload p)"
  by (simp add: SerializePacket_def HeaderSize_def split: prod.splits)

lemma wf_server_packets [simp]:
  "wf_packet (NewVCSHelloAckPacket u)"
  "wf_packet (NewVCSKeepalivePacket u)"
  "wf_packet (NewVCSVoicePacket u s f d) \<longleftrightarrow> s < 2 ^ 24 \<and> f < 2 ^ 24"
  by (simp_all add: wf_packet_def NewVCSHelloAckPacket_def NewVCSKeepalivePacket_def
      NewVCSVoicePacket_def MagicVCS_def packet_type_defs)

subsection \<open>The codec as an interface\<close>

text \<open>
  What the voice server relies on: the two round trips and that parsing yields a well-formed
  packet only. Everything else about forwarding follows from these laws.
\<close>

locale packet_codec =
  fixes lib_ok :: "'l \<Rightarrow> bool"
    and parse :: "'l \<Rightarrow> 'd \<Rightarrow> 'e + 'p"
    and serialize :: "'l \<Rightarrow> 'p \<Rightarrow> 'd"
    and wf :: "'p \<Rightarrow> bool"
  assumes parse_serialize: "lib_ok l \<Longrightarrow> wf p \<Longrightarrow> parse l (serialize l p) = Inr p"
    and serialize_parse: "lib_ok l \<Longrightarrow> parse l d = Inr p \<Longrightarrow> serialize l p = d"
    and parse_wf: "lib_ok l \<Longrightarrow> parse l d = Inr p \<Longrightarrow> wf p"
begin

lemma parse_inject: "lib_ok l \<Longrightarrow> parse l d = Inr p \<Longrightarrow> parse l d' = Inr p \<Longrightarrow> d = d'"
  by (metis serialize_parse)

lemma serialize_inject:
  "lib_ok l \<Longrightarrow> wf p \<Longrightarrow> wf q \<Longrightarrow> serialize l p = serialize l q \<longleftrightarrow> p = q"
  by (metis parse_serialize sum.inject(2))

lemma accepted_iff:
  assumes "lib_ok l"
  shows "(\<exists>p. parse l d = Inr p) \<longleftrightarrow> (\<exists>p. wf p \<and> d = serialize l p)"
  using assms by (metis parse_serialize serialize_parse parse_wf)

lemma relay_step:
  assumes "lib_ok l" and "parse l d = Inr p"
  shows "serialize l p = d" and "parse l (serialize l p) = Inr p"
  using assms by (simp_all add: serialize_parse)

end

interpretation vcs: packet_codec uuid_lib_ok ParsePacket SerializePacket wf_packet
  by unfold_locales
    (simp_all add: ParsePacket_SerializePacket SerializePacket_ParsePacket ParsePacket_wf)

subsection \<open>Properties\<close>

text \<open>
  C13: Every packet the format can carry (magic VCS, version 1, 4-bit type, 24-bit sequence and
  frequency) survives serialising and parsing unchanged, whatever its flags, session id and
  payload.
\<close>

theorem packet_roundtrip:
  "uuid_lib_ok L \<Longrightarrow> wf_packet p \<Longrightarrow> ParsePacket L (SerializePacket L p) = Inr p"
  by (rule vcs.parse_serialize)

theorem packet_roundtrip_witness:
  "ParsePacket sample_uuid_lib (SerializePacket sample_uuid_lib (NewVCSHelloAckPacket 7)) =
     Inr (NewVCSHelloAckPacket 7)"
  by (rule packet_roundtrip) (simp_all add: sample_uuid_lib_ok)

text \<open>
  C14: Whatever datagram the parser accepts, serialising the parsed packet gives the same
  bytes back: the relay forwards exactly what it received.
\<close>

theorem packet_bytes_preserved:
  "uuid_lib_ok L \<Longrightarrow> ParsePacket L d = Inr p \<Longrightarrow> SerializePacket L p = d"
  by (rule vcs.serialize_parse)

theorem packet_bytes_preserved_witness:
  "SerializePacket sample_uuid_lib
     (NewVCSKeepalivePacket 9) = SerializePacket sample_uuid_lib (NewVCSKeepalivePacket 9) \<and>
   ParsePacket sample_uuid_lib (SerializePacket sample_uuid_lib (NewVCSKeepalivePacket 9)) =
     Inr (NewVCSKeepalivePacket 9)"
proof -
  have p: "ParsePacket sample_uuid_lib (SerializePacket sample_uuid_lib (NewVCSKeepalivePacket 9)) =
     Inr (NewVCSKeepalivePacket 9)"
    by (simp add: ParsePacket_SerializePacket sample_uuid_lib_ok)
  show ?thesis using packet_bytes_preserved [OF sample_uuid_lib_ok p] p by simp
qed

lemma nth_3_take: "27 \<le> length d \<Longrightarrow> take 3 d = [d ! 0, d ! 1, d ! 2]"
proof -
  assume "27 \<le> length d"
  then have "take 3 d = map ((!) d) [0..<3]" by (intro nth_equalityI) auto
  then show ?thesis by (simp add: upt_rec eval_nat_numeral)
qed

lemma ParsePacket_accepts:
  assumes "uuid_lib_ok L"
  shows "(\<exists>p. ParsePacket L d = Inr p) \<longleftrightarrow>
      27 \<le> length d \<and> take 3 d = [0x56, 0x43, 0x53] \<and> drop_bit 4 (d ! 3) = 1"
    and "ParsePacket L d = Inl PacketTooShort \<longleftrightarrow> length d < 27"
    and "ParsePacket L d \<noteq> Inl InvalidSessionID"
proof -
  have high: "drop_bit 4 v AND 0x0F = drop_bit 4 v" for v :: u8
    unfolding low_nibble by (rule bit_word_eqI) (auto simp: bit_simps dest: bit_imp_le_length)
  have sid: "\<exists>u. uuid_from_bytes L (take 16 (drop 11 d)) = Some u" if "27 \<le> length d"
    using uuid_lib_okD(3) [OF assms, of "take 16 (drop 11 d)"] that by auto
  show "(\<exists>p. ParsePacket L d = Inr p) \<longleftrightarrow>
      27 \<le> length d \<and> take 3 d = [0x56, 0x43, 0x53] \<and> drop_bit 4 (d ! 3) = 1"
  proof (cases "27 \<le> length d")
    case True
    with sid obtain u where "uuid_from_bytes L (take 16 (drop 11 d)) = Some u" by blast
    with True show ?thesis
      unfolding nth_3_take [OF True]
      by (auto simp: ParsePacket_def HeaderSize_def MagicVCS_def currentVersion_def high Let_def)
  qed (simp add: ParsePacket_def HeaderSize_def)
  show "ParsePacket L d = Inl PacketTooShort \<longleftrightarrow> length d < 27"
    by (auto simp: ParsePacket_def HeaderSize_def Let_def split: option.splits)
  show "ParsePacket L d \<noteq> Inl InvalidSessionID"
    using sid by (cases "27 \<le> length d") (auto simp: ParsePacket_def HeaderSize_def Let_def)
qed



text \<open>
  Serialising truncates the sequence number and the frequency to their low 24 bits and
  changes nothing else.
\<close>

theorem packet_truncation:
  "uuid_lib_ok L \<Longrightarrow> PType p < 16 \<Longrightarrow>
   ParsePacket L (SerializePacket L (p\<lparr>Magic := MagicVCS, Version := currentVersion\<rparr>)) =
     Inr (p\<lparr>Magic := MagicVCS, Version := currentVersion,
            Sequence := take_bit 24 (Sequence p), Frequency := take_bit 24 (Frequency p)\<rparr>)"
  by (simp add: ParsePacket_SerializePacket_gen)

theorem packet_truncation_witness:
  "ParsePacket sample_uuid_lib (SerializePacket sample_uuid_lib
       (NewVCSVoicePacket 3 0x01000005 145500 [1, 2])) =
     Inr (NewVCSVoicePacket 3 5 145500 [1, 2])"
proof -
  have "take_bit 24 (0x01000005 :: u32) = 5" "take_bit 24 (145500 :: u32) = 145500" by simp_all
  then show ?thesis
    using packet_truncation [OF sample_uuid_lib_ok, of "NewVCSVoicePacket 3 0x01000005 145500 [1, 2]"]
    by (simp add: NewVCSVoicePacket_def MagicVCS_def packet_type_defs)
qed

text \<open>
  The flag operations are independent bits: setting or clearing PTT makes \<open>IsPTTActive\<close>
  read back the value and leaves the intercom flag and the six reserved bits alone, and the
  other way round.
\<close>

theorem packet_flags:
  "IsPTTActive (SetPTT b p) = b \<and> IsIntercomPacket (SetPTT b p) = IsIntercomPacket p \<and>
   Flags (SetPTT b p) AND 0xFC = Flags p AND 0xFC \<and>
   IsIntercomPacket (SetIntercom b p) = b \<and> IsPTTActive (SetIntercom b p) = IsPTTActive p \<and>
   Flags (SetIntercom b p) AND 0xFC = Flags p AND 0xFC"
proof -
  have one: "(x AND 1 \<noteq> 0) = bit x 0" and two: "(x AND 2 \<noteq> 0) = bit x 1" for x :: u8
    using and_exp_eq_0_iff_not_bit [of x 0] and_exp_eq_0_iff_not_bit [of x 1] by simp_all
  note defs = SetPTT_def SetIntercom_def IsPTTActive_def IsIntercomPacket_def
  have "Flags (SetPTT b p) AND 0xFC = Flags p AND 0xFC"
    "Flags (SetIntercom b p) AND 0xFC = Flags p AND 0xFC"
    unfolding defs by (auto simp: and.assoc bit.conj_disj_distrib2)
  then show ?thesis
    unfolding defs by (simp add: one two bit_simps)
qed

text \<open>
  On frequencies below 16384 MHz, and so on the whole documented range up to 999.999 MHz,
  the \<open>float32\<close> the server compares with the clients' radios determines the frequency of the
  packet: two packets on different kHz are never confused.
\<close>

theorem frequency_separation:
  "unat (Frequency p) < 16384000 \<Longrightarrow> unat (Frequency q) < 16384000 \<Longrightarrow>
   f32_eq (FrequencyAsFloat32 p) (FrequencyAsFloat32 q) \<longleftrightarrow> Frequency p = Frequency q"
proof -
  assume b: "unat (Frequency p) < 16384000" "unat (Frequency q) < 16384000"
  have k: "FrequencyAsFloat32 r = khz_as_f32 (Frequency r)" for r
    by (simp add: FrequencyAsFloat32_def khz_as_f32_def)
  have "khz_as_f32 (Frequency p) \<noteq> NaN32" using b(1) by (simp add: khz_as_f32_eq)
  then show ?thesis using khz_as_f32_inject [OF b] by (simp add: k f32_eq_def)
qed

theorem frequency_separation_witness:
  "\<not> f32_eq (FrequencyAsFloat32 (NewVCSVoicePacket 1 0 145500 []))
      (FrequencyAsFloat32 (NewVCSVoicePacket 1 0 145501 []))"
  by (subst frequency_separation) (simp_all add: NewVCSVoicePacket_def)

text \<open>
  Reading a packet's frequency in MHz and setting it again never raises it and loses at
  most 1 kHz, for every 32-bit frequency and whatever the out-of-range conversion does; and
  it does lose 1 kHz on 1001 kHz, because \<open>SetFrequencyMHz\<close> truncates instead of rounding.
\<close>

theorem set_frequency_loss:
  "unat (Frequency p) - unat (Frequency (SetFrequencyMHz oor (FrequencyMHz p) q)) \<le> 1 \<and>
   unat (Frequency (SetFrequencyMHz oor (FrequencyMHz p) q)) \<le> unat (Frequency p) \<and>
   Frequency (SetFrequencyMHz oor (FrequencyMHz (NewVCSVoicePacket u s 1001 d)) q) = 1000"
proof -
  have eq: "Frequency (SetFrequencyMHz oor (FrequencyMHz r) q) = khz_roundtrip oor (Frequency r)" for r
    by (simp add: SetFrequencyMHz_def FrequencyMHz_def khz_roundtrip_def)
  show ?thesis
    unfolding eq using khz_roundtrip_eq(3) [of "Frequency p" oor]
    by (auto simp: NewVCSVoicePacket_def khz_roundtrip_1001)
qed

end
