(* ===== verification/Events.thy ===== *)
theory Events
  imports Prelude
begin

text \<open>
  The event bus, \<^verbatim>\<open>events/bus.go\<close> and \<^verbatim>\<open>events/events.go\<close>: subscribers by event name, the
  publish queue drained by the publisher goroutine, and delivery by non-blocking sends into
  buffered channels. Channels are shared objects, so the model keeps them in a heap indexed by
  address; the interface of one channel is the locale \<open>lossy_channel\<close>.
\<close>

subsection \<open>Events\<close>

definition SettingsChanged :: string where
  "SettingsChanged = ''settings/changed''"

definition CoalitionsChanged :: string where
  "CoalitionsChanged = ''settings/coalitions/changed''"

definition AdminChanged :: string where
  "AdminChanged = ''admin/changed''"

definition RadioClientsChanged :: string where
  "RadioClientsChanged = ''clients/radio/changed''"

definition ClientsChanged :: string where
  "ClientsChanged = ''clients/changed''"

definition BannedClientsChanged :: string where
  "BannedClientsChanged = ''clients/banned/changed''"

definition NotificationEvent :: string where
  "NotificationEvent = ''notification''"

lemmas event_name_defs = SettingsChanged_def CoalitionsChanged_def AdminChanged_def
  RadioClientsChanged_def ClientsChanged_def BannedClientsChanged_def NotificationEvent_def

record notification =
  n_Title :: string
  n_Message :: string
  n_Level :: string
  n_Id :: string

text \<open>
  \<open>Data\<close> is an interface value. Apart from notifications the server stores a reference to one
  of its live objects in it (a Go map, a slice or a pointer to a state struct), not a copy; the
  constructor names the object.
\<close>

datatype event_data = ClientsRef | RadioClientsRef | BannedRef | SettingsRef | CoalitionsRef
  | AdminRef | NotificationData notification

record event =
  e_Name :: string
  e_Data :: event_data

text \<open>The identifier of a notification is a fresh random UUID, an argument here.\<close>

definition NewNotification :: "string \<Rightarrow> string \<Rightarrow> string \<Rightarrow> string \<Rightarrow> notification" where
  "NewNotification nid title message level =
     \<lparr>n_Title = title, n_Message = message, n_Level = level, n_Id = nid\<rparr>"

definition NewEvent :: "string \<Rightarrow> event_data \<Rightarrow> event" where
  "NewEvent nm d = \<lparr>e_Name = nm, e_Data = d\<rparr>"

subsection \<open>The bus\<close>

record event_bus =
  subscribers :: "string \<rightharpoonup> nat list"
  publishQueue :: "event list"
  channels :: "nat \<Rightarrow> event list"
  next_chan :: nat

definition NewEventBus :: event_bus where
  "NewEventBus = \<lparr>subscribers = Map.empty, publishQueue = [], channels = (\<lambda>_. []), next_chan = 0\<rparr>"

definition chan_capacity :: nat where
  "chan_capacity = 10"

text \<open>\<open>select { case sub <- event: default: }\<close>: send if the buffer has room, else drop.\<close>

definition send_nonblocking :: "nat \<Rightarrow> event \<Rightarrow> event_bus \<Rightarrow> event_bus" where
  "send_nonblocking ch e eb =
     (if length (channels eb ch) < chan_capacity
      then eb\<lparr>channels := (channels eb)(ch := channels eb ch @ [e])\<rparr> else eb)"

definition subs_of :: "event_bus \<Rightarrow> string \<Rightarrow> nat list" where
  "subs_of eb nm = (case subscribers eb nm of None \<Rightarrow> [] | Some subs \<Rightarrow> subs)"

definition dispatch :: "event \<Rightarrow> event_bus \<Rightarrow> event_bus" where
  "dispatch e eb =
     fold (\<lambda>ch. send_nonblocking ch e) (subs_of eb (e_Name e) @ subs_of eb ''*'') eb"

definition Subscribe :: "string \<Rightarrow> event_bus \<Rightarrow> event_bus \<times> nat" where
  "Subscribe eventName eb =
     (let ch = next_chan eb in
      (eb\<lparr>subscribers := (subscribers eb)(eventName \<mapsto> subs_of eb eventName @ [ch]),
          channels := (channels eb)(ch := []), next_chan := Suc ch\<rparr>, ch))"

definition Publish :: "event \<Rightarrow> event_bus \<Rightarrow> event_bus" where
  "Publish e eb = eb\<lparr>publishQueue := publishQueue eb @ [e]\<rparr>"

text \<open>One round of the publisher's loop; on an empty queue it sleeps.\<close>

definition publisher_step :: "event_bus \<Rightarrow> event_bus" where
  "publisher_step eb =
     (case publishQueue eb of [] \<Rightarrow> eb | e # q \<Rightarrow> dispatch e (eb\<lparr>publishQueue := q\<rparr>))"

text \<open>The receiving end, \<open>for event := range channel\<close>: the oldest buffered event.\<close>

definition chan_receive :: "nat \<Rightarrow> event_bus \<Rightarrow> (event \<times> event_bus) option" where
  "chan_receive ch eb =
     (case channels eb ch of [] \<Rightarrow> None
      | e # es \<Rightarrow> Some (e, eb\<lparr>channels := (channels eb)(ch := es)\<rparr>))"

subsection \<open>A channel that drops when full\<close>

locale lossy_channel =
  fixes send :: "'e \<Rightarrow> 'c \<Rightarrow> 'c"
    and buffered :: "'c \<Rightarrow> 'e list"
    and cap :: nat
  assumes buffered_send: "buffered (send e c) =
      (if length (buffered c) < cap then buffered c @ [e] else buffered c)"
begin

lemma send_bounded: "length (buffered c) \<le> cap \<Longrightarrow> length (buffered (send e c)) \<le> cap"
  by (simp add: buffered_send)

lemma send_keeps_prefix: "take (length (buffered c)) (buffered (send e c)) = buffered c"
  by (simp add: buffered_send)

lemma send_all:
  "length (buffered c) \<le> cap \<Longrightarrow> buffered (fold send es c) = take cap (buffered c @ es)"
proof (induction es arbitrary: c)
  case (Cons e es)
  then show ?case
    by (cases "length (buffered c) < cap") (simp_all add: buffered_send send_bounded take_Cons')
qed simp

lemma send_all_no_loss:
  "length (buffered c) + length es \<le> cap \<Longrightarrow> buffered (fold send es c) = buffered c @ es"
  using send_all [of c es] by simp

end

interpretation chan: lossy_channel "send_nonblocking ch" "\<lambda>eb. channels eb ch" chan_capacity
  by unfold_locales (simp add: send_nonblocking_def)

subsection \<open>Invariant\<close>

text \<open>
  Every subscribed channel has been allocated, no channel is subscribed twice, and no buffer
  exceeds its capacity.
\<close>

definition bus_inv :: "event_bus \<Rightarrow> bool" where
  "bus_inv eb \<longleftrightarrow>
     (\<forall>nm. distinct (subs_of eb nm) \<and> (\<forall>ch \<in> set (subs_of eb nm). ch < next_chan eb)) \<and>
     (\<forall>nm nm'. nm \<noteq> nm' \<longrightarrow> set (subs_of eb nm) \<inter> set (subs_of eb nm') = {}) \<and>
     (\<forall>ch. length (channels eb ch) \<le> chan_capacity)"

lemma send_frame [simp]:
  "subscribers (send_nonblocking ch e eb) = subscribers eb"
  "publishQueue (send_nonblocking ch e eb) = publishQueue eb"
  "next_chan (send_nonblocking ch e eb) = next_chan eb"
  "subs_of (send_nonblocking ch e eb) nm = subs_of eb nm"
  "ch' \<noteq> ch \<Longrightarrow> channels (send_nonblocking ch e eb) ch' = channels eb ch'"
  by (simp_all add: send_nonblocking_def subs_of_def)

lemma fold_send_frame [simp]:
  "subscribers (fold (\<lambda>ch. send_nonblocking ch e) chs eb) = subscribers eb"
  "publishQueue (fold (\<lambda>ch. send_nonblocking ch e) chs eb) = publishQueue eb"
  "next_chan (fold (\<lambda>ch. send_nonblocking ch e) chs eb) = next_chan eb"
  "subs_of (fold (\<lambda>ch. send_nonblocking ch e) chs eb) nm = subs_of eb nm"
  by (induction chs arbitrary: eb) simp_all

lemma fold_send_channel:
  "distinct chs \<Longrightarrow> channels (fold (\<lambda>ch. send_nonblocking ch e) chs eb) ch =
     (if ch \<in> set chs then channels (send_nonblocking ch e eb) ch else channels eb ch)"
proof (induction chs arbitrary: eb)
  case (Cons c chs)
  then show ?case by (auto simp: send_nonblocking_def)
qed simp

lemma dispatch_frame [simp]:
  "subscribers (dispatch e eb) = subscribers eb" "publishQueue (dispatch e eb) = publishQueue eb"
  "next_chan (dispatch e eb) = next_chan eb" "subs_of (dispatch e eb) nm = subs_of eb nm"
  by (simp_all add: dispatch_def)

text \<open>The subscribers an event reaches: those of its own name and those of the wildcard.\<close>

definition interested :: "event_bus \<Rightarrow> nat \<Rightarrow> event \<Rightarrow> bool" where
  "interested eb ch e \<longleftrightarrow> ch \<in> set (subs_of eb (e_Name e)) \<or> ch \<in> set (subs_of eb ''*'')"

lemma dispatch_channel:
  assumes "bus_inv eb" and "e_Name e \<noteq> ''*''"
  shows "channels (dispatch e eb) ch =
    (if interested eb ch e then channels (send_nonblocking ch e eb) ch else channels eb ch)"
proof -
  have "distinct (subs_of eb (e_Name e) @ subs_of eb ''*'')"
    using assms by (auto simp: bus_inv_def)
  then show ?thesis by (simp only: dispatch_def fold_send_channel) (simp add: interested_def)
qed

lemma fold_send_bounded:
  "\<forall>ch. length (channels eb ch) \<le> chan_capacity \<Longrightarrow>
   length (channels (fold (\<lambda>ch. send_nonblocking ch e) chs eb) ch) \<le> chan_capacity"
proof (induction chs arbitrary: eb)
  case (Cons c chs)
  have "\<forall>ch. length (channels (send_nonblocking c e eb) ch) \<le> chan_capacity"
    using Cons.prems by (auto simp: send_nonblocking_def)
  then show ?case using Cons.IH by simp
qed simp

lemma bus_inv_frame:
  assumes "bus_inv eb" and "subscribers eb' = subscribers eb" and "next_chan eb' = next_chan eb"
    and "\<And>ch. length (channels eb' ch) \<le> chan_capacity"
  shows "bus_inv eb'"
  using assms by (simp add: bus_inv_def subs_of_def)

lemma bus_inv_NewEventBus: "bus_inv NewEventBus"
  by (simp add: bus_inv_def NewEventBus_def subs_of_def chan_capacity_def)

lemma bus_inv_Publish: "bus_inv eb \<Longrightarrow> bus_inv (Publish e eb)"
  by (rule bus_inv_frame) (simp_all add: Publish_def bus_inv_def)

lemma bus_inv_dispatch: "bus_inv eb \<Longrightarrow> bus_inv (dispatch e eb)"
  by (rule bus_inv_frame) (simp_all add: dispatch_def fold_send_bounded bus_inv_def)

lemma bus_inv_queue: "bus_inv (eb\<lparr>publishQueue := q\<rparr>) \<longleftrightarrow> bus_inv eb"
  by (simp add: bus_inv_def subs_of_def)

lemma bus_inv_publisher_step: "bus_inv eb \<Longrightarrow> bus_inv (publisher_step eb)"
  by (auto simp: publisher_step_def bus_inv_queue intro: bus_inv_dispatch split: list.splits)

lemma bus_inv_receive: "bus_inv eb \<Longrightarrow> chan_receive ch eb = Some (e, eb') \<Longrightarrow> bus_inv eb'"
proof (rule bus_inv_frame [of eb])
  assume inv: "bus_inv eb" and r: "chan_receive ch eb = Some (e, eb')"
  then obtain es where es: "channels eb ch = e # es" "eb' = eb\<lparr>channels := (channels eb)(ch := es)\<rparr>"
    by (auto simp: chan_receive_def split: list.splits)
  have len: "length (channels eb c) \<le> chan_capacity" for c using inv by (simp add: bus_inv_def)
  show "length (channels eb' c) \<le> chan_capacity" for c
    using es len [of c] len [of ch] by auto
qed (auto simp: chan_receive_def split: list.splits)

lemma bus_inv_Subscribe:
  assumes inv: "bus_inv eb"
  shows "bus_inv (fst (Subscribe nm eb))"
proof -
  let ?eb = "fst (Subscribe nm eb)"
  have subs: "subs_of ?eb m = (if m = nm then subs_of eb nm @ [next_chan eb] else subs_of eb m)" for m
    by (simp add: Subscribe_def Let_def subs_of_def)
  have fresh: "next_chan eb \<notin> set (subs_of eb m)" for m
    using inv by (auto simp: bus_inv_def)
  have nc: "next_chan ?eb = Suc (next_chan eb)" by (simp add: Subscribe_def Let_def)
  have "length (channels ?eb ch) \<le> chan_capacity" for ch
    using inv by (simp add: Subscribe_def Let_def bus_inv_def)
  moreover have "distinct (subs_of ?eb m) \<and> (\<forall>ch \<in> set (subs_of ?eb m). ch < next_chan ?eb)" for m
    using inv fresh by (auto simp: subs nc bus_inv_def less_Suc_eq)
  moreover have "set (subs_of ?eb m) \<inter> set (subs_of ?eb m') = {}" if "m \<noteq> m'" for m m'
    using inv fresh that by (auto simp: subs bus_inv_def)
  ultimately show ?thesis unfolding bus_inv_def by blast
qed

subsection \<open>Reachable buses\<close>

inductive bus_reach :: "event_bus \<Rightarrow> bool" where
  start: "bus_reach NewEventBus"
| subscribe: "bus_reach eb \<Longrightarrow> bus_reach (fst (Subscribe nm eb))"
| publish: "bus_reach eb \<Longrightarrow> bus_reach (Publish e eb)"
| publisher: "bus_reach eb \<Longrightarrow> bus_reach (publisher_step eb)"
| receive: "bus_reach eb \<Longrightarrow> chan_receive ch eb = Some (e, eb') \<Longrightarrow> bus_reach eb'"

lemma bus_reach_inv: "bus_reach eb \<Longrightarrow> bus_inv eb"
  by (induction rule: bus_reach.induct)
    (simp_all add: bus_inv_NewEventBus bus_inv_Subscribe bus_inv_Publish bus_inv_publisher_step
      bus_inv_receive)

lemma publisher_steps_channel:
  assumes "bus_inv eb" and "\<forall>e \<in> set (publishQueue eb). e_Name e \<noteq> ''*''"
  shows "publishQueue ((publisher_step ^^ length (publishQueue eb)) eb) = [] \<and>
    channels ((publisher_step ^^ length (publishQueue eb)) eb) ch =
      take chan_capacity (channels eb ch @ filter (interested eb ch) (publishQueue eb))"
  using assms
proof (induction "publishQueue eb" arbitrary: eb)
  case Nil
  then show ?case by (simp add: bus_inv_def)
next
  case (Cons e q)
  let ?eb = "eb\<lparr>publishQueue := q\<rparr>"
  let ?next = "dispatch e ?eb"
  have q: "publishQueue eb = e # q" using Cons.hyps(2) by simp
  have step: "publisher_step eb = ?next" by (simp add: publisher_step_def q)
  have inv: "bus_inv ?eb" using Cons.prems(1) by (simp add: bus_inv_queue)
  have int: "interested ?next ch = interested eb ch" "interested ?eb ch = interested eb ch"
    by (simp_all add: interested_def fun_eq_iff subs_of_def)
  have "channels ?next ch =
      (if interested eb ch e then channels (send_nonblocking ch e ?eb) ch else channels eb ch)"
    using dispatch_channel [OF inv, of e ch] Cons.prems(2) q by (simp add: int)
  then have ch: "channels ?next ch =
      take chan_capacity (channels eb ch @ filter (interested eb ch) [e])"
    using chan.send_all [where ch = ch and c = ?eb and es = "[e]"] Cons.prems(1) by (simp add: bus_inv_def)
  have "publishQueue ((publisher_step ^^ length q) ?next) = [] \<and>
    channels ((publisher_step ^^ length q) ?next) ch =
      take chan_capacity (channels ?next ch @ filter (interested ?next ch) q)"
    using Cons.hyps(1) [of ?next] Cons.prems inv q by (simp add: bus_inv_dispatch)
  moreover have "(publisher_step ^^ length (publishQueue eb)) eb = (publisher_step ^^ length q) ?next"
    by (simp add: q step funpow_swap1)
  moreover have "filter (interested eb ch) (e # q) = filter (interested eb ch) [e] @
      filter (interested eb ch) q" by simp
  ultimately show ?case
    by (simp only: ch int q take_append_take append_assoc simp_thms)
qed

subsection \<open>Properties\<close>





end
