(* ===== verification/Slices.thy ===== *)
theory Slices
  imports Main "HOL-Library.Multiset"
begin

text \<open>
  The generic slice helper of \<^verbatim>\<open>utils/slice.go\<close>: removal by moving the last element into the
  gap.
\<close>

fun indexOf :: "'a \<Rightarrow> 'a list \<Rightarrow> int" where
  "indexOf element [] = -1"
| "indexOf element (v # vs) =
     (if element = v then 0
      else (let k = indexOf element vs in if k = -1 then -1 else k + 1))"

definition RemoveElem :: "'a list \<Rightarrow> 'a \<Rightarrow> 'a list" where
  "RemoveElem s e =
     (if length s \<le> 1 then []
      else (let i = indexOf e s in
            if i = -1 then s
            else take (length s - 1) (s[nat i := s ! (length s - 1)])))"

lemma indexOf_ge: "-1 \<le> indexOf e s"
  by (induction s) (auto simp: Let_def)

lemma indexOf_absent: "indexOf e s = -1 \<longleftrightarrow> e \<notin> set s"
proof (induction s)
  case (Cons v vs)
  have "indexOf e vs + 1 \<noteq> -1" using indexOf_ge [of e vs] by linarith
  with Cons show ?case by (auto simp: Let_def)
qed simp

lemma indexOf_present:
  "e \<in> set s \<Longrightarrow> 0 \<le> indexOf e s \<and> nat (indexOf e s) < length s \<and> s ! nat (indexOf e s) = e"
proof (induction s)
  case (Cons v vs)
  then show ?case
    by (auto simp: Let_def indexOf_absent nat_add_distrib)
qed simp

lemma mset_take_butlast_update:
  assumes "i < length s"
  shows "mset (take (length s - 1) (s[i := s ! (length s - 1)])) = mset s - {# s ! i #}"
proof -
  let ?n = "length s - 1"
  have n: "?n < length s" using assms by simp
  have drop: "drop ?n (s[i := s ! ?n]) = [s ! ?n]"
    using n assms by (simp add: drop_update_swap [symmetric] Cons_nth_drop_Suc [symmetric] nth_list_update)
  have "mset (s[i := s ! ?n]) = mset (take ?n (s[i := s ! ?n])) + {# s ! ?n #}"
    by (metis append_take_drop_id drop mset.simps mset_append mset_single_iff_right)
  moreover have "mset (s[i := s ! ?n]) = add_mset (s ! ?n) (mset s - {# s ! i #})"
    using assms by (simp add: mset_update)
  ultimately show ?thesis by simp
qed

lemma mset_RemoveElem:
  assumes "length s \<noteq> 1 \<or> e \<in> set s"
  shows "mset (RemoveElem s e) = mset s - {# e #}"
proof (cases "length s \<le> 1")
  case True
  with assms show ?thesis by (cases s) (auto simp: RemoveElem_def)
next
  case False
  show ?thesis
  proof (cases "e \<in> set s")
    case True
    note i = indexOf_present [OF True]
    then have "mset (RemoveElem s e) = mset s - {# s ! nat (indexOf e s) #}"
      using False mset_take_butlast_update [of "nat (indexOf e s)" s]
      by (simp add: RemoveElem_def Let_def indexOf_absent True)
    with i show ?thesis by simp
  next
    case nin: False
    with False show ?thesis
      by (simp add: RemoveElem_def indexOf_absent [THEN iffD2] diff_single_trivial)
  qed
qed

end
