(* ===== verification/ServerState.thy ===== *)
theory ServerState
  imports Prelude GoFloat
begin

text \<open>
  The shared client state, \<^verbatim>\<open>state/server.go\<close>: connected clients, their radios, the list of
  banned clients and its file. Its mutex serialises the operations, so each is one step. The
  interface the gRPC services use is the locale \<open>client_registry\<close>.
\<close>

subsection \<open>Data\<close>

record client_state =
  c_Name :: string
  c_UnitId :: string
  c_Coalition :: string
  c_Role :: u8
  c_LastUpdate :: time

record radio =
  r_ID :: u32
  r_Name :: string
  r_Frequency :: float32
  r_Enabled :: bool
  r_IsIntercom :: bool

record radio_state =
  Radios :: "radio list"
  Muted :: bool

record banned_client =
  b_ID :: string
  b_Name :: string
  b_IPAddress :: string
  b_Reason :: string

record banned_state =
  BannedClients :: "banned_client list"
  ban_file :: string

text \<open>
  The maps hold pointers that the server never stores as \<open>nil\<close>; an update through such a
  pointer is an update of the entry.
\<close>

record server_state =
  Clients :: "(uuid, client_state) gomap"
  RadioClients :: "(uuid, radio_state) gomap"
  BannedSt :: banned_state

subsection \<open>Operations\<close>

definition AddClient :: "uuid \<Rightarrow> client_state \<Rightarrow> server_state \<Rightarrow> server_state outcome" where
  "AddClient clientGuid client s =
     (let clients = (if Clients s = None then gmake else Clients s) in
      bind_outcome (gput clients clientGuid client) (\<lambda>cs.
      bind_outcome (gput (RadioClients s) clientGuid \<lparr>Radios = [], Muted = False\<rparr>) (\<lambda>rs.
        Ret (s\<lparr>Clients := cs, RadioClients := rs\<rparr>))))"

definition GetAllClients :: "uuid list \<Rightarrow> server_state \<Rightarrow> (uuid \<times> client_state) list" where
  "GetAllClients order s = entries_in order (gget (Clients s))"

definition GetAllRadios :: "uuid list \<Rightarrow> server_state \<Rightarrow> (uuid \<times> radio_state) list" where
  "GetAllRadios order s = entries_in order (gget (RadioClients s))"

fun enabled_frequencies :: "radio list \<Rightarrow> float32 list" where
  "enabled_frequencies [] = []"
| "enabled_frequencies (r # rs) =
     (if r_Enabled r then r_Frequency r # enabled_frequencies rs else enabled_frequencies rs)"

definition GetAllEnabledFrequencies :: "uuid \<Rightarrow> server_state \<Rightarrow> float32 list" where
  "GetAllEnabledFrequencies clientGuid s =
     (case gget (RadioClients s) clientGuid of
        Some st \<Rightarrow> enabled_frequencies (Radios st)
      | None \<Rightarrow> [])"

text \<open>The loop over the receiver's radios returns at the first one on the frequency.\<close>

fun tuned :: "radio list \<Rightarrow> float32 \<Rightarrow> bool" where
  "tuned [] frequency = False"
| "tuned (r # rs) frequency =
     (if f32_eq (r_Frequency r) frequency then r_Enabled r else tuned rs frequency)"

definition IsListeningOnFrequency ::
    "uuid \<Rightarrow> uuid \<Rightarrow> float32 \<Rightarrow> bool \<Rightarrow> server_state \<Rightarrow> bool" where
  "IsListeningOnFrequency clientGuid senderId frequency globalFreq s =
     (case gget (Clients s) senderId of
        None \<Rightarrow> False
      | Some sender \<Rightarrow>
          (case gget (RadioClients s) clientGuid of
             None \<Rightarrow> False
           | Some st \<Rightarrow>
               let receiver = the (gget (Clients s) senderId) in
               if \<not> globalFreq \<and> c_Coalition sender \<noteq> c_Coalition receiver then False
               else tuned (Radios st) frequency))"

definition DoesClientExist :: "uuid \<Rightarrow> server_state \<Rightarrow> bool" where
  "DoesClientExist clientGuid s = (gget (Clients s) clientGuid \<noteq> None)"

text \<open>Removal from both maps, as the services do it (\<open>cleanupClientState\<close>).\<close>

definition cleanupClientState :: "uuid \<Rightarrow> server_state \<Rightarrow> server_state" where
  "cleanupClientState clientID s =
     (let s1 = (if gget (Clients s) clientID \<noteq> None
                then s\<lparr>Clients := gdel (Clients s) clientID\<rparr> else s)
      in if gget (RadioClients s1) clientID \<noteq> None
         then s1\<lparr>RadioClients := gdel (RadioClients s1) clientID\<rparr> else s1)"

subsection \<open>Lemmas\<close>

lemma gget_gdel_absent: "gget m k = None \<Longrightarrow> gdel m k = m"
  by (cases m) (auto simp: gdel_def)

lemma cleanupClientState_eq:
  "cleanupClientState u s = s\<lparr>Clients := gdel (Clients s) u, RadioClients := gdel (RadioClients s) u\<rparr>"
  by (auto simp: cleanupClientState_def Let_def gget_gdel_absent)

lemma AddClient_Ret:
  "RadioClients s \<noteq> None \<Longrightarrow> \<exists>s'. AddClient u c s = Ret s'"
  by (auto simp: AddClient_def gmake_def Let_def)

lemma AddClient_panics_iff: "AddClient u c s = Panics \<longleftrightarrow> RadioClients s = None"
  by (cases "RadioClients s"; cases "Clients s") (auto simp: AddClient_def gmake_def Let_def)

lemma AddClient_RetD:
  assumes "AddClient u c s = Ret s'"
  shows "gget (Clients s') = (gget (Clients s))(u \<mapsto> c)"
    and "gget (RadioClients s') = (gget (RadioClients s))(u \<mapsto> \<lparr>Radios = [], Muted = False\<rparr>)"
    and "BannedSt s' = BannedSt s"
    and "RadioClients s' \<noteq> None" and "Clients s' \<noteq> None"
  using assms
  by (cases "RadioClients s"; cases "Clients s";
      auto simp: AddClient_def gmake_def Let_def)+

lemma IsListening_iff:
  "IsListeningOnFrequency u v f g s \<longleftrightarrow>
     gget (Clients s) v \<noteq> None \<and> (\<exists>st. gget (RadioClients s) u = Some st \<and> tuned (Radios st) f)"
  by (auto simp: IsListeningOnFrequency_def split: option.splits)

lemma set_GetAllClients:
  "iter_order ks (gget (Clients s)) \<Longrightarrow> set (GetAllClients ks s) = {(u, c). gget (Clients s) u = Some c}"
  by (simp add: GetAllClients_def set_entries_iter)

lemma tuned_iff:
  "tuned rs f \<longleftrightarrow> (\<exists>r. find (\<lambda>r. f32_eq (r_Frequency r) f) rs = Some r \<and> r_Enabled r)"
  by (induction rs) auto

lemma tuned_enabled: "tuned rs f \<Longrightarrow> f32_contains (enabled_frequencies rs) f"
  by (induction rs) (auto simp: f32_contains_def split: if_splits)

subsection \<open>The registry as an interface\<close>

text \<open>
  What the services rely on: what the two lookups return after adding and removing a client.
  The derived laws are those of the whole client life cycle.
\<close>

locale client_registry =
  fixes usable :: "'s \<Rightarrow> bool"
    and add :: "'k \<Rightarrow> 'c \<Rightarrow> 's \<Rightarrow> 's outcome"
    and remove :: "'k \<Rightarrow> 's \<Rightarrow> 's"
    and client :: "'s \<Rightarrow> 'k \<Rightarrow> 'c option"
    and radios :: "'s \<Rightarrow> 'k \<Rightarrow> 'r option"
    and no_radios :: 'r
  assumes add_returns: "usable s \<Longrightarrow> \<exists>s'. add k c s = Ret s'"
    and add_usable: "usable s \<Longrightarrow> add k c s = Ret s' \<Longrightarrow> usable s'"
    and client_add: "usable s \<Longrightarrow> add k c s = Ret s' \<Longrightarrow> client s' = (client s)(k \<mapsto> c)"
    and radios_add: "usable s \<Longrightarrow> add k c s = Ret s' \<Longrightarrow> radios s' = (radios s)(k \<mapsto> no_radios)"
    and client_remove: "client (remove k s) = (client s)(k := None)"
    and radios_remove: "radios (remove k s) = (radios s)(k := None)"
    and remove_usable: "usable s \<Longrightarrow> usable (remove k s)"
begin

definition covered :: "'s \<Rightarrow> bool" where
  "covered s \<longleftrightarrow> dom (client s) \<subseteq> dom (radios s)"

definition paired :: "'s \<Rightarrow> bool" where
  "paired s \<longleftrightarrow> dom (client s) = dom (radios s)"

lemma paired_covered: "paired s \<Longrightarrow> covered s"
  by (simp add: paired_def covered_def)

lemma paired_add: "usable s \<Longrightarrow> paired s \<Longrightarrow> add k c s = Ret s' \<Longrightarrow> paired s'"
  by (auto simp: paired_def client_add radios_add)

lemma covered_add: "usable s \<Longrightarrow> covered s \<Longrightarrow> add k c s = Ret s' \<Longrightarrow> covered s'"
  by (auto simp: covered_def client_add radios_add)

lemma paired_remove: "paired s \<Longrightarrow> paired (remove k s)"
  by (auto simp: paired_def client_remove radios_remove)

lemma covered_remove: "covered s \<Longrightarrow> covered (remove k s)"
  by (auto simp: covered_def client_remove radios_remove)

lemma remove_gone: "k \<notin> dom (client (remove k s))" "k \<notin> dom (radios (remove k s))"
  by (simp_all add: client_remove radios_remove)

lemma remove_after_add:
  assumes "usable s" and "client s k = None" and "radios s k = None" and "add k c s = Ret s'"
  shows "client (remove k s') = client s" and "radios (remove k s') = radios s"
  using assms by (auto simp: client_remove radios_remove client_add radios_add fun_eq_iff)

end

interpretation reg: client_registry "\<lambda>s. RadioClients s \<noteq> None" AddClient cleanupClientState
    "\<lambda>s. gget (Clients s)" "\<lambda>s. gget (RadioClients s)" "\<lparr>Radios = [], Muted = False\<rparr>"
  by unfold_locales
    (simp_all add: AddClient_Ret AddClient_RetD cleanupClientState_eq gomap_simps, simp add: gdel_def)

subsection \<open>Properties\<close>

text \<open>
  Adding a client and removing it: after \<open>AddClient\<close> exactly that client exists in addition,
  with no radios, so it listens to nothing; other clients keep their entries and radios; and
  the cleanup of a client that was not there before restores both tables.
\<close>

theorem client_life_cycle:
  "AddClient u c s = Ret s' \<Longrightarrow>
     (\<forall>v. DoesClientExist v s' \<longleftrightarrow> v = u \<or> DoesClientExist v s) \<and>
     gget (Clients s') u = Some c \<and>
     (\<forall>v f g. \<not> IsListeningOnFrequency u v f g s') \<and>
     (\<forall>v. v \<noteq> u \<longrightarrow> gget (Clients s') v = gget (Clients s) v \<and>
        gget (RadioClients s') v = gget (RadioClients s) v) \<and>
     \<not> DoesClientExist u (cleanupClientState u s') \<and>
     (gget (Clients s) u = None \<and> gget (RadioClients s) u = None \<longrightarrow>
        gget (Clients (cleanupClientState u s')) = gget (Clients s) \<and>
        gget (RadioClients (cleanupClientState u s')) = gget (RadioClients s))"
proof -
  assume add: "AddClient u c s = Ret s'"
  have us: "RadioClients s \<noteq> None" using add AddClient_panics_iff [of u c s] by auto
  note facts = AddClient_RetD [OF add]
  show ?thesis
    using facts reg.remove_after_add [OF us _ _ add] reg.remove_gone [of u s']
    by (auto simp: DoesClientExist_def IsListening_iff)
qed

theorem client_life_cycle_witness:
  "let s = \<lparr>Clients = gmake, RadioClients = gmake,
            BannedSt = \<lparr>BannedClients = [], ban_file = ''bans''\<rparr>\<rparr>;
       c = \<lparr>c_Name = ''Maverick'', c_UnitId = ''AB1'', c_Coalition = ''blue'', c_Role = 0,
            c_LastUpdate = 0\<rparr>
   in \<exists>s'. AddClient 7 c s = Ret s' \<and> DoesClientExist 7 s' \<and> \<not> DoesClientExist 8 s' \<and>
        gget (Clients (cleanupClientState 7 s')) = Map.empty"
proof -
  let ?s = "\<lparr>Clients = gmake, RadioClients = gmake,
            BannedSt = \<lparr>BannedClients = [], ban_file = ''bans''\<rparr>\<rparr>"
  let ?c = "\<lparr>c_Name = ''Maverick'', c_UnitId = ''AB1'', c_Coalition = ''blue'', c_Role = 0,
            c_LastUpdate = 0\<rparr>"
  obtain s' where add: "AddClient 7 ?c ?s = Ret s'"
    using AddClient_Ret [of ?s 7 ?c] by (auto simp: gmake_def)
  from client_life_cycle [OF add] add show ?thesis
    by (auto simp: DoesClientExist_def)
qed

text \<open>
  Who hears a transmission. A client listens to a sender on a frequency exactly when the
  sender is connected and the first of the client's radios tuned to that frequency is switched
  on. The coalitions of the two and the global flag have no influence: the comparison in the
  code reads the sender's own coalition on both sides.
\<close>

theorem listening_iff:
  "IsListeningOnFrequency u v f g s \<longleftrightarrow>
     DoesClientExist v s \<and>
     (\<exists>st r. gget (RadioClients s) u = Some st \<and>
        find (\<lambda>r. f32_eq (r_Frequency r) f) (Radios st) = Some r \<and> r_Enabled r)"
  by (auto simp: IsListening_iff DoesClientExist_def tuned_iff)

text \<open>
  A client that hears a sender on a frequency has this frequency among the frequencies
  \<open>GetAllEnabledFrequencies\<close> reports for it.
\<close>

theorem listening_enabled:
  "IsListeningOnFrequency u v f g s \<Longrightarrow> f32_contains (GetAllEnabledFrequencies u s) f"
  by (auto simp: IsListening_iff GetAllEnabledFrequencies_def tuned_enabled)

definition sample_radio :: "float32 \<Rightarrow> bool \<Rightarrow> radio" where
  "sample_radio f on = \<lparr>r_ID = 1, r_Name = ''VHF'', r_Frequency = f, r_Enabled = on, r_IsIntercom = False\<rparr>"

theorem listening_enabled_witness:
  "let s = \<lparr>Clients = Some [1 \<mapsto> \<lparr>c_Name = ''a'', c_UnitId = ''AA'', c_Coalition = ''blue'', c_Role = 0, c_LastUpdate = 0\<rparr>],
            RadioClients = Some [2 \<mapsto> \<lparr>Radios = [sample_radio (Fin32 5) True], Muted = False\<rparr>],
            BannedSt = \<lparr>BannedClients = [], ban_file = ''bans''\<rparr>\<rparr>
   in f32_contains (GetAllEnabledFrequencies 2 s) (Fin32 5)"
  unfolding Let_def
  by (rule listening_enabled [where v = 1 and g = False])
    (simp add: IsListeningOnFrequency_def sample_radio_def)

text \<open>
  Storing a client panics exactly when the radio table is the \<open>nil\<close> map of a zero
  \<open>ServerState\<close>; a \<open>nil\<close> client table is replaced, a \<open>nil\<close> radio table is not.
\<close>

theorem add_client_panics_iff:
  "AddClient u c s = Panics \<longleftrightarrow> RadioClients s = None"
  by (rule AddClient_panics_iff)

end
