(* ===== verification/BanFile.thy ===== *)
theory BanFile
  imports ServerState
begin

text \<open>
  The file of banned clients, \<^verbatim>\<open>state/server.go\<close> (\<open>GetBannedState\<close>, \<open>Save\<close> and their helpers),
  over a model of the operating system's files: paths with contents, some of them not
  readable or not writable. JSON encoding and decoding are parameters.
\<close>

subsection \<open>Files\<close>

datatype os_error = ErrNotExist | ErrOther

record file_system =
  files :: "string \<rightharpoonup> string"
  readable :: "string \<Rightarrow> bool"
  writable :: "string \<Rightarrow> bool"

text \<open>The empty path names no file: \<open>Stat\<close> and \<open>Create\<close> answer ENOENT.\<close>

definition os_Stat :: "string \<Rightarrow> file_system \<Rightarrow> os_error option" where
  "os_Stat p fs = (if p = [] \<or> files fs p = None then Some ErrNotExist else None)"

definition os_Create :: "string \<Rightarrow> file_system \<Rightarrow> os_error + file_system" where
  "os_Create p fs =
     (if p = [] then Inl ErrNotExist
      else if \<not> writable fs p then Inl ErrOther
      else Inr (fs\<lparr>files := (files fs)(p \<mapsto> [])\<rparr>))"

definition os_ReadFile :: "string \<Rightarrow> file_system \<Rightarrow> os_error + string" where
  "os_ReadFile p fs =
     (if p = [] then Inl ErrNotExist
      else case files fs p of None \<Rightarrow> Inl ErrNotExist
           | Some c \<Rightarrow> if readable fs p then Inr c else Inl ErrOther)"

text \<open>Open for writing with \<open>O_CREATE | O_TRUNC\<close>, write, close.\<close>

definition os_WriteFile :: "string \<Rightarrow> string \<Rightarrow> file_system \<Rightarrow> os_error + file_system" where
  "os_WriteFile p content fs =
     (if p = [] then Inl ErrNotExist
      else if \<not> writable fs p then Inl ErrOther
      else Inr (fs\<lparr>files := (files fs)(p \<mapsto> content)\<rparr>))"

record json_lib =
  json_encode :: "banned_client list \<Rightarrow> string"
  json_decode :: "string \<Rightarrow> banned_client list option"

text \<open>An empty document is no JSON value; decoding inverts encoding.\<close>

definition json_lib_ok :: "json_lib \<Rightarrow> bool" where
  "json_lib_ok J \<longleftrightarrow> json_decode J [] = None \<and> (\<forall>xs. json_decode J (json_encode J xs) = Some xs)"

datatype ban_error = BanOS os_error | BanDecode

subsection \<open>Operations\<close>

definition ensureBanFileExists :: "string \<Rightarrow> file_system \<Rightarrow> os_error option \<times> file_system" where
  "ensureBanFileExists bannedFile fs =
     (let err = os_Stat bannedFile fs in
      if err = Some ErrNotExist
      then (case os_Create bannedFile fs of
              Inl createErr \<Rightarrow> (Some createErr, fs)
            | Inr fs' \<Rightarrow> (err, fs'))
      else (err, fs))"

definition getBanFile :: "string \<Rightarrow> file_system \<Rightarrow> (os_error + string) \<times> file_system" where
  "getBanFile bannedFile fs =
     (case ensureBanFileExists bannedFile fs of
        (Some err, fs') \<Rightarrow> (Inl err, fs')
      | (None, fs') \<Rightarrow> (Inr bannedFile, fs'))"

definition GetBannedState ::
    "json_lib \<Rightarrow> string \<Rightarrow> file_system \<Rightarrow> (ban_error + banned_state) \<times> file_system" where
  "GetBannedState J bannedFile fs =
     (case getBanFile bannedFile fs of
        (Inl err, fs') \<Rightarrow> (Inl (BanOS err), fs')
      | (Inr file, fs') \<Rightarrow>
          (case os_ReadFile file fs' of
             Inl err \<Rightarrow> (Inl (BanOS err), fs')
           | Inr content \<Rightarrow>
               (case json_decode J content of
                  None \<Rightarrow> (Inl BanDecode, fs')
                | Some cs \<Rightarrow> (Inr \<lparr>BannedClients = cs, ban_file = file\<rparr>, fs'))))"

definition SaveBanned :: "json_lib \<Rightarrow> banned_state \<Rightarrow> file_system \<Rightarrow> os_error option \<times> file_system" where
  "SaveBanned J b fs =
     (case getBanFile (ban_file b) fs of
        (Inl err, fs') \<Rightarrow> (Some err, fs')
      | (Inr file, fs') \<Rightarrow>
          (case os_WriteFile file (json_encode J (BannedClients b)) fs' of
             Inl err \<Rightarrow> (Some err, fs')
           | Inr fs'' \<Rightarrow> (None, fs'')))"

lemma getBanFile_present:
  "p \<noteq> [] \<Longrightarrow> files fs p = Some c \<Longrightarrow> getBanFile p fs = (Inr p, fs)"
  by (simp add: getBanFile_def ensureBanFileExists_def os_Stat_def)

lemma getBanFile_missing:
  "files fs p = None \<or> p = [] \<Longrightarrow>
   (\<exists>e. fst (getBanFile p fs) = Inl e) \<and>
   snd (getBanFile p fs) = (if p \<noteq> [] \<and> writable fs p then fs\<lparr>files := (files fs)(p \<mapsto> [])\<rparr> else fs)"
  by (auto simp: getBanFile_def ensureBanFileExists_def os_Stat_def os_Create_def)

lemma SaveBanned_missing:
  assumes "files fs (ban_file b) = None \<or> ban_file b = []"
  shows "\<exists>e. fst (SaveBanned J b fs) = Some e"
  using getBanFile_missing [OF assms]
  by (auto simp: SaveBanned_def split: prod.splits sum.splits)

lemma GetBannedState_missing:
  assumes "files fs p = None \<or> p = []"
  shows "\<exists>e. fst (GetBannedState J p fs) = Inl e"
  using getBanFile_missing [OF assms]
  by (auto simp: GetBannedState_def split: prod.splits sum.splits)

lemma SaveBanned_GetBannedState:
  assumes J: "json_lib_ok J" and "SaveBanned J b fs = (None, fs')" and "readable fs (ban_file b)"
  shows "GetBannedState J (ban_file b) fs' = (Inr b, fs')"
proof -
  have "files fs (ban_file b) \<noteq> None \<and> ban_file b \<noteq> []"
    using SaveBanned_missing [of fs b J] assms(2) by fastforce
  then obtain c where p: "ban_file b \<noteq> []" "files fs (ban_file b) = Some c" by auto
  then have "fs' = fs\<lparr>files := (files fs)(ban_file b \<mapsto> json_encode J (BannedClients b))\<rparr>"
    using assms(2)
    by (auto simp: SaveBanned_def getBanFile_present os_WriteFile_def split: if_splits)
  with p J assms(3) show ?thesis
    by (simp add: GetBannedState_def getBanFile_present os_ReadFile_def json_lib_ok_def)
qed

subsection \<open>An instance of the JSON contract\<close>

text \<open>Length-prefixed fields, with lengths in unary: enough to satisfy \<open>json_lib_ok\<close>.\<close>

definition put_nat :: "nat \<Rightarrow> string" where
  "put_nat n = replicate n CHR ''#'' @ ''.''"

definition get_nat :: "string \<Rightarrow> (nat \<times> string) option" where
  "get_nat s = (let n = length (takeWhile (\<lambda>c. c = CHR ''#'') s) in
     case drop n s of [] \<Rightarrow> None | c # r \<Rightarrow> Some (n, r))"

definition get_str :: "string \<Rightarrow> (string \<times> string) option" where
  "get_str s = (case get_nat s of None \<Rightarrow> None | Some (n, r) \<Rightarrow> Some (take n r, drop n r))"

definition put_str :: "string \<Rightarrow> string" where
  "put_str s = put_nat (length s) @ s"

definition put_client :: "banned_client \<Rightarrow> string" where
  "put_client c = put_str (b_ID c) @ put_str (b_Name c) @ put_str (b_IPAddress c) @ put_str (b_Reason c)"

definition get_client :: "string \<Rightarrow> (banned_client \<times> string) option" where
  "get_client s = Option.bind (get_str s) (\<lambda>(i, s). Option.bind (get_str s) (\<lambda>(n, s).
     Option.bind (get_str s) (\<lambda>(a, s). Option.bind (get_str s) (\<lambda>(r, s).
       Some (\<lparr>b_ID = i, b_Name = n, b_IPAddress = a, b_Reason = r\<rparr>, s)))))"

fun get_clients :: "nat \<Rightarrow> string \<Rightarrow> banned_client list option" where
  "get_clients 0 s = Some []"
| "get_clients (Suc n) s =
     Option.bind (get_client s) (\<lambda>(c, s). map_option (Cons c) (get_clients n s))"

definition sample_json :: json_lib where
  "sample_json = \<lparr>
     json_encode = (\<lambda>xs. put_nat (length xs) @ concat (map put_client xs)),
     json_decode = (\<lambda>s. Option.bind (get_nat s) (\<lambda>(n, s). get_clients n s))\<rparr>"

lemma get_put_nat: "get_nat (put_nat n @ s) = Some (n, s)"
proof -
  have "takeWhile (\<lambda>c. c = CHR ''#'') (put_nat n @ s) = replicate n CHR ''#''"
    by (induction n) (simp_all add: put_nat_def)
  then show ?thesis by (simp add: get_nat_def) (simp add: put_nat_def)
qed

lemma get_put_client: "get_client (put_client c @ s) = Some (c, s)"
  by (simp add: get_client_def put_client_def put_str_def get_str_def get_put_nat)

lemma get_put_clients: "get_clients (length xs) (concat (map put_client xs)) = Some xs"
  by (induction xs) (simp_all add: get_put_client)

lemma sample_json_ok: "json_lib_ok sample_json"
  by (simp add: json_lib_ok_def sample_json_def get_put_nat get_put_clients)
    (simp add: get_nat_def)

subsection \<open>Properties\<close>

text \<open>
  What \<open>Save\<close> writes, \<open>GetBannedState\<close> reads back: after a successful save into a readable
  file, loading the same path returns the same list and leaves the file system alone.
\<close>

theorem ban_file_roundtrip:
  "json_lib_ok J \<Longrightarrow> SaveBanned J b fs = (None, fs') \<Longrightarrow> readable fs (ban_file b) \<Longrightarrow>
   GetBannedState J (ban_file b) fs' = (Inr b, fs')"
  by (rule SaveBanned_GetBannedState)

theorem ban_file_roundtrip_witness:
  "let fs = \<lparr>files = [''bans'' \<mapsto> ''[]''], readable = (\<lambda>_. True), writable = (\<lambda>_. True)\<rparr>;
       b = \<lparr>BannedClients = [\<lparr>b_ID = ''i'', b_Name = ''n'', b_IPAddress = ''0.0.0.0'', b_Reason = ''r''\<rparr>],
            ban_file = ''bans''\<rparr>
   in fst (SaveBanned sample_json b fs) = None \<and>
      fst (GetBannedState sample_json ''bans'' (snd (SaveBanned sample_json b fs))) = Inr b"
proof -
  let ?fs = "\<lparr>files = [''bans'' \<mapsto> ''[]''], readable = (\<lambda>_. True), writable = (\<lambda>_. True)\<rparr>"
  let ?b = "\<lparr>BannedClients = [\<lparr>b_ID = ''i'', b_Name = ''n'', b_IPAddress = ''0.0.0.0'', b_Reason = ''r''\<rparr>],
            ban_file = ''bans''\<rparr>"
  have ok: "fst (SaveBanned sample_json ?b ?fs) = None"
    by (simp add: SaveBanned_def getBanFile_def ensureBanFileExists_def os_Stat_def os_WriteFile_def)
  then have "SaveBanned sample_json ?b ?fs = (None, snd (SaveBanned sample_json ?b ?fs))"
    by (metis prod.collapse)
  from ban_file_roundtrip [OF sample_json_ok this] ok show ?thesis by simp
qed

text \<open>
  A missing ban file is never loaded: the first load creates it empty where it may, and
  still reports an error, and the second load fails because an empty file is no JSON. So a
  server can only start with a ban file somebody else wrote.
\<close>

theorem ban_file_missing:
  "json_lib_ok J \<Longrightarrow> files fs p = None \<Longrightarrow> GetBannedState J p fs = (r, fs') \<Longrightarrow>
   (\<exists>e. r = Inl e) \<and> (\<exists>e. fst (GetBannedState J p fs') = Inl e)"
proof -
  assume J: "json_lib_ok J" and miss: "files fs p = None" and r: "GetBannedState J p fs = (r, fs')"
  have first: "\<exists>e. r = Inl e" using GetBannedState_missing [of fs p J] miss r by auto
  have fs': "fs' = fs \<or> p \<noteq> [] \<and> fs' = fs\<lparr>files := (files fs)(p \<mapsto> [])\<rparr>"
    using getBanFile_missing [of fs p] miss r
    by (auto simp: GetBannedState_def split: prod.splits sum.splits if_splits)
  have "\<exists>e. fst (GetBannedState J p fs') = Inl e"
  proof (cases "fs' = fs")
    case True
    then show ?thesis using GetBannedState_missing [of fs p J] miss by simp
  next
    case False
    with fs' have "p \<noteq> []" "files fs' p = Some []" by auto
    then show ?thesis
      using J by (simp add: GetBannedState_def getBanFile_present os_ReadFile_def json_lib_ok_def)
  qed
  with first show ?thesis by blast
qed

theorem ban_file_missing_witness:
  "let fs = \<lparr>files = Map.empty, readable = (\<lambda>_. True), writable = (\<lambda>_. True)\<rparr>;
       (r, fs') = GetBannedState sample_json ''bans'' fs
   in files fs' ''bans'' = Some [] \<and> (\<exists>e. fst (GetBannedState sample_json ''bans'' fs') = Inl e)"
proof -
  let ?fs = "\<lparr>files = Map.empty, readable = (\<lambda>_. True), writable = (\<lambda>_. True)\<rparr> :: file_system"
  have eq: "GetBannedState sample_json ''bans'' ?fs =
      (Inl (BanOS ErrNotExist), ?fs\<lparr>files := [''bans'' \<mapsto> []]\<rparr>)"
    by (simp add: GetBannedState_def getBanFile_def ensureBanFileExists_def os_Stat_def os_Create_def)
  from ban_file_missing [OF sample_json_ok _ eq] show ?thesis by (simp add: eq)
qed

end
