(* ===== verification/Settings.thy ===== *)
theory Settings
  imports Prelude GoFloat BanFile Slices
begin

text \<open>
  The configuration, \<^verbatim>\<open>state/settings.go\<close>, and the coalition list the GUI edits,
  \<^verbatim>\<open>services/coalitions.go\<close>: the settings structs, loading with defaults, saving, the lookups
  by name and the two frequency tests. Lookups by name are instances of the locale
  \<open>named_table\<close>. The YAML codec is a parameter, files are those of \<open>BanFile\<close>.
\<close>

subsection \<open>Data\<close>

record server_setting =
  Host :: string
  Port :: int

record server_settings =
  HTTP :: server_setting
  Voice :: server_setting
  Control :: server_setting

record coalition =
  co_Name :: string
  co_Description :: string
  co_Color :: string
  co_Password :: string

record frequency_settings =
  TestFrequencies :: "float32 list"
  GlobalFrequencies :: "float32 list"

record general_settings =
  MaxRadiosPerUser :: int

record plugin_settings =
  p_Name :: string
  p_Enabled :: bool
  p_Address :: string
  p_Configuration :: "(string, string) gomap"

record token_settings =
  Expiration :: int
  PrivateKeyFile :: string
  PublicKeyFile :: string
  Issuer :: string
  Subject :: string

record security_settings =
  Plugins :: "plugin_settings list"
  EnablePluginAuth :: bool
  EnableGuestAuth :: bool
  Token :: token_settings

record voice_control_settings =
  vc_Port :: int
  vc_RemoteHost :: string
  vc_ListenHost :: string
  vc_CertificateFile :: string
  vc_PrivateKeyFile :: string

record settings_state =
  Servers :: server_settings
  Coalitions :: "coalition list"
  Frequencies :: frequency_settings
  General :: general_settings
  Security :: security_settings
  VoiceControl :: voice_control_settings
  settings_file :: string

subsection \<open>Loading and saving\<close>

definition default_settings :: "string \<Rightarrow> settings_state" where
  "default_settings file = \<lparr>
     Servers = \<lparr>HTTP = \<lparr>Host = ''0.0.0.0'', Port = 80\<rparr>,
                Voice = \<lparr>Host = ''0.0.0.0'', Port = 5002\<rparr>,
                Control = \<lparr>Host = ''0.0.0.0'', Port = 5002\<rparr>\<rparr>,
     Coalitions = [],
     Frequencies = \<lparr>TestFrequencies = [], GlobalFrequencies = []\<rparr>,
     General = \<lparr>MaxRadiosPerUser = 20\<rparr>,
     Security = \<lparr>Plugins = [], EnablePluginAuth = False, EnableGuestAuth = True,
       Token = \<lparr>Expiration = 28800, PrivateKeyFile = ''/path/to/ecdsa_key.pem'',
         PublicKeyFile = ''/path/to/ecdsa_pubkey.pem'', Issuer = ''https://vcs.vngd.net'',
         Subject = ''vcs.vngd.net''\<rparr>\<rparr>,
     VoiceControl = \<lparr>vc_Port = 14448, vc_RemoteHost = ''localhost'', vc_ListenHost = ''0.0.0.0'',
       vc_CertificateFile = ''/path/to/voicecontrol-cert.pem'',
       vc_PrivateKeyFile = ''/path/to/voicecontrol-private-key.pem''\<rparr>,
     settings_file = file\<rparr>"

text \<open>
  The YAML codec. The file name is tagged \<open>yaml:"-"\<close>: it is neither written nor read.
\<close>

record yaml_lib =
  yaml_marshal :: "settings_state \<Rightarrow> string option"
  yaml_unmarshal :: "string \<Rightarrow> settings_state option"

definition yaml_lib_ok_for :: "yaml_lib \<Rightarrow> settings_state \<Rightarrow> bool" where
  "yaml_lib_ok_for Y s \<longleftrightarrow>
     (\<exists>d. yaml_marshal Y s = Some d \<and>
       (\<exists>f. yaml_unmarshal Y d = Some (s\<lparr>settings_file := f\<rparr>)))"

datatype settings_error = SettingsOS os_error | SettingsYaml

definition SaveSettings ::
    "yaml_lib \<Rightarrow> settings_state \<Rightarrow> file_system \<Rightarrow> settings_error option \<times> file_system" where
  "SaveSettings Y s fs =
     (case yaml_marshal Y s of
        None \<Rightarrow> (Some SettingsYaml, fs)
      | Some yamlData \<Rightarrow>
          (case os_WriteFile (settings_file s) yamlData fs of
             Inl err \<Rightarrow> (Some (SettingsOS err), fs)
           | Inr fs' \<Rightarrow> (None, fs')))"

text \<open>The result of loading: settings (or \<open>nil\<close>) and an error (or \<open>nil\<close>).\<close>

definition GetSettingsState ::
    "yaml_lib \<Rightarrow> string \<Rightarrow> file_system \<Rightarrow>
     (settings_state option \<times> settings_error option) \<times> file_system" where
  "GetSettingsState Y file fs =
     (case os_ReadFile file fs of
        Inl ErrNotExist \<Rightarrow>
          (let settings = default_settings file in
           case SaveSettings Y settings fs of
             (Some err, fs') \<Rightarrow> ((Some settings, Some err), fs')
           | (None, fs') \<Rightarrow> ((Some settings, None), fs'))
      | Inl ErrOther \<Rightarrow> ((None, Some (SettingsOS ErrOther)), fs)
      | Inr yamlFile \<Rightarrow>
          (case yaml_unmarshal Y yamlFile of
             None \<Rightarrow> ((None, Some SettingsYaml), fs)
           | Some settings \<Rightarrow> ((Some (settings\<lparr>settings_file := file\<rparr>), None), fs)))"

subsection \<open>Lookups by name\<close>

definition GetAllPluginNames :: "settings_state \<Rightarrow> string list" where
  "GetAllPluginNames s = map p_Name (filter p_Enabled (Plugins (Security s)))"

definition GetPluginConfiguration ::
    "string \<Rightarrow> settings_state \<Rightarrow> (string, string) gomap \<times> bool" where
  "GetPluginConfiguration pluginName s =
     (case find (\<lambda>p. p_Name p = pluginName) (Plugins (Security s)) of
        Some plugin \<Rightarrow> (p_Configuration plugin, True)
      | None \<Rightarrow> (None, False))"

definition GetPluginAddress :: "string \<Rightarrow> settings_state \<Rightarrow> string \<times> bool" where
  "GetPluginAddress pluginName s =
     (case find (\<lambda>p. p_Name p = pluginName) (Plugins (Security s)) of
        Some plugin \<Rightarrow> (p_Address plugin, True)
      | None \<Rightarrow> ([], False))"

definition IsPluginEnabled :: "string \<Rightarrow> settings_state \<Rightarrow> bool" where
  "IsPluginEnabled pluginName s =
     (case find (\<lambda>p. p_Name p = pluginName) (Plugins (Security s)) of
        Some plugin \<Rightarrow> p_Enabled plugin
      | None \<Rightarrow> False)"

text \<open>The loops that write stop at the first entry of the name.\<close>

fun update_first :: "('a \<Rightarrow> bool) \<Rightarrow> ('a \<Rightarrow> 'a) \<Rightarrow> 'a list \<Rightarrow> 'a list option" where
  "update_first P h [] = None"
| "update_first P h (x # xs) =
     (if P x then Some (h x # xs) else map_option (Cons x) (update_first P h xs))"

definition set_plugins :: "plugin_settings list \<Rightarrow> settings_state \<Rightarrow> settings_state" where
  "set_plugins ps s = s\<lparr>Security := (Security s)\<lparr>Plugins := ps\<rparr>\<rparr>"

text \<open>\<open>None\<close> is the error that the plugin does not exist.\<close>

definition SetPluginEnabled :: "string \<Rightarrow> bool \<Rightarrow> settings_state \<Rightarrow> settings_state option" where
  "SetPluginEnabled pluginName enabled s =
     map_option (\<lambda>ps. set_plugins ps s)
       (update_first (\<lambda>p. p_Name p = pluginName) (\<lambda>p. p\<lparr>p_Enabled := enabled\<rparr>)
          (Plugins (Security s)))"

definition DoesCoalitionExist :: "string \<Rightarrow> settings_state \<Rightarrow> bool" where
  "DoesCoalitionExist coalitionName s = list_ex (\<lambda>c. co_Name c = coalitionName) (Coalitions s)"

definition IsFrequencyGlobal :: "float32 \<Rightarrow> settings_state \<Rightarrow> bool" where
  "IsFrequencyGlobal freq s = f32_contains (GlobalFrequencies (Frequencies s)) freq"

definition IsFrequencyTest :: "float32 \<Rightarrow> settings_state \<Rightarrow> bool" where
  "IsFrequencyTest freq s = f32_contains (TestFrequencies (Frequencies s)) freq"

subsection \<open>A table searched by name\<close>

text \<open>
  Plugins and coalitions are slices searched front to back by name. An update rewrites the
  first entry of a name and keeps the names; then a lookup finds the update, and other names
  are not disturbed.
\<close>

lemma update_first_None: "update_first P h xs = None \<longleftrightarrow> find P xs = None"
  by (induction xs) auto

lemma find_update_first:
  assumes "update_first P h xs = Some ys" and "\<And>x. P x \<Longrightarrow> P (h x)"
  shows "find P ys = map_option h (find P xs)"
  using assms by (induction xs arbitrary: ys) (auto split: if_splits)

lemma find_update_first_other:
  assumes "update_first P h xs = Some ys" and "\<And>x. P x \<Longrightarrow> \<not> Q x" and "\<And>x. P x \<Longrightarrow> \<not> Q (h x)"
  shows "find Q ys = find Q xs"
  using assms by (induction xs arbitrary: ys) (auto split: if_splits)

lemma map_update_first:
  assumes "update_first P h xs = Some ys" and "\<And>x. P x \<Longrightarrow> n (h x) = n x"
  shows "map n ys = map n xs"
  using assms by (induction xs arbitrary: ys) (auto split: if_splits)

locale named_table =
  fixes rows :: "'s \<Rightarrow> 'r list"
    and row_name :: "'r \<Rightarrow> string"
    and modify :: "string \<Rightarrow> 'a \<Rightarrow> 's \<Rightarrow> 's option"
    and change :: "string \<Rightarrow> 'a \<Rightarrow> 'r \<Rightarrow> 'r"
  assumes rows_modify: "map_option rows (modify nm a s) =
      update_first (\<lambda>r. row_name r = nm) (change nm a) (rows s)"
    and change_name: "row_name r = nm \<Longrightarrow> row_name (change nm a r) = nm"
begin

definition row :: "string \<Rightarrow> 's \<Rightarrow> 'r option" where
  "row nm s = find (\<lambda>r. row_name r = nm) (rows s)"

lemma modify_fails: "modify nm a s = None \<longleftrightarrow> row nm s = None"
  using rows_modify [of nm a s] update_first_None [of "\<lambda>r. row_name r = nm" "change nm a" "rows s"]
  by (cases "modify nm a s") (auto simp: row_def)

lemma modify_Some:
  "modify nm a s = Some s' \<Longrightarrow>
   update_first (\<lambda>r. row_name r = nm) (change nm a) (rows s) = Some (rows s')"
  using rows_modify [of nm a s] by simp

lemma row_modified: "modify nm a s = Some s' \<Longrightarrow> row nm s' = map_option (change nm a) (row nm s)"
  unfolding row_def by (rule find_update_first [OF modify_Some]) (simp_all add: change_name)

lemma row_other: "modify nm a s = Some s' \<Longrightarrow> nm' \<noteq> nm \<Longrightarrow> row nm' s' = row nm' s"
  unfolding row_def by (rule find_update_first_other [OF modify_Some]) (auto simp: change_name)

lemma names_kept: "modify nm a s = Some s' \<Longrightarrow> map row_name (rows s') = map row_name (rows s)"
  by (rule map_update_first [OF modify_Some]) (assumption, metis change_name)

end

interpretation plugin: named_table "\<lambda>s. Plugins (Security s)" p_Name SetPluginEnabled
    "\<lambda>_ b p. p\<lparr>p_Enabled := b\<rparr>"
  by unfold_locales
    (auto simp: SetPluginEnabled_def set_plugins_def option.map_comp comp_def option.map_ident)

lemma plugin_lookups:
  "GetPluginConfiguration nm s =
     (case plugin.row nm s of Some p \<Rightarrow> (p_Configuration p, True) | None \<Rightarrow> (None, False))"
  "GetPluginAddress nm s =
     (case plugin.row nm s of Some p \<Rightarrow> (p_Address p, True) | None \<Rightarrow> ([], False))"
  "IsPluginEnabled nm s =
     (case plugin.row nm s of Some p \<Rightarrow> p_Enabled p | None \<Rightarrow> False)"
  by (simp_all add: GetPluginConfiguration_def GetPluginAddress_def IsPluginEnabled_def plugin.row_def)

subsection \<open>Coalitions\<close>

text \<open>The list operations behind \<open>CoalitionService\<close>, without saving and events.\<close>

definition GetCoalitionByName :: "string \<Rightarrow> settings_state \<Rightarrow> coalition option" where
  "GetCoalitionByName nm s = find (\<lambda>c. co_Name c = nm) (Coalitions s)"

definition add_coalition :: "coalition \<Rightarrow> settings_state \<Rightarrow> settings_state" where
  "add_coalition c s = s\<lparr>Coalitions := Coalitions s @ [c]\<rparr>"

definition remove_coalition :: "coalition \<Rightarrow> settings_state \<Rightarrow> settings_state" where
  "remove_coalition c s = s\<lparr>Coalitions := RemoveElem (Coalitions s) c\<rparr>"

text \<open>The loop that replaces the first entry of the name; without one nothing changes.\<close>

definition update_coalition :: "coalition \<Rightarrow> settings_state \<Rightarrow> settings_state" where
  "update_coalition c s =
     (case update_first (\<lambda>coal. co_Name coal = co_Name c) (\<lambda>_. c) (Coalitions s) of
        Some cs \<Rightarrow> s\<lparr>Coalitions := cs\<rparr>
      | None \<Rightarrow> s)"

interpretation coal: named_table Coalitions co_Name
    "\<lambda>nm c s. if DoesCoalitionExist nm s then Some (update_coalition (c\<lparr>co_Name := nm\<rparr>) s) else None"
    "\<lambda>nm c _. c\<lparr>co_Name := nm\<rparr>"
proof (unfold_locales, goal_cases)
  case (1 nm c s)
  have "DoesCoalitionExist nm s \<longleftrightarrow> find (\<lambda>c. co_Name c = nm) (Coalitions s) \<noteq> None"
    by (auto simp: DoesCoalitionExist_def find_None_iff list_ex_iff)
  then show ?case
    using update_first_None [of "\<lambda>coal. co_Name coal = nm" "\<lambda>_. c\<lparr>co_Name := nm\<rparr>" "Coalitions s"]
    by (auto simp: update_coalition_def split: option.splits)
qed simp

lemma GetCoalitionByName_row: "GetCoalitionByName nm s = coal.row nm s"
  by (simp add: GetCoalitionByName_def coal.row_def)

lemma DoesCoalitionExist_row: "DoesCoalitionExist nm s \<longleftrightarrow> coal.row nm s \<noteq> None"
  by (auto simp: DoesCoalitionExist_def coal.row_def find_None_iff list_ex_iff)

subsection \<open>Properties\<close>

text \<open>
  Switching a plugin on or off is read back by \<open>IsPluginEnabled\<close>, leaves its address and
  configuration and every other plugin as they were, and fails exactly for a name that is not
  configured (which then reads as disabled).
\<close>

theorem set_plugin_enabled:
  "(SetPluginEnabled nm b s = None \<longleftrightarrow> \<not> snd (GetPluginAddress nm s)) \<and>
   (SetPluginEnabled nm b s = None \<longrightarrow> \<not> IsPluginEnabled nm s) \<and>
   (\<forall>s'. SetPluginEnabled nm b s = Some s' \<longrightarrow>
      IsPluginEnabled nm s' = b \<and> GetPluginAddress nm s' = GetPluginAddress nm s \<and>
      GetPluginConfiguration nm s' = GetPluginConfiguration nm s \<and>
      (\<forall>nm'. nm' \<noteq> nm \<longrightarrow> IsPluginEnabled nm' s' = IsPluginEnabled nm' s \<and>
         GetPluginAddress nm' s' = GetPluginAddress nm' s))"
proof (cases "SetPluginEnabled nm b s")
  case None
  then show ?thesis using plugin.modify_fails [of nm b s] by (simp add: plugin_lookups)
next
  case (Some s')
  then obtain p where p: "plugin.row nm s = Some p" using plugin.modify_fails [of nm b s] by auto
  with Some plugin.row_modified [OF Some] show ?thesis
    by (simp add: plugin_lookups plugin.row_other)
qed

definition sample_plugin :: "string \<Rightarrow> bool \<Rightarrow> plugin_settings" where
  "sample_plugin nm on = \<lparr>p_Name = nm, p_Enabled = on, p_Address = ''localhost:5000'',
     p_Configuration = gmake\<rparr>"

theorem set_plugin_enabled_witness:
  "let s = set_plugins [sample_plugin ''a'' False, sample_plugin ''wix'' False]
             (default_settings ''config.yaml'')
   in \<exists>s'. SetPluginEnabled ''wix'' True s = Some s' \<and> IsPluginEnabled ''wix'' s' \<and>
        \<not> IsPluginEnabled ''a'' s'"
proof -
  let ?s = "set_plugins [sample_plugin ''a'' False, sample_plugin ''wix'' False]
             (default_settings ''config.yaml'')"
  obtain s' where s': "SetPluginEnabled ''wix'' True ?s = Some s'"
    by (auto simp: SetPluginEnabled_def set_plugins_def sample_plugin_def default_settings_def)
  have "\<not> IsPluginEnabled ''a'' ?s"
    by (simp add: IsPluginEnabled_def set_plugins_def sample_plugin_def default_settings_def)
  with set_plugin_enabled [of "''wix''" True ?s] s' show ?thesis by auto
qed

text \<open>
  Settings survive saving and loading: for settings the YAML codec can represent, a load of
  the file they were saved to returns the same settings, their file name included, without an
  error.
\<close>

theorem settings_roundtrip:
  "yaml_lib_ok_for Y s \<Longrightarrow> SaveSettings Y s fs = (None, fs') \<Longrightarrow> readable fs (settings_file s) \<Longrightarrow>
   GetSettingsState Y (settings_file s) fs' = ((Some s, None), fs')"
  by (auto simp: yaml_lib_ok_for_def SaveSettings_def GetSettingsState_def os_WriteFile_def
      os_ReadFile_def split: if_splits)

theorem settings_roundtrip_witness:
  "let s = default_settings ''config.yaml'';
       Y = \<lparr>yaml_marshal = (\<lambda>_. Some ''servers:''), yaml_unmarshal = (\<lambda>_. Some (default_settings []))\<rparr>;
       fs = \<lparr>files = Map.empty, readable = (\<lambda>_. True), writable = (\<lambda>_. True)\<rparr>
   in fst (GetSettingsState Y ''config.yaml'' (snd (SaveSettings Y s fs))) = (Some s, None)"
proof -
  let ?s = "default_settings ''config.yaml''"
  let ?Y = "\<lparr>yaml_marshal = (\<lambda>_. Some ''servers:''), yaml_unmarshal = (\<lambda>_. Some (default_settings []))\<rparr>"
  let ?fs = "\<lparr>files = Map.empty, readable = (\<lambda>_. True), writable = (\<lambda>_. True)\<rparr>"
  have ok: "yaml_lib_ok_for ?Y ?s"
    by (simp add: yaml_lib_ok_for_def default_settings_def)
  have save: "SaveSettings ?Y ?s ?fs = (None, snd (SaveSettings ?Y ?s ?fs))"
    by (simp add: SaveSettings_def os_WriteFile_def default_settings_def)
  have nm: "settings_file ?s = ''config.yaml''" by (simp add: default_settings_def)
  from settings_roundtrip [OF ok save] nm show ?thesis by simp
qed

text \<open>
  The first start writes the defaults: without a settings file the load returns the default
  settings (guest login on, plugin login off, no coalitions), and where the file can be written
  the next load finds it.
\<close>

theorem settings_defaults:
  "files fs p = None \<Longrightarrow> p \<noteq> [] \<Longrightarrow> GetSettingsState Y p fs = ((r, e), fs') \<Longrightarrow>
   r = Some (default_settings p) \<and> (e = None \<longleftrightarrow> files fs' p \<noteq> None) \<and>
   EnableGuestAuth (Security (default_settings p)) \<and>
   \<not> EnablePluginAuth (Security (default_settings p)) \<and> Coalitions (default_settings p) = []"
  by (auto simp: GetSettingsState_def os_ReadFile_def SaveSettings_def os_WriteFile_def Let_def
      default_settings_def split: option.splits sum.splits prod.splits if_splits)

theorem settings_defaults_witness:
  "let Y = \<lparr>yaml_marshal = (\<lambda>_. Some ''servers:''), yaml_unmarshal = (\<lambda>_. None)\<rparr>;
       fs = \<lparr>files = Map.empty, readable = (\<lambda>_. True), writable = (\<lambda>_. True)\<rparr>
   in fst (GetSettingsState Y ''c.yaml'' fs) = (Some (default_settings ''c.yaml''), None)"
proof -
  let ?Y = "\<lparr>yaml_marshal = (\<lambda>_. Some ''servers:''), yaml_unmarshal = (\<lambda>_. None)\<rparr>"
  let ?fs = "\<lparr>files = Map.empty, readable = (\<lambda>_. True), writable = (\<lambda>_. True)\<rparr>"
  obtain r e fs' where eq: "GetSettingsState ?Y ''c.yaml'' ?fs = ((r, e), fs')" by (metis prod.collapse)
  have "files fs' ''c.yaml'' \<noteq> None"
    using eq by (auto simp: GetSettingsState_def os_ReadFile_def SaveSettings_def os_WriteFile_def
        Let_def default_settings_def)
  with settings_defaults [OF _ _ eq] eq show ?thesis by simp
qed

text \<open>
  Removing a coalition removes one occurrence of exactly this value and keeps the others,
  except on a list of one coalition, which is emptied whatever the argument is.
\<close>

theorem remove_coalition_multiset:
  "(length (Coalitions s) \<noteq> 1 \<longrightarrow>
     mset (Coalitions (remove_coalition c s)) = mset (Coalitions s) - {# c #}) \<and>
   (length (Coalitions s) = 1 \<longrightarrow> Coalitions (remove_coalition c s) = [])"
  by (auto simp: remove_coalition_def mset_RemoveElem) (simp add: RemoveElem_def)

definition sample_coalition :: "string \<Rightarrow> string \<Rightarrow> coalition" where
  "sample_coalition nm pw = \<lparr>co_Name = nm, co_Description = ''d'', co_Color = ''#fff'', co_Password = pw\<rparr>"

theorem remove_coalition_multiset_witness:
  "let s = add_coalition (sample_coalition ''blue'' ''x'') (default_settings ''c'') in
   Coalitions (remove_coalition (sample_coalition ''red'' ''y'') s) = [] \<and>
   mset (Coalitions (remove_coalition (sample_coalition ''red'' ''y'')
     (add_coalition (sample_coalition ''red'' ''y'') s))) = {# sample_coalition ''blue'' ''x'' #}"
proof -
  let ?s = "add_coalition (sample_coalition ''blue'' ''x'') (default_settings ''c'')"
  let ?r = "sample_coalition ''red'' ''y''"
  have "Coalitions (remove_coalition ?r ?s) = []"
    using remove_coalition_multiset [of ?s ?r] by (simp add: add_coalition_def default_settings_def)
  moreover have "mset (Coalitions (remove_coalition ?r (add_coalition ?r ?s))) =
      {# sample_coalition ''blue'' ''x'' #}"
    using remove_coalition_multiset [of "add_coalition ?r ?s" ?r]
    by (simp add: add_coalition_def default_settings_def)
  ultimately show ?thesis by (simp add: Let_def)
qed

text \<open>
  Updating a coalition replaces the first entry of its name, so the new value is what a
  lookup by this name returns; the other names, the order of the names and the settings
  besides the coalitions stay; for an unknown name nothing changes.
\<close>

theorem update_coalition_lookup:
  "(DoesCoalitionExist (co_Name c) s \<longrightarrow> GetCoalitionByName (co_Name c) (update_coalition c s) = Some c) \<and>
   (\<not> DoesCoalitionExist (co_Name c) s \<longrightarrow> update_coalition c s = s) \<and>
   (\<forall>nm. nm \<noteq> co_Name c \<longrightarrow> GetCoalitionByName nm (update_coalition c s) = GetCoalitionByName nm s) \<and>
   map co_Name (Coalitions (update_coalition c s)) = map co_Name (Coalitions s) \<and>
   Security (update_coalition c s) = Security s"
proof (cases "DoesCoalitionExist (co_Name c) s")
  case True
  then have m: "(if DoesCoalitionExist (co_Name c) s
      then Some (update_coalition (c\<lparr>co_Name := co_Name c\<rparr>) s) else None) = Some (update_coalition c s)"
    by simp
  obtain r where "coal.row (co_Name c) s = Some r" using True by (auto simp: DoesCoalitionExist_row)
  with True coal.row_modified [OF m] coal.row_other [OF m] coal.names_kept [OF m] show ?thesis
    by (simp add: GetCoalitionByName_row) (simp add: update_coalition_def split: option.splits)
next
  case False
  then have "update_coalition c s = s"
    using update_first_None [of "\<lambda>coal. co_Name coal = co_Name c" "\<lambda>_. c" "Coalitions s"]
    by (simp add: update_coalition_def DoesCoalitionExist_row coal.row_def)
  with False show ?thesis by simp
qed

theorem update_coalition_lookup_witness:
  "let s = add_coalition (sample_coalition ''blue'' ''x'') (default_settings ''c'') in
   GetCoalitionByName ''blue'' (update_coalition (sample_coalition ''blue'' ''z'') s) =
     Some (sample_coalition ''blue'' ''z'')"
  using update_coalition_lookup [of "sample_coalition ''blue'' ''z''"
      "add_coalition (sample_coalition ''blue'' ''x'') (default_settings ''c'')"]
  by (simp add: Let_def DoesCoalitionExist_def add_coalition_def sample_coalition_def)

end
