(* ===== verification/Expiry.thy ===== *)
theory Expiry
  imports Prelude
begin

text \<open>
  Tables whose entries expire. The voice server's client table and the authentication server's
  table of half-done logins are both swept by a loop that ranges over the map and deletes the
  entries past their time; the locale \<open>expiring_table\<close> holds what follows for either.
\<close>

text \<open>The loop: visit the keys in some order, delete an entry that is not alive.\<close>

fun sweep_entries :: "('v \<Rightarrow> bool) \<Rightarrow> 'k list \<Rightarrow> ('k \<rightharpoonup> 'v) \<Rightarrow> ('k \<rightharpoonup> 'v)" where
  "sweep_entries alive [] m = m"
| "sweep_entries alive (k # ks) m =
     sweep_entries alive ks
       (case m k of None \<Rightarrow> m | Some v \<Rightarrow> if alive v then m else m(k := None))"

definition keep_alive :: "('v \<Rightarrow> bool) \<Rightarrow> ('k \<rightharpoonup> 'v) \<Rightarrow> ('k \<rightharpoonup> 'v)" where
  "keep_alive alive m = (\<lambda>k. case m k of None \<Rightarrow> None | Some v \<Rightarrow> if alive v then Some v else None)"

lemma keep_alive_Some [simp]: "keep_alive alive m k = Some v \<longleftrightarrow> m k = Some v \<and> alive v"
  by (auto simp: keep_alive_def split: option.splits)

lemma keep_alive_None: "keep_alive alive m k = None \<longleftrightarrow> (\<forall>v. m k = Some v \<longrightarrow> \<not> alive v)"
  by (auto simp: keep_alive_def split: option.splits)

lemma sweep_entries_apply:
  "sweep_entries alive ks m k = (if k \<in> set ks then keep_alive alive m k else m k)"
  by (induction ks arbitrary: m) (auto simp: keep_alive_def split: option.splits)

lemma sweep_entries_eq: "iter_order ks m \<Longrightarrow> sweep_entries alive ks m = keep_alive alive m"
  by (rule ext) (auto simp: sweep_entries_apply iter_order_def keep_alive_def domIff split: option.splits)

lemma keep_alive_keep_alive:
  "(\<And>v. q v \<Longrightarrow> p v) \<Longrightarrow> keep_alive q (keep_alive p m) = keep_alive q m"
  by (rule ext) (auto simp: keep_alive_def split: option.splits)

locale expiring_table =
  fixes entries :: "'s \<Rightarrow> 'k \<rightharpoonup> 'v"
    and sweep :: "'k list \<Rightarrow> time \<Rightarrow> 's \<Rightarrow> 's"
    and live :: "time \<Rightarrow> 'v \<Rightarrow> bool"
  assumes entries_sweep:
      "iter_order ks (entries s) \<Longrightarrow> entries (sweep ks t s) = keep_alive (live t) (entries s)"
    and live_antimono: "t \<le> t' \<Longrightarrow> live t' v \<Longrightarrow> live t v"
begin

lemma sweep_iff:
  "iter_order ks (entries s) \<Longrightarrow>
   entries (sweep ks t s) k = Some v \<longleftrightarrow> entries s k = Some v \<and> live t v"
  by (simp add: entries_sweep)

lemma sweep_sub: "iter_order ks (entries s) \<Longrightarrow> entries (sweep ks t s) \<subseteq>\<^sub>m entries s"
  by (auto simp: map_le_def sweep_iff dom_def)

text \<open>Two sweeps are one sweep at the later time: sweeping more often changes nothing.\<close>

lemma sweep_sweep:
  assumes "iter_order ks (entries s)" and "iter_order ks' (entries (sweep ks t s))" and "t \<le> t'"
  shows "entries (sweep ks' t' (sweep ks t s)) = entries (sweep ks t' s)"
  using assms by (simp add: entries_sweep keep_alive_keep_alive live_antimono)

lemma sweep_all_live:
  "iter_order ks (entries s) \<Longrightarrow> \<forall>k v. entries s k = Some v \<longrightarrow> live t v \<Longrightarrow>
   entries (sweep ks t s) = entries s"
  by (auto simp: entries_sweep keep_alive_def fun_eq_iff split: option.splits)

end

end
