(* ===== verification/VoiceServer.thy ===== *)
theory VoiceServer
  imports Protocol ServerState Settings Expiry
begin

text \<open>
  The UDP voice server, \<^verbatim>\<open>voice/server.go\<close>: its table of voice clients, the handlers of the
  four packet types, the routing of a transmission, the clean-up of silent clients and the
  shutdown. The mutex serialises the table accesses; one handled packet is one step. What the
  handlers send is returned as a list of outputs in the order the goroutines are started.
\<close>

subsection \<open>State\<close>

datatype udp_addr = UDPAddr (ip: string) (port: nat)

record voice_client =
  v_Addr :: udp_addr
  v_LastSeen :: time

text \<open>
  \<open>v_conn\<close>: a socket is bound; \<open>v_stopClosed\<close>: the stop channel of the clean-up routine has
  been closed.
\<close>

record voice_server =
  v_clients :: "uuid \<rightharpoonup> voice_client"
  v_running :: bool
  v_conn :: bool
  v_stopClosed :: bool

datatype voice_out = SendUDP "byte list" udp_addr | PlayLocal "byte list"

definition NewVoiceServer :: voice_server where
  "NewVoiceServer = \<lparr>v_clients = Map.empty, v_running = False, v_conn = False, v_stopClosed = False\<rparr>"

text \<open>The part of \<open>Listen\<close> before its loop: the socket is bound and the server runs.\<close>

definition voice_bind :: "voice_server \<Rightarrow> voice_server" where
  "voice_bind v = v\<lparr>v_conn := True, v_running := True\<rparr>"

subsection \<open>Handlers\<close>

definition handleHelloPacket ::
    "uuid_lib \<Rightarrow> time \<Rightarrow> server_state \<Rightarrow> vcs_packet \<Rightarrow> udp_addr \<Rightarrow> voice_server \<Rightarrow>
     voice_server \<times> voice_out list" where
  "handleHelloPacket L now st packet addr v =
     (if \<not> DoesClientExist (SenderID packet) st then (v, [])
      else (v\<lparr>v_clients := (v_clients v)(SenderID packet \<mapsto> \<lparr>v_Addr = addr, v_LastSeen = now\<rparr>)\<rparr>,
            [SendUDP (SerializePacket L (NewVCSHelloAckPacket (SenderID packet))) addr]))"

definition handleKeepalivePacket ::
    "uuid_lib \<Rightarrow> time \<Rightarrow> vcs_packet \<Rightarrow> udp_addr \<Rightarrow> voice_server \<Rightarrow>
     voice_server \<times> voice_out list" where
  "handleKeepalivePacket L now packet addr v =
     (case v_clients v (SenderID packet) of
        None \<Rightarrow> (v, [])
      | Some client \<Rightarrow>
          (v\<lparr>v_clients := (v_clients v)(SenderID packet \<mapsto> client\<lparr>v_LastSeen := now\<rparr>)\<rparr>,
           [SendUDP (SerializePacket L (NewVCSKeepalivePacket (SenderID packet))) addr]))"

text \<open>
  \<open>GetListeningClients\<close>: on a test frequency the payload is played locally and nobody is
  returned; otherwise the loop over all clients keeps those that listen and have said hello.
\<close>

fun listening_loop ::
    "(uuid \<times> client_state) list \<Rightarrow> uuid \<Rightarrow> float32 \<Rightarrow> settings_state \<Rightarrow> server_state \<Rightarrow>
     voice_server \<Rightarrow> voice_client list" where
  "listening_loop [] senderId freq ss st v = []"
| "listening_loop ((cid, c) # rest) senderId freq ss st v =
     (if cid = senderId then listening_loop rest senderId freq ss st v
      else if IsListeningOnFrequency cid senderId freq (IsFrequencyGlobal freq ss) st
      then (case v_clients v cid of
              Some clientData \<Rightarrow> clientData # listening_loop rest senderId freq ss st v
            | None \<Rightarrow> listening_loop rest senderId freq ss st v)
      else listening_loop rest senderId freq ss st v)"

definition GetListeningClients ::
    "uuid list \<Rightarrow> settings_state \<Rightarrow> server_state \<Rightarrow> vcs_packet \<Rightarrow> uuid \<Rightarrow> voice_server \<Rightarrow>
     voice_client list \<times> voice_out list" where
  "GetListeningClients order ss st packet senderId v =
     (if IsFrequencyTest (FrequencyAsFloat32 packet) ss
      then (if v_clients v (SenderID packet) \<noteq> None then ([], [PlayLocal (Payload packet)])
            else ([], []))
      else (listening_loop (GetAllClients order st) senderId (FrequencyAsFloat32 packet) ss st v, []))"

definition broadcastVoice ::
    "uuid_lib \<Rightarrow> uuid list \<Rightarrow> settings_state \<Rightarrow> server_state \<Rightarrow> vcs_packet \<Rightarrow> uuid \<Rightarrow>
     voice_server \<Rightarrow> voice_out list" where
  "broadcastVoice L order ss st packet senderID v =
     (let (listening, played) = GetListeningClients order ss st packet senderID v in
      played @ map (\<lambda>client. SendUDP (SerializePacket L packet) (v_Addr client)) listening)"

definition handleVoicePacket ::
    "uuid_lib \<Rightarrow> uuid list \<Rightarrow> time \<Rightarrow> settings_state \<Rightarrow> server_state \<Rightarrow> vcs_packet \<Rightarrow>
     voice_server \<Rightarrow> voice_server \<times> voice_out list" where
  "handleVoicePacket L order now ss st packet v =
     (case v_clients v (SenderID packet) of
        None \<Rightarrow> (v, [])
      | Some client \<Rightarrow>
          let v' = v\<lparr>v_clients := (v_clients v)(SenderID packet \<mapsto> client\<lparr>v_LastSeen := now\<rparr>)\<rparr>
          in (v', broadcastVoice L order ss st packet (SenderID packet) v'))"

definition DisconnectClient :: "uuid \<Rightarrow> voice_server \<Rightarrow> voice_server" where
  "DisconnectClient clientID v =
     (if v_clients v clientID \<noteq> None then v\<lparr>v_clients := (v_clients v)(clientID := None)\<rparr> else v)"

definition handleGoodbyePacket :: "vcs_packet \<Rightarrow> voice_server \<Rightarrow> voice_server \<times> voice_out list" where
  "handleGoodbyePacket packet v = (DisconnectClient (SenderID packet) v, [])"

definition handlePacket ::
    "uuid_lib \<Rightarrow> uuid list \<Rightarrow> time \<Rightarrow> settings_state \<Rightarrow> server_state \<Rightarrow> byte list \<Rightarrow> udp_addr \<Rightarrow>
     voice_server \<Rightarrow> voice_server \<times> voice_out list" where
  "handlePacket L order now ss st data addr v =
     (if \<not> v_running v then (v, [])
      else
        (case ParsePacket L data of
           Inl _ \<Rightarrow> (v, [])
         | Inr packet \<Rightarrow>
             if PType packet = PacketTypeHello then handleHelloPacket L now st packet addr v
             else if PType packet = PacketTypeVoice then handleVoicePacket L order now ss st packet v
             else if PType packet = PacketTypeBye then handleGoodbyePacket packet v
             else if PType packet = PacketTypeKeepalive then handleKeepalivePacket L now packet addr v
             else (v, [])))"

subsection \<open>Clean-up and shutdown\<close>

definition cleanup :: "uuid list \<Rightarrow> time \<Rightarrow> voice_server \<Rightarrow> voice_server" where
  "cleanup order now v =
     (let threshold = now - minute in
      v\<lparr>v_clients := sweep_entries (\<lambda>client. \<not> v_LastSeen client < threshold) order (v_clients v)\<rparr>)"

text \<open>
  \<open>Stop\<close> returns an error when closing the socket fails (argument \<open>close_fails\<close>); closing the
  stop channel twice panics.
\<close>

definition StopVoice :: "bool \<Rightarrow> voice_server \<Rightarrow> (bool \<times> voice_server) outcome" where
  "StopVoice close_fails v =
     (if \<not> v_running v then Ret (True, v)
      else if v_stopClosed v then Panics
      else let v1 = v\<lparr>v_stopClosed := True\<rparr> in
           if v_conn v1 \<and> close_fails then Ret (False, v1)
           else Ret (True, v1\<lparr>v_running := False\<rparr>))"

definition GetConnectedClients :: "uuid list \<Rightarrow> voice_server \<Rightarrow> uuid list" where
  "GetConnectedClients order v = map fst (entries_in order (v_clients v))"

definition GetClientCount :: "uuid list \<Rightarrow> voice_server \<Rightarrow> nat" where
  "GetClientCount order v = length (entries_in order (v_clients v))"

subsection \<open>Lemmas\<close>

interpretation voice_table: expiring_table v_clients cleanup
    "\<lambda>now client. now - minute \<le> v_LastSeen client"
  by unfold_locales (auto simp: cleanup_def Let_def sweep_entries_eq not_less)

lemma set_listening_loop:
  "set (listening_loop cs sender f ss st v) =
     {d. \<exists>u c. (u, c) \<in> set cs \<and> u \<noteq> sender \<and>
        IsListeningOnFrequency u sender f (IsFrequencyGlobal f ss) st \<and> v_clients v u = Some d}"
  by (induction cs sender f ss st v rule: listening_loop.induct) (auto split: option.splits)

text \<open>The clients a transmission reaches.\<close>

definition hears :: "server_state \<Rightarrow> voice_server \<Rightarrow> uuid \<Rightarrow> float32 \<Rightarrow> uuid \<Rightarrow> voice_client \<Rightarrow> bool" where
  "hears st v sender f u d \<longleftrightarrow> u \<noteq> sender \<and> DoesClientExist u st \<and> DoesClientExist sender st \<and>
     v_clients v u = Some d \<and>
     (\<exists>rs. gget (RadioClients st) u = Some rs \<and> tuned (Radios rs) f)"

lemma set_listening:
  assumes "iter_order order (gget (Clients st))"
  shows "set (listening_loop (GetAllClients order st) sender f ss st v) = {d. \<exists>u. hears st v sender f u d}"
  by (auto simp: set_listening_loop set_GetAllClients [OF assms] hears_def IsListening_iff
      DoesClientExist_def)

lemma handlers_frame:
  "v_running (fst (handlePacket L ks now ss st d a v)) = v_running v"
  "v_conn (fst (handlePacket L ks now ss st d a v)) = v_conn v"
  "v_stopClosed (fst (handlePacket L ks now ss st d a v)) = v_stopClosed v"
  by (simp_all add: handlePacket_def handleHelloPacket_def handleVoicePacket_def
      handleGoodbyePacket_def handleKeepalivePacket_def DisconnectClient_def Let_def
      split: sum.splits option.splits)

text \<open>How one packet changes the client table.\<close>

lemma handlePacket_clients:
  assumes "v_clients (fst (handlePacket L ks now ss st d a v)) u = Some c"
  shows "v_clients v u = Some c \<or>
    (\<exists>p. ParsePacket L d = Inr p \<and> SenderID p = u \<and> v_LastSeen c = now \<and>
      (PType p = PacketTypeHello \<and> DoesClientExist u st \<and> v_Addr c = a \<or>
       (\<exists>c0. v_clients v u = Some c0 \<and> v_Addr c = v_Addr c0)))"
  using assms
  by (auto simp: handlePacket_def handleHelloPacket_def handleVoicePacket_def
      handleGoodbyePacket_def handleKeepalivePacket_def DisconnectClient_def Let_def
      split: sum.splits option.splits if_splits)

text \<open>Where the outputs of one packet go.\<close>

lemma handlePacket_outputs:
  assumes "SendUDP b x \<in> set (snd (handlePacket L ks now ss st d a v))"
  shows "\<exists>p. ParsePacket L d = Inr p \<and>
    (PType p = PacketTypeHello \<and> x = a \<and> DoesClientExist (SenderID p) st \<or>
     PType p = PacketTypeKeepalive \<and> x = a \<and> v_clients v (SenderID p) \<noteq> None \<or>
     PType p = PacketTypeVoice \<and> b = SerializePacket L p \<and> v_clients v (SenderID p) \<noteq> None \<and>
       (\<exists>u c. u \<noteq> SenderID p \<and> v_clients v u = Some c \<and> v_Addr c = x))"
  using assms
  by (auto simp: handlePacket_def handleHelloPacket_def handleVoicePacket_def broadcastVoice_def
      GetListeningClients_def handleGoodbyePacket_def handleKeepalivePacket_def Let_def
      set_listening_loop packet_type_defs split: sum.splits option.splits if_splits)

lemma hears_refresh:
  "hears st (v\<lparr>v_clients := (v_clients v)(sender \<mapsto> c)\<rparr>) sender f u d = hears st v sender f u d"
  by (auto simp: hears_def)

lemma handle_voice_eq:
  assumes "v_running v" and "ParsePacket L d = Inr p" and "PType p = PacketTypeVoice"
    and "v_clients v (SenderID p) = Some c"
  shows "handlePacket L order now ss st d a v =
    (let v' = v\<lparr>v_clients := (v_clients v)(SenderID p \<mapsto> c\<lparr>v_LastSeen := now\<rparr>)\<rparr>
     in (v', broadcastVoice L order ss st p (SenderID p) v'))"
  using assms by (simp add: handlePacket_def handleVoicePacket_def packet_type_defs)

lemma handle_hello_eq:
  assumes "v_running v" and "ParsePacket L d = Inr p" and "PType p = PacketTypeHello"
  shows "handlePacket L order now ss st d a v = handleHelloPacket L now st p a v"
  using assms by (simp add: handlePacket_def)

text \<open>One datagram per listening client: the loop visits every client once.\<close>

lemma length_listening_loop:
  "distinct (map fst cs) \<Longrightarrow> length (listening_loop cs sender f ss st v) =
     card {u. \<exists>c d. (u, c) \<in> set cs \<and> u \<noteq> sender \<and>
        IsListeningOnFrequency u sender f (IsFrequencyGlobal f ss) st \<and> v_clients v u = Some d}"
proof (induction cs)
  case (Cons x cs)
  obtain u c where x: "x = (u, c)" by (cases x)
  let ?R = "\<lambda>xs. {w. \<exists>c d. (w, c) \<in> set xs \<and> w \<noteq> sender \<and>
        IsListeningOnFrequency w sender f (IsFrequencyGlobal f ss) st \<and> v_clients v w = Some d}"
  have fin: "finite (?R cs)" by (rule finite_subset [of _ "fst ` set cs"]) force+
  have new: "u \<notin> ?R cs" using Cons.prems by (force simp: x)
  show ?case
  proof (cases "u \<in> ?R [(u, c)]")
    case True
    then have "?R (x # cs) = insert u (?R cs)" by (auto simp: x)
    with True Cons fin new show ?thesis by (auto simp: x)
  next
    case False
    then have "?R (x # cs) = ?R cs" by (auto simp: x)
    with False Cons show ?thesis by (auto simp: x split: option.splits)
  qed
qed simp

lemma length_listening:
  assumes "iter_order order (gget (Clients st))"
  shows "length (listening_loop (GetAllClients order st) sender f ss st v) =
    card {u. \<exists>d. hears st v sender f u d}"
proof -
  have "distinct (map fst (GetAllClients order st))"
    using assms by (simp add: GetAllClients_def distinct_entries_in iter_order_def)
  from length_listening_loop [OF this] show ?thesis
    by (auto simp: set_GetAllClients [OF assms] hears_def IsListening_iff DoesClientExist_def
        intro!: arg_cong [of _ _ card])
qed

text \<open>What a voice packet of a registered sender sends, off the test frequencies.\<close>

lemma relay_list:
  assumes "uuid_lib_ok L" and "v_running v" and "ParsePacket L d = Inr p" and "PType p = PacketTypeVoice"
    and "v_clients v (SenderID p) = Some c0" and "\<not> IsFrequencyTest (FrequencyAsFloat32 p) ss"
  shows "snd (handlePacket L order now ss st d a v) = map (\<lambda>c. SendUDP d (v_Addr c))
    (listening_loop (GetAllClients order st) (SenderID p) (FrequencyAsFloat32 p) ss st
       (v\<lparr>v_clients := (v_clients v)(SenderID p \<mapsto> c0\<lparr>v_LastSeen := now\<rparr>)\<rparr>))"
  using assms
  by (simp add: handle_voice_eq broadcastVoice_def GetListeningClients_def Let_def SerializePacket_ParsePacket)

lemma relay_set:
  assumes "uuid_lib_ok L" and "v_running v" and "ParsePacket L d = Inr p" and "PType p = PacketTypeVoice"
    and "v_clients v (SenderID p) = Some c0" and "\<not> IsFrequencyTest (FrequencyAsFloat32 p) ss"
    and "iter_order order (gget (Clients st))"
  shows "set (snd (handlePacket L order now ss st d a v)) =
    {SendUDP d (v_Addr c) | u c. hears st v (SenderID p) (FrequencyAsFloat32 p) u c}"
  unfolding relay_list [OF assms(1-6)] set_map set_listening [OF assms(7)] hears_refresh by blast

subsection \<open>Reachable states of the voice server\<close>

text \<open>
  \<open>H\<close> collects the pairs of client and address that a hello of an existing client has admitted.
\<close>

definition admitted :: "uuid_lib \<Rightarrow> server_state \<Rightarrow> byte list \<Rightarrow> udp_addr \<Rightarrow> (uuid \<times> udp_addr) set" where
  "admitted L st d a =
     {(SenderID p, a) | p. ParsePacket L d = Inr p \<and> PType p = PacketTypeHello \<and>
        DoesClientExist (SenderID p) st}"

inductive voice_reach :: "uuid_lib \<Rightarrow> voice_server \<Rightarrow> (uuid \<times> udp_addr) set \<Rightarrow> bool" for L where
  start: "voice_reach L (voice_bind NewVoiceServer) {}"
| packet: "voice_reach L v H \<Longrightarrow>
    voice_reach L (fst (handlePacket L order now ss st d a v)) (H \<union> admitted L st d a)"
| clean: "voice_reach L v H \<Longrightarrow> iter_order order (v_clients v) \<Longrightarrow> voice_reach L (cleanup order now v) H"
| disconnect: "voice_reach L v H \<Longrightarrow> voice_reach L (DisconnectClient u v) H"
| stop: "voice_reach L v H \<Longrightarrow> StopVoice cf v = Ret (ok, v') \<Longrightarrow> voice_reach L v' H"

lemma StopVoice_clients: "StopVoice cf v = Ret (ok, v') \<Longrightarrow> v_clients v' = v_clients v"
  by (auto simp: StopVoice_def Let_def split: if_splits)

lemma voice_reach_admitted:
  "voice_reach L v H \<Longrightarrow> v_clients v u = Some c \<Longrightarrow> (u, v_Addr c) \<in> H"
proof (induction arbitrary: u c rule: voice_reach.induct)
  case (packet v H order now ss st d a)
  then show ?case
    by (auto dest!: handlePacket_clients simp: admitted_def)
next
  case (clean v H order now)
  then show ?case by (auto simp: voice_table.sweep_iff)
next
  case (disconnect v H w)
  then show ?case by (auto simp: DisconnectClient_def split: if_splits)
next
  case (stop v H cf ok v')
  then show ?case by (simp add: StopVoice_clients)
qed (simp add: voice_bind_def NewVoiceServer_def)

subsection \<open>Properties\<close>

text \<open>
  C9: Relaying. A voice packet of a registered sender on an ordinary frequency goes, byte for
  byte as it was received, to exactly the other clients that are connected, have said hello and
  whose radio on that frequency is on: one datagram for each, to the address of its hello, and
  nothing else is sent or played.
\<close>

theorem voice_relay:
  "uuid_lib_ok L \<Longrightarrow> iter_order order (gget (Clients st)) \<Longrightarrow> v_running v \<Longrightarrow>
   ParsePacket L d = Inr p \<Longrightarrow> PType p = PacketTypeVoice \<Longrightarrow> v_clients v (SenderID p) \<noteq> None \<Longrightarrow>
   \<not> IsFrequencyTest (FrequencyAsFloat32 p) ss \<Longrightarrow>
   set (snd (handlePacket L order now ss st d a v)) =
     {SendUDP d (v_Addr c) | u c. hears st v (SenderID p) (FrequencyAsFloat32 p) u c} \<and>
   length (snd (handlePacket L order now ss st d a v)) =
     card {u. \<exists>c. hears st v (SenderID p) (FrequencyAsFloat32 p) u c}"
proof -
  assume L: "uuid_lib_ok L" and o: "iter_order order (gget (Clients st))" and r: "v_running v"
    and p: "ParsePacket L d = Inr p" "PType p = PacketTypeVoice"
    and "v_clients v (SenderID p) \<noteq> None" and nt: "\<not> IsFrequencyTest (FrequencyAsFloat32 p) ss"
  then obtain c0 where c0: "v_clients v (SenderID p) = Some c0" by blast
  from relay_set [OF L r p c0 nt o] show ?thesis
    by (simp add: relay_list [OF L r p c0 nt] length_listening [OF o] hears_refresh)
qed

definition sample_server :: "float32 \<Rightarrow> server_state" where
  "sample_server f = \<lparr>
     Clients = Some [1 \<mapsto> \<lparr>c_Name = ''a'', c_UnitId = ''AA'', c_Coalition = ''blue'', c_Role = 0, c_LastUpdate = 0\<rparr>,
                     2 \<mapsto> \<lparr>c_Name = ''b'', c_UnitId = ''BB'', c_Coalition = ''red'', c_Role = 0, c_LastUpdate = 0\<rparr>],
     RadioClients = Some [1 \<mapsto> \<lparr>Radios = [], Muted = False\<rparr>,
                          2 \<mapsto> \<lparr>Radios = [sample_radio f True], Muted = False\<rparr>],
     BannedSt = \<lparr>BannedClients = [], ban_file = ''bans''\<rparr>\<rparr>"

definition sample_voice :: voice_server where
  "sample_voice = (voice_bind NewVoiceServer)\<lparr>v_clients :=
     [1 \<mapsto> \<lparr>v_Addr = UDPAddr ''10.0.0.1'' 4000, v_LastSeen = 0\<rparr>,
      2 \<mapsto> \<lparr>v_Addr = UDPAddr ''10.0.0.2'' 4000, v_LastSeen = 0\<rparr>]\<rparr>"

lemma sample_order: "iter_order [1, 2] (gget (Clients (sample_server f)))"
  by (auto simp: iter_order_def sample_server_def dom_def)

theorem voice_relay_witness:
  "let p = NewVCSVoicePacket 1 0 145500 [0xF8, 1, 2];
       d = SerializePacket sample_uuid_lib p
   in SendUDP d (UDPAddr ''10.0.0.2'' 4000) \<in> set (snd (handlePacket sample_uuid_lib [1, 2] 5
        (default_settings ''c'') (sample_server (FrequencyAsFloat32 p)) d (UDPAddr ''10.0.0.1'' 4000) sample_voice))"
proof -
  let ?p = "NewVCSVoicePacket 1 0 145500 [0xF8, 1, 2]"
  let ?d = "SerializePacket sample_uuid_lib ?p"
  let ?st = "sample_server (FrequencyAsFloat32 ?p)"
  have parse: "ParsePacket sample_uuid_lib ?d = Inr ?p"
    by (rule ParsePacket_SerializePacket) (simp_all add: sample_uuid_lib_ok)
  have sid: "SenderID ?p = 1" "PType ?p = PacketTypeVoice"
    by (simp_all add: NewVCSVoicePacket_def)
  have fin: "FrequencyAsFloat32 ?p \<noteq> NaN32"
    using khz_as_f32_eq [of 145500] by (simp add: FrequencyAsFloat32_def khz_as_f32_def NewVCSVoicePacket_def)
  have nt: "\<not> IsFrequencyTest (FrequencyAsFloat32 ?p) (default_settings ''c'')"
    by (simp add: IsFrequencyTest_def default_settings_def f32_contains_def)
  have h: "hears ?st sample_voice 1 (FrequencyAsFloat32 ?p) 2 \<lparr>v_Addr = UDPAddr ''10.0.0.2'' 4000, v_LastSeen = 0\<rparr>"
    using fin by (simp add: hears_def sample_server_def sample_voice_def DoesClientExist_def sample_radio_def)
  have "v_running sample_voice" "v_clients sample_voice 1 \<noteq> None"
    by (simp_all add: sample_voice_def voice_bind_def)
  with voice_relay [OF sample_uuid_lib_ok sample_order _ parse sid(2) _ nt] h sid
  show ?thesis by (force simp: Let_def)
qed

text \<open>
  Nobody speaks without a hello. A datagram that is no packet, a packet of type
  \<open>HELLO_ACK\<close> or of an unknown type, and a voice, keepalive or bye packet of a client that is
  not in the table change nothing and cause no output; nor does a hello of a client that does
  not exist, nor anything while the server is stopped.
\<close>

theorem voice_ignored:
  "\<not> v_running v \<or> (\<forall>p. ParsePacket L d = Inr p \<longrightarrow>
      PType p \<notin> {PacketTypeVoice, PacketTypeHello, PacketTypeKeepalive, PacketTypeBye} \<or>
      (PType p = PacketTypeHello \<and> \<not> DoesClientExist (SenderID p) st) \<or>
      (PType p \<noteq> PacketTypeHello \<and> v_clients v (SenderID p) = None)) \<Longrightarrow>
   handlePacket L order now ss st d a v = (v, [])"
  by (auto simp: handlePacket_def handleHelloPacket_def handleVoicePacket_def
      handleGoodbyePacket_def handleKeepalivePacket_def DisconnectClient_def packet_type_defs
      split: sum.splits)

theorem voice_ignored_witness:
  "let d = SerializePacket sample_uuid_lib (NewVCSVoicePacket 9 0 145500 [0xF8]) in
   handlePacket sample_uuid_lib [1, 2] 5 (default_settings ''c'') (sample_server (Fin32 5)) d
     (UDPAddr ''6.6.6.6'' 666) sample_voice = (sample_voice, [])"
proof -
  let ?p = "NewVCSVoicePacket 9 0 145500 [0xF8]"
  have parse: "ParsePacket sample_uuid_lib (SerializePacket sample_uuid_lib ?p) = Inr ?p"
    by (rule ParsePacket_SerializePacket) (simp_all add: sample_uuid_lib_ok)
  have "SenderID ?p = 9" "PType ?p = PacketTypeVoice" by (simp_all add: NewVCSVoicePacket_def)
  then have "PType ?p \<noteq> PacketTypeHello" "v_clients sample_voice (SenderID ?p) = None"
    by (simp_all add: packet_type_defs sample_voice_def)
  with parse show ?thesis
    unfolding Let_def by (intro voice_ignored) auto
qed

text \<open>
  C10: Where the voice server sends to. In every reachable state an output of a packet from
  address \<open>a\<close> goes back to \<open>a\<close> itself or to an address from which another client, one that
  existed in the server state at that time, has said hello.
\<close>

theorem voice_destinations:
  "voice_reach L v H \<Longrightarrow> SendUDP b x \<in> set (snd (handlePacket L order now ss st d a v)) \<Longrightarrow>
   x = a \<or> (\<exists>p u. ParsePacket L d = Inr p \<and> u \<noteq> SenderID p \<and> (u, x) \<in> H)"
proof -
  assume r: "voice_reach L v H" and o: "SendUDP b x \<in> set (snd (handlePacket L order now ss st d a v))"
  from handlePacket_outputs [OF o] obtain p where p: "ParsePacket L d = Inr p"
    and "x = a \<or> (\<exists>u c. u \<noteq> SenderID p \<and> v_clients v u = Some c \<and> v_Addr c = x)" by blast
  then show ?thesis using voice_reach_admitted [OF r] p by blast
qed

lemma sample_voice_reach:
  "\<exists>v. voice_reach sample_uuid_lib v {(2, UDPAddr ''10.0.0.2'' 4000)} \<and> v_running v \<and>
     v_clients v = [2 \<mapsto> \<lparr>v_Addr = UDPAddr ''10.0.0.2'' 4000, v_LastSeen = 0\<rparr>]"
proof -
  let ?p = "(NewVCSHelloAckPacket 2)\<lparr>PType := PacketTypeHello\<rparr>"
  let ?d = "SerializePacket sample_uuid_lib ?p"
  let ?a = "UDPAddr ''10.0.0.2'' 4000"
  have "wf_packet ?p"
    by (simp add: wf_packet_def NewVCSHelloAckPacket_def MagicVCS_def packet_type_defs)
  then have parse: "ParsePacket sample_uuid_lib ?d = Inr ?p"
    by (rule ParsePacket_SerializePacket [OF sample_uuid_lib_ok])
  have sid: "SenderID ?p = 2" by (simp add: NewVCSHelloAckPacket_def)
  have ex: "DoesClientExist 2 (sample_server (Fin32 5))"
    by (simp add: DoesClientExist_def sample_server_def)
  have adm: "admitted sample_uuid_lib (sample_server (Fin32 5)) ?d ?a = {(2, ?a)}"
    by (auto simp: admitted_def parse sid ex)
  note r = voice_reach.packet [OF voice_reach.start [of sample_uuid_lib], of "[]" 0
      "default_settings ''c''" "sample_server (Fin32 5)" ?d ?a, unfolded adm]
  have t: "PType ?p = PacketTypeHello" by simp
  have run: "v_running (voice_bind NewVoiceServer)" by (simp add: voice_bind_def)
  show ?thesis
    using r unfolding handle_hello_eq [OF run parse t] handleHelloPacket_def sid
    by (intro exI conjI, simp, simp_all add: ex voice_bind_def NewVoiceServer_def)
qed

theorem voice_destinations_witness:
  "\<exists>v H. voice_reach sample_uuid_lib v H \<and> (2, UDPAddr ''10.0.0.2'' 4000) \<in> H \<and>
     (let d = SerializePacket sample_uuid_lib (NewVCSKeepalivePacket 2) in
      \<forall>b x. SendUDP b x \<in> set (snd (handlePacket sample_uuid_lib [] 0 (default_settings ''c'')
         (sample_server (Fin32 5)) d (UDPAddr ''10.0.0.9'' 1) v)) \<longrightarrow>
       x = UDPAddr ''10.0.0.9'' 1 \<or> (\<exists>u. (u, x) \<in> H))"
proof -
  obtain v where v: "voice_reach sample_uuid_lib v {(2, UDPAddr ''10.0.0.2'' 4000)}"
    using sample_voice_reach by blast
  have dest: "x = a \<or> (\<exists>u. (u, x) \<in> {(2, UDPAddr ''10.0.0.2'' 4000)})"
    if "SendUDP b x \<in> set (snd (handlePacket sample_uuid_lib order now ss st d a v))" for b x order now ss st d a
    using voice_destinations [OF v that] by blast
  show ?thesis
    unfolding Let_def
    by (rule exI [of _ v], rule exI [of _ "{(2, UDPAddr ''10.0.0.2'' 4000)}"], intro conjI allI impI)
      (rule v, rule insertI1, erule dest)
qed

text \<open>
  The clean-up drops exactly the clients that have been silent for more than a minute; a
  client whose voice or keepalive packet was handled survives every clean-up in the following
  minute, at the address of its hello.
\<close>

theorem voice_cleanup:
  "iter_order order (v_clients v) \<Longrightarrow>
   (v_clients (cleanup order now v) u = Some c \<longleftrightarrow> v_clients v u = Some c \<and> now - v_LastSeen c \<le> minute)"
  by (auto simp: voice_table.sweep_iff)

theorem voice_cleanup_witness:
  "v_clients (cleanup [1, 2] (2 * minute) sample_voice) 1 = None \<and>
   v_clients (cleanup [1, 2] second sample_voice) 1 \<noteq> None"
proof -
  have o1: "iter_order [1, 2] (v_clients sample_voice)"
    by (auto simp: iter_order_def sample_voice_def)
  let ?c = "\<lparr>v_Addr = UDPAddr ''10.0.0.1'' 4000, v_LastSeen = 0\<rparr>"
  have c: "v_clients sample_voice 1 = Some ?c" by (simp add: sample_voice_def)
  have "v_clients (cleanup [1, 2] (2 * minute) sample_voice) 1 \<noteq> Some e" for e
    using voice_cleanup [OF o1, of "2 * minute" 1 e] c by (auto simp: minute_def second_def)
  moreover have "v_clients (cleanup [1, 2] second sample_voice) 1 = Some ?c"
    using voice_cleanup [OF o1, of second 1 ?c] c by (simp add: minute_def second_def)
  ultimately show ?thesis by (metis option.exhaust)
qed

text \<open>
  On a test frequency the payload of a registered sender is played on the server and no
  datagram leaves it.
\<close>

theorem voice_test_frequency:
  "v_running v \<Longrightarrow> ParsePacket L d = Inr p \<Longrightarrow> PType p = PacketTypeVoice \<Longrightarrow>
   v_clients v (SenderID p) \<noteq> None \<Longrightarrow> IsFrequencyTest (FrequencyAsFloat32 p) ss \<Longrightarrow>
   snd (handlePacket L order now ss st d a v) = [PlayLocal (Payload p)]"
  by (auto simp: handle_voice_eq broadcastVoice_def GetListeningClients_def Let_def)

theorem voice_test_frequency_witness:
  "let p = NewVCSVoicePacket 1 0 145500 [0xF8, 1, 2];
       ss = (default_settings ''c'')\<lparr>Frequencies :=
              \<lparr>TestFrequencies = [FrequencyAsFloat32 p], GlobalFrequencies = []\<rparr>\<rparr>
   in snd (handlePacket sample_uuid_lib [1, 2] 5 ss (sample_server (Fin32 5))
        (SerializePacket sample_uuid_lib p) (UDPAddr ''10.0.0.1'' 4000) sample_voice) =
      [PlayLocal [0xF8, 1, 2]]"
proof -
  let ?p = "NewVCSVoicePacket 1 0 145500 [0xF8, 1, 2]"
  let ?ss = "(default_settings ''c'')\<lparr>Frequencies :=
              \<lparr>TestFrequencies = [FrequencyAsFloat32 ?p], GlobalFrequencies = []\<rparr>\<rparr>"
  have parse: "ParsePacket sample_uuid_lib (SerializePacket sample_uuid_lib ?p) = Inr ?p"
    by (rule ParsePacket_SerializePacket) (simp_all add: sample_uuid_lib_ok)
  have "FrequencyAsFloat32 ?p \<noteq> NaN32"
    using khz_as_f32_eq [of 145500] by (simp add: FrequencyAsFloat32_def khz_as_f32_def NewVCSVoicePacket_def)
  then have t: "IsFrequencyTest (FrequencyAsFloat32 ?p) ?ss"
    by (simp add: IsFrequencyTest_def f32_contains_def)
  have "v_running sample_voice" "v_clients sample_voice (SenderID ?p) \<noteq> None" "PType ?p = PacketTypeVoice"
    by (simp_all add: sample_voice_def voice_bind_def NewVCSVoicePacket_def)
  with voice_test_frequency [OF _ parse _ _ t] show ?thesis
    by (simp add: Let_def) (simp add: NewVCSVoicePacket_def)
qed

text \<open>
  Stopping. A successful stop is final and may be repeated; a stop whose socket close fails
  leaves the server running with its stop channel closed, and the next stop panics.
\<close>

theorem voice_stop:
  "v_running v \<Longrightarrow> \<not> v_stopClosed v \<Longrightarrow> v_conn v \<Longrightarrow>
   (\<exists>v'. StopVoice False v = Ret (True, v') \<and> \<not> v_running v' \<and> (\<forall>cf. StopVoice cf v' = Ret (True, v'))) \<and>
   (\<exists>v'. StopVoice True v = Ret (False, v') \<and> v_running v' \<and> (\<forall>cf. StopVoice cf v' = Panics))"
  by (simp add: StopVoice_def Let_def)

theorem voice_stop_witness:
  "\<exists>v'. StopVoice True sample_voice = Ret (False, v') \<and> StopVoice False v' = Panics"
  using voice_stop [of sample_voice] by (auto simp: sample_voice_def voice_bind_def NewVoiceServer_def)

end
