(* ===== verification/VoiceListen.thy ===== *)
theory VoiceListen
  imports VoiceServer
begin

text \<open>
  The receive loop \<open>Listen\<close> of \<^verbatim>\<open>voice/server.go\<close>. It owns one buffer; for each datagram it
  starts a goroutine with a slice of that buffer and reads the next datagram into the same
  array. A goroutine that is not scheduled before the next read therefore parses other bytes
  than it was started for. The state below keeps the buffer and the goroutines not yet run, so
  that both the orderly schedule and the racing one can be stated.
\<close>

subsection \<open>State and steps\<close>

definition BufferSize :: nat where
  "BufferSize = 1024"

text \<open>
  A pending goroutine is the length of its slice \<open>buffer[:n]\<close> and the sender's address.
\<close>

record listen_state =
  l_buffer :: "byte list"
  l_pending :: "(nat \<times> udp_addr) list"
  l_server :: voice_server
  l_sent :: "voice_out list"

definition listen_start :: "voice_server \<Rightarrow> listen_state" where
  "listen_start v = \<lparr>l_buffer = replicate BufferSize 0, l_pending = [], l_server = voice_bind v,
     l_sent = []\<rparr>"

text \<open>
  \<open>ReadFromUDP\<close> fills the buffer with the datagram, dropping what exceeds it, and the handler
  goroutine is started.
\<close>

definition read_datagram :: "byte list \<Rightarrow> udp_addr \<Rightarrow> listen_state \<Rightarrow> listen_state" where
  "read_datagram d a l =
     (let n = min (length d) BufferSize in
      l\<lparr>l_buffer := take n d @ drop n (l_buffer l), l_pending := l_pending l @ [(n, a)]\<rparr>)"

text \<open>What the handlers read besides the packet, at the time they run.\<close>

record handler_env =
  e_order :: "uuid list"
  e_now :: time
  e_settings :: settings_state
  e_state :: server_state

definition handle_in ::
    "uuid_lib \<Rightarrow> handler_env \<Rightarrow> byte list \<Rightarrow> udp_addr \<Rightarrow> voice_server \<Rightarrow> voice_server \<times> voice_out list" where
  "handle_in L e = handlePacket L (e_order e) (e_now e) (e_settings e) (e_state e)"

text \<open>The \<open>i\<close>-th pending goroutine runs, on what the buffer holds now.\<close>

definition run_handler :: "uuid_lib \<Rightarrow> handler_env \<Rightarrow> nat \<Rightarrow> listen_state \<Rightarrow> listen_state" where
  "run_handler L e i l =
     (if i < length (l_pending l)
      then let (n, a) = l_pending l ! i;
               (v, out) = handle_in L e (take n (l_buffer l)) a (l_server l)
           in l\<lparr>l_pending := take i (l_pending l) @ drop (Suc i) (l_pending l),
                l_server := v, l_sent := l_sent l @ out\<rparr>
      else l)"

inductive listen_step :: "uuid_lib \<Rightarrow> listen_state \<Rightarrow> listen_state \<Rightarrow> bool" for L where
  read: "listen_step L l (read_datagram d a l)"
| handle: "i < length (l_pending l) \<Longrightarrow> listen_step L l (run_handler L e i l)"

inductive listen_reach :: "uuid_lib \<Rightarrow> listen_state \<Rightarrow> bool" for L where
  init: "listen_reach L (listen_start NewVoiceServer)"
| step: "listen_reach L l \<Longrightarrow> listen_step L l l' \<Longrightarrow> listen_reach L l'"

inductive_cases listen_stepE: "listen_step L l l'"

subsection \<open>Lemmas\<close>

definition listen_inv :: "listen_state \<Rightarrow> bool" where
  "listen_inv l \<longleftrightarrow> length (l_buffer l) = BufferSize \<and> (\<forall>(n, a) \<in> set (l_pending l). n \<le> BufferSize) \<and>
     v_running (l_server l)"

lemma run_handler_frame:
  "l_buffer (run_handler L e i l) = l_buffer l"
  "set (l_pending (run_handler L e i l)) \<subseteq> set (l_pending l)"
  "v_running (l_server (run_handler L e i l)) = v_running (l_server l)"
  using handlers_frame(1)
  by (auto simp: run_handler_def handle_in_def Let_def split_beta dest: in_set_takeD in_set_dropD)

lemma listen_inv_step: "listen_inv l \<Longrightarrow> listen_step L l l' \<Longrightarrow> listen_inv l'"
  by (erule listen_stepE)
    (use run_handler_frame in \<open>fastforce simp: listen_inv_def read_datagram_def Let_def\<close>)+

lemma listen_reach_inv: "listen_reach L l \<Longrightarrow> listen_inv l"
proof (induction rule: listen_reach.induct)
  case init
  show ?case by (simp add: listen_inv_def listen_start_def voice_bind_def)
next
  case (step l l')
  then show ?case by (blast intro: listen_inv_step)
qed

lemma buffer_read:
  "take (min (length d) BufferSize) (l_buffer (read_datagram d a l)) = take BufferSize d"
  by (simp add: read_datagram_def Let_def min_def)

lemma run_read:
  assumes "l_pending l = []"
  shows "run_handler L e 0 (read_datagram d a l) =
    (let (v, out) = handle_in L e (take BufferSize d) a (l_server l) in
     (read_datagram d a l)\<lparr>l_pending := [], l_server := v, l_sent := l_sent l @ out\<rparr>)"
proof -
  have p: "l_pending (read_datagram d a l) = [(min (length d) BufferSize, a)]"
    and s: "l_server (read_datagram d a l) = l_server l" "l_sent (read_datagram d a l) = l_sent l"
    using assms by (simp_all add: read_datagram_def Let_def)
  show ?thesis
    by (simp add: run_handler_def p s buffer_read Let_def split_beta)
qed

text \<open>The orderly schedule: every handler runs before the next datagram is read.\<close>

fun orderly :: "uuid_lib \<Rightarrow> (handler_env \<times> byte list \<times> udp_addr) list \<Rightarrow> listen_state \<Rightarrow> listen_state" where
  "orderly L [] l = l"
| "orderly L ((e, d, a) # ds) l = orderly L ds (run_handler L e 0 (read_datagram d a l))"

fun handle_all ::
    "uuid_lib \<Rightarrow> (handler_env \<times> byte list \<times> udp_addr) list \<Rightarrow> voice_server \<Rightarrow> voice_server \<times> voice_out list" where
  "handle_all L [] v = (v, [])"
| "handle_all L ((e, d, a) # ds) v =
     (let (v', out) = handle_in L e d a v; (v'', out') = handle_all L ds v' in (v'', out @ out'))"

lemma run_read_fields:
  assumes "l_pending l = []"
  shows "l_pending (run_handler L e 0 (read_datagram d a l)) = []"
    and "l_server (run_handler L e 0 (read_datagram d a l)) =
           fst (handle_in L e (take BufferSize d) a (l_server l))"
    and "l_sent (run_handler L e 0 (read_datagram d a l)) =
           l_sent l @ snd (handle_in L e (take BufferSize d) a (l_server l))"
  by (simp_all add: run_read [OF assms] split_beta Let_def)

subsection \<open>Properties\<close>

text \<open>
  C29: The receive loop on the orderly schedule refines packet-by-packet handling: when each
  handler runs before the next datagram arrives and no datagram exceeds the buffer, the server's
  table and all it sends are those of handling the datagrams one after the other.
\<close>

theorem listen_orderly:
  "l_pending l = [] \<Longrightarrow> \<forall>(e, d, a) \<in> set ds. length d \<le> BufferSize \<Longrightarrow>
   l_server (orderly L ds l) = fst (handle_all L ds (l_server l)) \<and>
   l_sent (orderly L ds l) = l_sent l @ snd (handle_all L ds (l_server l))"
proof (induction ds arbitrary: l)
  case (Cons x ds)
  obtain e d a where x: "x = (e, d, a)" by (cases x)
  with Cons.prems have "take BufferSize d = d" by simp
  with run_read_fields [OF Cons.prems(1), of L e d a]
  show ?case using Cons.IH Cons.prems(2) by (simp add: x split_beta Let_def)
qed simp

definition hello_packet :: "uuid \<Rightarrow> vcs_packet" where
  "hello_packet u = (NewVCSHelloAckPacket u)\<lparr>PType := PacketTypeHello\<rparr>"

lemma parse_hello_packet:
  "ParsePacket sample_uuid_lib (SerializePacket sample_uuid_lib (hello_packet u)) = Inr (hello_packet u)"
  by (rule ParsePacket_SerializePacket [OF sample_uuid_lib_ok])
    (simp add: hello_packet_def wf_packet_def NewVCSHelloAckPacket_def MagicVCS_def packet_type_defs)

lemma hello_packet_fields [simp]:
  "SenderID (hello_packet u) = u" "PType (hello_packet u) = PacketTypeHello"
  by (simp_all add: hello_packet_def NewVCSHelloAckPacket_def)

definition sample_env :: handler_env where
  "sample_env = \<lparr>e_order = [1, 2], e_now = 5, e_settings = default_settings ''c'',
     e_state = sample_server (Fin32 5)\<rparr>"

definition addr1 :: udp_addr where "addr1 = UDPAddr ''10.0.0.1'' 4000"
definition addr2 :: udp_addr where "addr2 = UDPAddr ''10.0.0.2'' 4000"

lemma handle_in_hello:
  assumes "v_running v" and "u = 1 \<or> u = 2"
  shows "handle_in sample_uuid_lib sample_env (SerializePacket sample_uuid_lib (hello_packet u)) a v =
    (v\<lparr>v_clients := (v_clients v)(u \<mapsto> \<lparr>v_Addr = a, v_LastSeen = 5\<rparr>)\<rparr>,
     [SendUDP (SerializePacket sample_uuid_lib (NewVCSHelloAckPacket u)) a])"
proof -
  have "DoesClientExist u (e_state sample_env)"
    using assms(2) by (auto simp: sample_env_def sample_server_def DoesClientExist_def)
  then show ?thesis
    using assms(1)
    by (simp add: handle_in_def handle_hello_eq [OF _ parse_hello_packet] handleHelloPacket_def sample_env_def)
qed

lemma length_hello: "length (SerializePacket sample_uuid_lib (hello_packet u)) = 27"
  using sample_uuid_lib_ok
  by (simp add: SerializePacket_def hello_packet_def NewVCSHelloAckPacket_def uuid_lib_okD(1) go_copy_def split_beta)

theorem listen_orderly_witness:
  "v_clients (l_server (orderly sample_uuid_lib
      [(sample_env, SerializePacket sample_uuid_lib (hello_packet 1), addr1),
       (sample_env, SerializePacket sample_uuid_lib (hello_packet 2), addr2)]
      (listen_start NewVoiceServer))) =
   [1 \<mapsto> \<lparr>v_Addr = addr1, v_LastSeen = 5\<rparr>, 2 \<mapsto> \<lparr>v_Addr = addr2, v_LastSeen = 5\<rparr>]"
proof -
  let ?l = "listen_start NewVoiceServer"
  let ?ds = "[(sample_env, SerializePacket sample_uuid_lib (hello_packet 1), addr1),
       (sample_env, SerializePacket sample_uuid_lib (hello_packet 2), addr2)]"
  have "l_pending ?l = []" and "\<forall>(e, d, a) \<in> set ?ds. length d \<le> BufferSize"
    by (simp_all add: listen_start_def length_hello BufferSize_def)
  from listen_orderly [OF this, of sample_uuid_lib] show ?thesis
    by (simp add: handle_in_hello listen_start_def voice_bind_def NewVoiceServer_def)
qed

lemma run_two_read:
  assumes "l_pending l = []" and "length d1 = length d2" and "length d2 \<le> BufferSize"
  shows "l_server (run_handler L e2 0 (run_handler L e1 0 (read_datagram d2 a2 (read_datagram d1 a1 l)))) =
      fst (handle_in L e2 d2 a2 (fst (handle_in L e1 d2 a1 (l_server l))))"
    and "l_server (run_handler L e1 0 (run_handler L e2 1 (read_datagram d2 a2 (read_datagram d1 a1 l)))) =
      fst (handle_in L e1 d2 a1 (fst (handle_in L e2 d2 a2 (l_server l))))"
proof -
  let ?l = "read_datagram d2 a2 (read_datagram d1 a1 l)"
  have p: "l_pending ?l = [(length d2, a1), (length d2, a2)]" and b: "take (length d2) (l_buffer ?l) = d2"
    and s: "l_server ?l = l_server l"
    using assms by (simp_all add: read_datagram_def Let_def)
  show "l_server (run_handler L e2 0 (run_handler L e1 0 ?l)) =
      fst (handle_in L e2 d2 a2 (fst (handle_in L e1 d2 a1 (l_server l))))"
    by (simp add: run_handler_def p b s split_beta Let_def)
  show "l_server (run_handler L e1 0 (run_handler L e2 1 ?l)) =
      fst (handle_in L e1 d2 a1 (fst (handle_in L e2 d2 a2 (l_server l))))"
    by (simp add: run_handler_def p b s split_beta Let_def)
qed

text \<open>
  C30: The shared buffer. When a second datagram of the same length is read before the handler
  of the first has run, the first datagram is never handled: both handlers process the second
  one, each with the address of its own sender, whichever runs first.
\<close>

theorem listen_shared_buffer:
  "l_pending l = [] \<Longrightarrow> length d1 = length d2 \<Longrightarrow> length d2 \<le> BufferSize \<Longrightarrow>
   l_server (run_handler L e2 0 (run_handler L e1 0 (read_datagram d2 a2 (read_datagram d1 a1 l)))) =
     fst (handle_in L e2 d2 a2 (fst (handle_in L e1 d2 a1 (l_server l)))) \<and>
   l_server (run_handler L e1 0 (run_handler L e2 1 (read_datagram d2 a2 (read_datagram d1 a1 l)))) =
     fst (handle_in L e1 d2 a1 (fst (handle_in L e2 d2 a2 (l_server l))))"
  using run_two_read by blast

text \<open>
  Two clients say hello at the same time: client 2 ends up registered at the address of client
  1, and client 1 not at all.
\<close>

theorem listen_shared_buffer_witness:
  "let d1 = SerializePacket sample_uuid_lib (hello_packet 1);
       d2 = SerializePacket sample_uuid_lib (hello_packet 2);
       l = read_datagram d2 addr2 (read_datagram d1 addr1 (listen_start NewVoiceServer))
   in v_clients (l_server (run_handler sample_uuid_lib sample_env 0 (run_handler sample_uuid_lib sample_env 1 l))) =
        [2 \<mapsto> \<lparr>v_Addr = addr1, v_LastSeen = 5\<rparr>]"
proof -
  let ?l = "listen_start NewVoiceServer"
  let ?d1 = "SerializePacket sample_uuid_lib (hello_packet 1)"
  let ?d2 = "SerializePacket sample_uuid_lib (hello_packet 2)"
  have "l_pending ?l = []" and "length ?d1 = length ?d2" and "length ?d2 \<le> BufferSize"
    by (simp_all add: listen_start_def length_hello BufferSize_def)
  from conjunct2 [OF listen_shared_buffer [OF this, of sample_uuid_lib sample_env sample_env addr2 addr1]]
  show ?thesis
    unfolding Let_def
    by (simp add: handle_in_hello listen_start_def voice_bind_def NewVoiceServer_def)
qed

end
