(* ===== verification/Audio.thy ===== *)
theory Audio
  imports Protocol
begin

text \<open>
  Local playback of test transmissions, the second half of \<^verbatim>\<open>voice/server.go\<close>: the stereo
  downmix, \<open>PlayVoiceData\<close> and the \<open>pcmStream\<close> that feeds the sound card. The Opus decoder, the
  speaker and the sample decoder of the beep package are parameters.
\<close>

subsection \<open>Downmix\<close>

definition le16 :: "byte \<Rightarrow> byte \<Rightarrow> u16" where
  "le16 lo hi = ucast lo OR push_bit 8 (ucast hi)"

text \<open>
  \<open>int16((int32(l) + int32(r)) / 2)\<close>: the quotient of Go truncates towards zero.
\<close>

definition quot2 :: "int \<Rightarrow> int" where
  "quot2 x = (if 0 \<le> x then x div 2 else - ((- x) div 2))"

definition mix :: "u16 \<Rightarrow> u16 \<Rightarrow> u16" where
  "mix l r = word_of_int (quot2 (sint l + sint r))"

fun downmix_loop :: "byte list \<Rightarrow> nat \<Rightarrow> nat \<Rightarrow> byte list outcome" where
  "downmix_loop input i 0 = Ret []"
| "downmix_loop input i (Suc n) =
     (if length input \<le> 4 * i + 3 then Panics
      else let l = le16 (input ! (4 * i)) (input ! (4 * i + 1));
               r = le16 (input ! (4 * i + 2)) (input ! (4 * i + 3));
               m = mix l r
           in map_ret (\<lambda>out. ucast m # ucast (drop_bit 8 m) # out) (downmix_loop input (Suc i) n))"

definition downmixStereoS16LEToMono :: "byte list \<Rightarrow> nat \<Rightarrow> byte list outcome" where
  "downmixStereoS16LEToMono input samplesPerCh = downmix_loop input 0 samplesPerCh"

subsection \<open>Playback\<close>

definition minCELTConfig :: u8 where "minCELTConfig = 16"
definition maxOpusFrameSize :: nat where "maxOpusFrameSize = 11520"
definition samplesPerChannel :: nat where "samplesPerChannel = 960"

text \<open>
  \<open>p_once\<close>: the \<open>sync.Once\<close> has run; \<open>p_ready\<close>: it has left no error and a pipe;
  \<open>p_written\<close>: the bytes handed to the pipe so far; \<open>p_dec\<close>: the state of the decoder.
\<close>

record 'd play_state =
  p_once :: bool
  p_ready :: bool
  p_dec :: 'd
  p_written :: "byte list"

datatype decode_result = Decoded nat bool | DecodeFails

text \<open>
  The decoder gets the payload and the zeroed output buffer and returns its verdict (sample rate
  and stereo flag; an error or a panic, which the code recovers into an error, is
  \<open>DecodeFails\<close>), its new state and the buffer.
\<close>

type_synonym 'd opus = "'d \<Rightarrow> byte list \<Rightarrow> byte list \<Rightarrow> decode_result \<times> 'd \<times> byte list"

definition frame_samples :: "nat \<Rightarrow> nat" where
  "frame_samples sr =
     (let sr' = (if sr = 0 then 48000 else sr); n = sr' div 50
      in if n \<le> 0 then samplesPerChannel else n)"

definition play_init :: "'d \<Rightarrow> bool \<Rightarrow> 'd play_state \<Rightarrow> 'd play_state" where
  "play_init newDecoder speaker_ok s =
     (if p_once s then s else s\<lparr>p_once := True, p_ready := speaker_ok, p_dec := newDecoder\<rparr>)"

definition PlayVoiceData ::
    "'d opus \<Rightarrow> 'd \<Rightarrow> bool \<Rightarrow> byte list \<Rightarrow> 'd play_state \<Rightarrow> 'd play_state outcome" where
  "PlayVoiceData decode newDecoder speaker_ok payload s =
     (if payload = [] then Ret s
      else if drop_bit 3 (payload ! 0) < minCELTConfig then Ret s
      else
        let s1 = play_init newDecoder speaker_ok s in
        if \<not> p_ready s1 then Ret s1
        else
          let (result, dec, out) = decode (p_dec s1) payload (replicate maxOpusFrameSize 0);
              s2 = s1\<lparr>p_dec := dec\<rparr>
          in case result of
               DecodeFails \<Rightarrow> Ret s2
             | Decoded sr isStereo \<Rightarrow>
                 let n = frame_samples sr;
                     channels = (if isStereo then 2 else 1);
                     bytesToUse = min (n * 2 * channels) (length out);
                     pcm = (if isStereo then downmixStereoS16LEToMono (take bytesToUse out) n
                            else Ret (take bytesToUse out))
                 in map_ret (\<lambda>pcmData. s2\<lparr>p_written := p_written s2 @ pcmData\<rparr>) pcm)"

subsection \<open>The stream the sound card reads\<close>

record pcm_stream =
  s_buf :: "byte list"
  s_len :: nat
  s_pos :: nat
  s_err :: bool

datatype read_result = ReadEOF | ReadErr | ReadBytes "byte list"

text \<open>The refill at the start of \<open>Stream\<close>; the flag says whether decoding goes on.\<close>

definition pcm_refill :: "nat \<Rightarrow> read_result \<Rightarrow> pcm_stream \<Rightarrow> bool \<times> pcm_stream" where
  "pcm_refill width rd s =
     (let size = s_len s - s_pos s in
      if size < width
      then let s1 = s\<lparr>s_buf := (if size \<noteq> 0 then go_copy (s_buf s) (take size (drop (s_pos s) (s_buf s)))
                               else s_buf s),
                      s_len := size, s_pos := 0\<rparr>
           in (case rd of
                 ReadEOF \<Rightarrow> (False, s1)
               | ReadErr \<Rightarrow> (False, s1\<lparr>s_err := True\<rparr>)
               | ReadBytes bs \<Rightarrow>
                   (True, s1\<lparr>s_buf := take size (s_buf s1) @ go_copy (drop size (s_buf s1)) bs,
                             s_len := size + length bs\<rparr>))
      else (True, s))"

fun pcm_decode :: "nat \<Rightarrow> (byte list \<Rightarrow> 's) \<Rightarrow> nat \<Rightarrow> pcm_stream \<Rightarrow> 's list \<times> pcm_stream" where
  "pcm_decode width dec 0 s = ([], s)"
| "pcm_decode width dec (Suc k) s =
     (if width \<le> s_len s - s_pos s
      then let (xs, s') = pcm_decode width dec k (s\<lparr>s_pos := s_pos s + width\<rparr>)
           in (dec (drop (s_pos s) (s_buf s)) # xs, s')
      else ([], s))"

definition pcm_Stream ::
    "nat \<Rightarrow> (byte list \<Rightarrow> 's) \<Rightarrow> nat \<Rightarrow> read_result \<Rightarrow> pcm_stream \<Rightarrow> 's list \<times> bool \<times> pcm_stream" where
  "pcm_Stream width dec nsamples rd s =
     (let (go_on, s1) = pcm_refill width rd s in
      if go_on then (let (xs, s2) = pcm_decode width dec nsamples s1 in (xs, True, s2))
      else ([], False, s1))"

subsection \<open>Lemmas on the downmix\<close>

lemma quot2_bounds:
  assumes "- 32768 \<le> a" "a < 32768" "- 32768 \<le> b" "b < 32768"
  shows "- 32768 \<le> quot2 (a + b)" "quot2 (a + b) < 32768"
  using assms by (auto simp: quot2_def)

lemma sint_u16_bounds: "- 32768 \<le> sint (w :: u16)" "sint (w :: u16) < 32768"
  using sint_range_size [of w] by (simp_all add: word_size)

lemma sint_mix: "sint (mix l r) = quot2 (sint l + sint r)"
proof -
  have "signed_take_bit 15 (quot2 (sint l + sint r)) = quot2 (sint l + sint r)"
    using quot2_bounds [OF sint_u16_bounds sint_u16_bounds, of l r]
    by (intro signed_take_bit_int_eq_self) simp_all
  then show ?thesis by (simp add: mix_def sint_sbintrunc')
qed

lemma mix_same: "mix l l = l"
proof -
  have "sint (mix l l) = sint l" by (simp add: sint_mix quot2_def) arith
  then show ?thesis by (rule signed_word_eqI)
qed

lemma le16_bytes: "le16 (ucast m) (ucast (drop_bit 8 m)) = (m :: u16)"
  by (rule bit_eqI) (auto simp: le16_def bit_simps)

definition sample_at :: "byte list \<Rightarrow> nat \<Rightarrow> u16" where
  "sample_at bs k = le16 (bs ! (2 * k)) (bs ! (2 * k + 1))"

lemma downmix_loop_Ret:
  "4 * (i + n) \<le> length input \<Longrightarrow> \<exists>out. downmix_loop input i n = Ret out \<and> length out = 2 * n \<and>
     (\<forall>k < n. sample_at out k = mix (sample_at input (2 * (i + k))) (sample_at input (2 * (i + k) + 1)))"
proof (induction n arbitrary: i)
  case (Suc n)
  then obtain out where out: "downmix_loop input (Suc i) n = Ret out" "length out = 2 * n"
    and IH: "\<forall>k < n. sample_at out k =
      mix (sample_at input (2 * (Suc i + k))) (sample_at input (2 * (Suc i + k) + 1))"
    using Suc.IH [of "Suc i"] by auto
  define m where "m = mix (sample_at input (2 * i)) (sample_at input (2 * i + 1))"
  have head: "downmix_loop input i (Suc n) = Ret (ucast m # ucast (drop_bit 8 m) # out)"
    using Suc.prems by (simp add: out m_def sample_at_def Let_def add_ac numeral_3_eq_3)
  have "sample_at (ucast m # ucast (drop_bit 8 m) # out) k =
      mix (sample_at input (2 * (i + k))) (sample_at input (2 * (i + k) + 1))" if "k < Suc n" for k
  proof (cases k)
    case 0
    then show ?thesis by (simp add: sample_at_def [of "_ # _"] le16_bytes m_def)
  next
    case (Suc j)
    then have "sample_at (ucast m # ucast (drop_bit 8 m) # out) k = sample_at out j"
      by (simp add: sample_at_def)
    with IH that Suc show ?thesis by simp
  qed
  with head out(2) show ?case by auto
qed simp

lemma downmix_loop_Panics: "length input < 4 * (i + n) \<Longrightarrow> 0 < n \<Longrightarrow> downmix_loop input i n = Panics"
proof (induction n arbitrary: i)
  case (Suc n)
  show ?case
  proof (cases "length input \<le> 4 * i + 3")
    case False
    with Suc.prems have "0 < n" by (cases n) auto
    with Suc.prems have "downmix_loop input (Suc i) n = Panics" by (intro Suc.IH) auto
    with False show ?thesis by (simp add: Let_def)
  qed simp
qed simp

lemma frame_samples_le: "sr \<le> 48000 \<Longrightarrow> frame_samples sr \<le> 960"
  unfolding frame_samples_def samplesPerChannel_def Let_def by auto

lemma celt_config: "drop_bit 3 b < minCELTConfig \<longleftrightarrow> unat b < 128"
proof -
  have "unat (drop_bit 3 b) = unat b div 8"
    by (simp only: unat_drop_bit_eq) (simp add: drop_bit_eq_div)
  then show ?thesis by (simp only: word_less_nat_alt minCELTConfig_def) (simp, arith)
qed

subsection \<open>Properties of playback\<close>

text \<open>
  C40: Downmix. From a buffer with four bytes for each sample pair it makes a mono buffer of two
  bytes for each, whose \<open>k\<close>-th sample is the mean of the two channels rounded towards zero, with
  no overflow; on a shorter buffer it panics.
\<close>

theorem downmix_mean:
  "(4 * n \<le> length input \<longrightarrow>
     (\<exists>out. downmixStereoS16LEToMono input n = Ret out \<and> length out = 2 * n \<and>
        (\<forall>k < n. sint (sample_at out k) =
           quot2 (sint (sample_at input (2 * k)) + sint (sample_at input (2 * k + 1)))))) \<and>
   (length input < 4 * n \<longrightarrow> downmixStereoS16LEToMono input n = Panics)"
proof (intro conjI impI)
  assume "4 * n \<le> length input"
  then show "\<exists>out. downmixStereoS16LEToMono input n = Ret out \<and> length out = 2 * n \<and>
        (\<forall>k < n. sint (sample_at out k) =
           quot2 (sint (sample_at input (2 * k)) + sint (sample_at input (2 * k + 1))))"
    using downmix_loop_Ret [of 0 n input] by (auto simp: downmixStereoS16LEToMono_def sint_mix)
next
  assume "length input < 4 * n"
  then show "downmixStereoS16LEToMono input n = Panics"
    by (cases n) (simp_all add: downmixStereoS16LEToMono_def downmix_loop_Panics)
qed

theorem downmix_mean_witness:
  "\<exists>out. downmixStereoS16LEToMono [0xFF, 0x7F, 0xFF, 0x7F, 1, 0, 2, 0] 2 = Ret out \<and> length out = 4"
  using conjunct1 [OF downmix_mean [of 2 "[0xFF, 0x7F, 0xFF, 0x7F, 1, 0, 2, 0]"]] by auto

text \<open>
  Playback never brings the server down. With a decoder that respects its output buffer and
  reports an Opus sample rate (at most 48 kHz), \<open>PlayVoiceData\<close> returns on every payload, and
  what it hands to the pipe is nothing or one 20 ms mono frame; it leaves payloads that are empty
  or not CELT, and everything before the speaker is ready, alone.
\<close>

theorem play_voice_data:
  "\<forall>d p out r d' out'. decode d p out = (r, d', out') \<longrightarrow> length out' = length out \<and>
      (\<forall>sr st. r = Decoded sr st \<longrightarrow> sr \<le> 48000) \<Longrightarrow>
   \<exists>s'. PlayVoiceData decode newDecoder speaker_ok payload s = Ret s' \<and>
     (p_written s' = p_written s \<or>
       128 \<le> unat (payload ! 0) \<and> p_ready s' \<and>
       (\<exists>frame n. p_written s' = p_written s @ frame \<and> length frame = 2 * n \<and> n \<le> 960))"
proof -
  assume dec: "\<forall>d p out r d' out'. decode d p out = (r, d', out') \<longrightarrow> length out' = length out \<and>
      (\<forall>sr st. r = Decoded sr st \<longrightarrow> sr \<le> 48000)"
  let ?s1 = "play_init newDecoder speaker_ok s"
  obtain r d out where r: "decode (p_dec ?s1) payload (replicate maxOpusFrameSize 0) = (r, d, out)"
    by (cases "decode (p_dec ?s1) payload (replicate maxOpusFrameSize 0)") auto
  with dec have len: "length out = 11520" and sr: "\<And>sr st. r = Decoded sr st \<Longrightarrow> sr \<le> 48000"
    by (fastforce simp: maxOpusFrameSize_def)+
  have w: "p_written ?s1 = p_written s" by (simp add: play_init_def)
  show ?thesis
  proof (cases "payload = [] \<or> drop_bit 3 (payload ! 0) < minCELTConfig \<or> \<not> p_ready ?s1 \<or> r = DecodeFails")
    case True
    then show ?thesis by (auto simp: PlayVoiceData_def r w Let_def)
  next
    case False
    then obtain n st where r': "r = Decoded n st" by (cases r) auto
    define k where "k = frame_samples n"
    have k: "k \<le> 960" using frame_samples_le [OF sr [OF r']] by (simp add: k_def)
    define pcm where "pcm = (if st then downmixStereoS16LEToMono (take (k * 4) out) k else Ret (take (k * 2) out))"
    have "\<exists>frame. pcm = Ret frame \<and> length frame = 2 * k"
      using downmix_loop_Ret [of 0 k "take (k * 4) out"] k len
      by (auto simp: pcm_def downmixStereoS16LEToMono_def)
    then obtain frame where f: "pcm = Ret frame" "length frame = 2 * k" by blast
    have m: "min (4 * k) (length out) = k * 4" "min (k * 4) (length out) = k * 4"
      "min (k * 2) (length out) = k * 2" "min (2 * k) (length out) = k * 2" using k len by auto
    have "PlayVoiceData decode newDecoder speaker_ok payload s =
        Ret (?s1\<lparr>p_dec := d, p_written := p_written s @ frame\<rparr>)"
      using False f(1)
      by (auto simp: PlayVoiceData_def r r' w Let_def pcm_def m simp flip: k_def split: if_splits)
    moreover have "128 \<le> unat (payload ! 0)" using False by (simp add: celt_config)
    ultimately show ?thesis using False f(2) k by auto
  qed
qed

definition sample_opus :: "unit opus" where
  "sample_opus d p out = (if length p < 2 then DecodeFails else Decoded 48000 (p ! 1 = 1), d, out)"

theorem play_voice_data_witness:
  "\<exists>s'. PlayVoiceData sample_opus () True [0xF8, 1] \<lparr>p_once = False, p_ready = False, p_dec = (), p_written = []\<rparr>
     = Ret s' \<and> length (p_written s') \<le> 1920"
proof -
  have "\<forall>d p out r d' out'. sample_opus d p out = (r, d', out') \<longrightarrow> length out' = length out \<and>
      (\<forall>sr st. r = Decoded sr st \<longrightarrow> sr \<le> 48000)"
    by (simp add: sample_opus_def)
  from play_voice_data [OF this, of "()" True "[0xF8, 1]"
      "\<lparr>p_once = False, p_ready = False, p_dec = (), p_written = []\<rparr>"]
  show ?thesis by auto
qed

subsection \<open>Properties of the stream\<close>

definition pcm_inv :: "pcm_stream \<Rightarrow> bool" where
  "pcm_inv s \<longleftrightarrow> s_pos s \<le> s_len s \<and> s_len s \<le> length (s_buf s)"

definition unread :: "pcm_stream \<Rightarrow> byte list" where
  "unread s = drop (s_pos s) (take (s_len s) (s_buf s))"

lemma length_unread: "pcm_inv s \<Longrightarrow> length (unread s) = s_len s - s_pos s"
  by (simp add: pcm_inv_def unread_def)

lemma pcm_refill_reads:
  assumes inv: "pcm_inv s" and "0 < width"
    and room: "length bs \<le> length (s_buf s) - (s_len s - s_pos s)"
  obtains s' where "pcm_refill width (ReadBytes bs) s = (True, s')" and "pcm_inv s'"
    and "unread s' = unread s @ (if s_len s - s_pos s < width then bs else [])"
proof (cases "s_len s - s_pos s < width")
  case True
  define size where "size = s_len s - s_pos s"
  define buf where "buf = (if size \<noteq> 0 then go_copy (s_buf s) (take size (drop (s_pos s) (s_buf s))) else s_buf s)"
  have size: "size \<le> length (s_buf s)" using inv by (auto simp: size_def pcm_inv_def)
  have un: "unread s = take size (drop (s_pos s) (s_buf s))"
    by (simp add: unread_def size_def drop_take)
  have len: "length buf = length (s_buf s)" by (simp add: buf_def)
  have "length (unread s) = size" by (simp add: length_unread [OF inv] size_def)
  then have tb: "take size buf = unread s"
    using size by (auto simp: buf_def go_copy_def simp flip: un)
  let ?s = "\<lparr>s_buf = take size buf @ go_copy (drop size buf) bs, s_len = size + length bs, s_pos = 0,
     s_err = s_err s\<rparr>"
  have "pcm_refill width (ReadBytes bs) s = (True, ?s)"
    using True by (simp add: pcm_refill_def Let_def size_def [symmetric] buf_def)
  have res: "pcm_refill width (ReadBytes bs) s = (True, ?s)" by fact
  have "take (length bs) (go_copy (drop size buf) bs) = bs"
    using room len size by (simp add: go_copy_def size_def [symmetric])
  moreover have "unread ?s = take size buf @ take (length bs) (go_copy (drop size buf) bs)"
    using size len by (simp add: unread_def)
  ultimately have "unread ?s = unread s @ bs" by (simp add: tb)
  moreover have "pcm_inv ?s" using room size len by (simp add: pcm_inv_def size_def [symmetric])
  ultimately show ?thesis using that [of ?s] res True by simp
next
  case False
  then show ?thesis using that [of s] inv by (simp add: pcm_refill_def Let_def)
qed

lemma pcm_decode_spec:
  assumes "pcm_inv s" and "0 < width" and dec: "\<And>bs. dec (take width bs) = dec bs"
  shows "\<exists>xs s'. pcm_decode width dec k s = (xs, s') \<and> pcm_inv s' \<and>
     length xs = min k (length (unread s) div width) \<and>
     (\<forall>i < length xs. xs ! i = dec (take width (drop (i * width) (unread s)))) \<and>
     unread s' = drop (length xs * width) (unread s) \<and> s_buf s' = s_buf s"
  using assms(1)
proof (induction k arbitrary: s)
  case (Suc k)
  show ?case
  proof (cases "width \<le> s_len s - s_pos s")
    case True
    let ?t = "s\<lparr>s_pos := s_pos s + width\<rparr>"
    have inv: "pcm_inv ?t" using True Suc.prems by (auto simp: pcm_inv_def)
    have un: "unread ?t = drop width (unread s)" by (simp add: unread_def add.commute)
    from Suc.IH [OF inv] obtain xs s' where IH: "pcm_decode width dec k ?t = (xs, s')" "pcm_inv s'"
      "length xs = min k (length (unread ?t) div width)"
      "\<forall>i < length xs. xs ! i = dec (take width (drop (i * width) (unread ?t)))"
      "unread s' = drop (length xs * width) (unread ?t)" "s_buf s' = s_buf ?t" by blast
    define x where "x = dec (drop (s_pos s) (s_buf s))"
    have "take width (unread s) = take width (drop (s_pos s) (s_buf s))"
      using True by (simp add: unread_def drop_take)
    then have x: "x = dec (take width (unread s))" by (simp add: x_def dec)
    have step: "pcm_decode width dec (Suc k) s = (x # xs, s')"
      using True IH(1) by (simp add: x_def Let_def)
    have "length (unread s) = width + length (unread ?t)"
      using True by (simp add: un length_unread [OF Suc.prems])
    then have "length (x # xs) = min (Suc k) (length (unread s) div width)"
      using IH(3) \<open>0 < width\<close> by (simp add: div_add_self1 del: min_Suc2)
    moreover have "(x # xs) ! i = dec (take width (drop (i * width) (unread s)))" if "i < length (x # xs)" for i
      using that IH(4) [unfolded un] x by (cases i) (auto simp: add.commute)
    moreover have "unread s' = drop (length (x # xs) * width) (unread s)"
      using IH(5) [unfolded un] by (simp add: add.commute)
    ultimately show ?thesis using step IH(2,6) by auto
  next
    case False
    then have "length (unread s) div width = 0" by (simp add: length_unread [OF Suc.prems])
    with False Suc.prems show ?thesis by simp
  qed
qed simp

text \<open>
  One call of the stream loses, repeats and reorders nothing. The bytes not yet played, followed by those
  the refill reads from the pipe, are cut into samples of the frame width in order; as many are
  delivered as the caller has room for and the bytes suffice for, and the others stay unread.
\<close>

theorem pcm_stream_lossless:
  "pcm_inv s \<Longrightarrow> 0 < width \<Longrightarrow> \<forall>bs. dec (take width bs) = dec bs \<Longrightarrow>
   length bs \<le> length (s_buf s) - length (unread s) \<Longrightarrow>
   \<exists>xs s' input. pcm_Stream width dec room (ReadBytes bs) s = (xs, True, s') \<and> pcm_inv s' \<and>
     input = unread s @ (if length (unread s) < width then bs else []) \<and>
     length xs = min room (length input div width) \<and>
     (\<forall>i < length xs. xs ! i = dec (take width (drop (i * width) input))) \<and>
     unread s' = drop (length xs * width) input"
proof -
  assume inv: "pcm_inv s" and w: "0 < width" and dec: "\<forall>bs. dec (take width bs) = dec bs"
    and len: "length bs \<le> length (s_buf s) - length (unread s)"
  have "length bs \<le> length (s_buf s) - (s_len s - s_pos s)" using len by (simp add: length_unread [OF inv])
  from pcm_refill_reads [OF inv w this] obtain t where t: "pcm_refill width (ReadBytes bs) s = (True, t)"
    "pcm_inv t" "unread t = unread s @ (if length (unread s) < width then bs else [])"
    by (auto simp: length_unread [OF inv])
  have dec': "\<And>bs. dec (take width bs) = dec bs" using dec by blast
  from pcm_decode_spec [of t width dec room, OF t(2) w dec'] show ?thesis
    unfolding pcm_Stream_def t(1) t(3) [symmetric] by (auto simp: Let_def)
qed

theorem pcm_stream_lossless_witness:
  "\<exists>s'. pcm_Stream 2 (take 2) 1 (ReadBytes [2, 3, 4])
      \<lparr>s_buf = [9, 1, 0, 0, 0, 0], s_len = 2, s_pos = 1, s_err = False\<rparr> = ([[1, 2]], True, s') \<and>
     unread s' = [3, 4 :: byte]"
proof -
  let ?s = "\<lparr>s_buf = [9, 1, 0, 0, 0, 0 :: byte], s_len = 2, s_pos = 1, s_err = False\<rparr>"
  have un: "unread ?s = [1]" by (simp add: unread_def)
  have "pcm_inv ?s" and "\<forall>bs. take 2 (take 2 bs) = take 2 (bs :: byte list)"
    and "length [2, 3, 4 :: byte] \<le> length (s_buf ?s) - length (unread ?s)"
    by (simp_all only: un) (simp_all add: pcm_inv_def)
  from pcm_stream_lossless [OF this(1) _ this(2,3), of 1] obtain xs s' where
    r: "pcm_Stream 2 (take 2) 1 (ReadBytes [2, 3, 4]) ?s = (xs, True, s')"
    and l: "length xs = 1" and x: "xs ! 0 = [1, 2]" and u: "unread s' = [3, 4]"
    unfolding un by auto
  then have "xs = [[1, 2]]" by (cases xs) auto
  with r u show ?thesis by blast
qed

subsection \<open>Playback through the pipe\<close>

text \<open>
  The reader is the end of an \<^verbatim>\<open>io.Pipe\<close>: a read copies from the oldest write that waits, which waits on
  with its remainder; without a write the read waits.
\<close>

fun pipe_read :: "nat \<Rightarrow> byte list list \<Rightarrow> (byte list \<times> byte list list) option" where
  "pipe_read k [] = None"
| "pipe_read k (c # cs) = Some (take k c, if length c \<le> k then cs else drop k c # cs)"

text \<open>The calls of the sound card, each with the room it has, until one waits for more bytes.\<close>

fun pcm_plays ::
    "nat \<Rightarrow> (byte list \<Rightarrow> 's) \<Rightarrow> nat list \<Rightarrow> byte list list \<Rightarrow> pcm_stream \<Rightarrow> 's list \<times> byte list list \<times> pcm_stream" where
  "pcm_plays width dec [] ws s = ([], ws, s)"
| "pcm_plays width dec (room # rooms) ws s =
     (case (if width \<le> s_len s - s_pos s then Some ([], ws)
            else pipe_read (length (s_buf s) - (s_len s - s_pos s)) ws) of
        None \<Rightarrow> ([], ws, s)
      | Some (bs, ws1) \<Rightarrow>
          let (xs, _, s1) = pcm_Stream width dec room (ReadBytes bs) s;
              (ys, ws2, s2) = pcm_plays width dec rooms ws1 s1
          in (xs @ ys, ws2, s2))"

definition to_play :: "byte list list \<Rightarrow> pcm_stream \<Rightarrow> byte list" where
  "to_play ws s = unread s @ concat ws"

lemma pipe_read_bytes: "pipe_read k ws = Some (bs, ws1) \<Longrightarrow> bs @ concat ws1 = concat ws \<and> length bs \<le> k"
  by (cases ws) (auto split: if_splits)

lemma pipe_read_progress: "pipe_read k ws = Some (bs, ws1) \<Longrightarrow> length ws1 < length ws \<or> ws1 \<noteq> [] \<and> length bs = k"
  by (cases ws) (auto split: if_splits)

lemma pcm_Stream_buf: "length (s_buf (snd (snd (pcm_Stream width dec room rd s)))) = length (s_buf s)"
proof -
  have "length (s_buf (snd (pcm_decode width dec k t))) = length (s_buf t)" for k and t :: pcm_stream
    by (induction k arbitrary: t) (simp_all add: Let_def split_beta)
  moreover have "length (s_buf (snd (pcm_refill width rd s))) = length (s_buf s)"
    by (auto simp: pcm_refill_def Let_def min_def split: read_result.split)
  ultimately show ?thesis by (simp add: pcm_Stream_def Let_def split_beta)
qed

text \<open>One call of the sound card that gets its bytes.\<close>

lemma pcm_play_call:
  assumes inv: "pcm_inv s" and w: "0 < width" and dec: "\<forall>bs. dec (take width bs) = dec bs"
    and rd: "(if width \<le> s_len s - s_pos s then Some ([], ws)
              else pipe_read (length (s_buf s) - (s_len s - s_pos s)) ws) = Some (bs, ws1)"
  obtains xs s1 where "pcm_Stream width dec room (ReadBytes bs) s = (xs, True, s1)" and "pcm_inv s1"
    and "length (s_buf s1) = length (s_buf s)"
    and "length xs * width \<le> length (to_play ws s)"
    and "\<forall>i < length xs. xs ! i = dec (take width (drop (i * width) (to_play ws s)))"
    and "to_play ws1 s1 = drop (length xs * width) (to_play ws s)"
    and "length xs = min room (length (unread s @ bs) div width)"
proof -
  have bs: "bs @ concat ws1 = concat ws" "length bs \<le> length (s_buf s) - length (unread s)"
    and new: "(if length (unread s) < width then bs else []) = bs"
    using rd pipe_read_bytes [of _ ws bs ws1] by (auto simp: length_unread [OF inv] split: if_splits)
  from pcm_stream_lossless [OF inv w dec bs(2), of room] obtain xs s1 where
    r: "pcm_Stream width dec room (ReadBytes bs) s = (xs, True, s1)" "pcm_inv s1"
    and l: "length xs = min room (length (unread s @ bs) div width)"
    and x: "\<forall>i < length xs. xs ! i = dec (take width (drop (i * width) (unread s @ bs)))"
    and u: "unread s1 = drop (length xs * width) (unread s @ bs)" unfolding new by blast
  have le: "length xs * width \<le> length (unread s @ bs)"
    using l by (metis div_times_less_eq_dividend min.cobounded2 mult_le_mono1 order_trans)
  have whole: "to_play ws s = (unread s @ bs) @ concat ws1" using bs(1) by (simp add: to_play_def)
  have "take width (drop (i * width) (to_play ws s)) = take width (drop (i * width) (unread s @ bs))"
    if "i < length xs" for i
  proof -
    have "i * width + width \<le> length xs * width" using that by (metis Suc_leI add.commute mult_Suc mult_le_mono1)
    with le show ?thesis unfolding whole by (simp add: drop_append take_append)
  qed
  with x have "\<forall>i < length xs. xs ! i = dec (take width (drop (i * width) (to_play ws s)))" by simp
  moreover have "to_play ws1 s1 = drop (length xs * width) (to_play ws s)"
  proof -
    have "to_play ws1 s1 = drop (length xs * width) (unread s @ bs) @ concat ws1" by (simp add: to_play_def u)
    also have "\<dots> = drop (length xs * width) (to_play ws s)" using le unfolding whole by simp
    finally show ?thesis .
  qed
  moreover have "length xs * width \<le> length (to_play ws s)" using le unfolding whole by simp
  moreover have "length (s_buf s1) = length (s_buf s)" using pcm_Stream_buf [of width dec room "ReadBytes bs" s] r(1) by simp
  ultimately show ?thesis using that r l by blast
qed

lemma pcm_plays_order:
  assumes w: "0 < width" and dec: "\<forall>bs. dec (take width bs) = dec bs"
  shows "pcm_inv s \<Longrightarrow> pcm_plays width dec rooms ws s = (xs, ws', s') \<Longrightarrow>
     length xs * width \<le> length (to_play ws s) \<and>
     (\<forall>i < length xs. xs ! i = dec (take width (drop (i * width) (to_play ws s)))) \<and>
     to_play ws' s' = drop (length xs * width) (to_play ws s)"
proof (induction rooms arbitrary: ws s xs)
  case (Cons room rooms)
  let ?rd = "if width \<le> s_len s - s_pos s then Some ([], ws)
    else pipe_read (length (s_buf s) - (s_len s - s_pos s)) ws"
  show ?case
  proof (cases ?rd)
    case None
    with Cons.prems(2) show ?thesis by simp
  next
    case (Some p)
    obtain bs ws1 where "p = (bs, ws1)" by (cases p)
    with Some have rd: "?rd = Some (bs, ws1)" by simp
    from pcm_play_call [OF Cons.prems(1) w dec rd, of room] obtain xs1 s1 where
      one: "pcm_Stream width dec room (ReadBytes bs) s = (xs1, True, s1)" "pcm_inv s1"
      and l1: "length xs1 * width \<le> length (to_play ws s)"
      and x1: "\<forall>i < length xs1. xs1 ! i = dec (take width (drop (i * width) (to_play ws s)))"
      and rest: "to_play ws1 s1 = drop (length xs1 * width) (to_play ws s)" by blast
    from Cons.prems(2) rd one(1) obtain ys where
      more: "pcm_plays width dec rooms ws1 s1 = (ys, ws', s')" and xs: "xs = xs1 @ ys"
      by (auto simp: Let_def split: prod.splits)
    note IH = Cons.IH [OF one(2) more, unfolded rest]
    have "xs ! i = dec (take width (drop (i * width) (to_play ws s)))" if "i < length xs" for i
    proof (cases "i < length xs1")
      case True
      with x1 show ?thesis by (simp add: xs nth_append)
    next
      case False
      then obtain j where i: "i = length xs1 + j" by (metis le_add_diff_inverse not_less)
      with that IH show ?thesis by (simp add: xs nth_append add_mult_distrib add.commute)
    qed
    moreover have "length xs * width \<le> length (to_play ws s)" using l1 conjunct1 [OF IH] by (simp add: xs add_mult_distrib)
    moreover have "to_play ws' s' = drop (length xs * width) (to_play ws s)"
      using IH by (simp add: xs add_mult_distrib add.commute)
    ultimately show ?thesis by blast
  qed
qed simp

text \<open>Each call plays a sample or takes up a write, until what is left makes no sample.\<close>

lemma pcm_plays_all:
  assumes w: "0 < width" and dec: "\<forall>bs. dec (take width bs) = dec bs"
  shows "pcm_inv s \<Longrightarrow> \<forall>r\<in>set rooms. 0 < r \<Longrightarrow> width \<le> length (s_buf s) \<Longrightarrow>
     length (to_play ws s) + length ws \<le> length rooms \<Longrightarrow>
     pcm_plays width dec rooms ws s = (xs, ws', s') \<Longrightarrow> length (to_play ws' s') < width"
proof (induction rooms arbitrary: ws s xs)
  case (Cons room rooms)
  let ?rd = "if width \<le> s_len s - s_pos s then Some ([], ws)
    else pipe_read (length (s_buf s) - (s_len s - s_pos s)) ws"
  show ?case
  proof (cases ?rd)
    case None
    then have "ws = []" "s_len s - s_pos s < width" by (cases ws; simp split: if_splits)+
    with Cons.prems show ?thesis by (simp add: length_unread to_play_def)
  next
    case (Some p)
    obtain bs ws1 where "p = (bs, ws1)" by (cases p)
    with Some have rd: "?rd = Some (bs, ws1)" by simp
    from pcm_play_call [OF Cons.prems(1) w dec rd, of room] obtain xs1 s1 where
      one: "pcm_Stream width dec room (ReadBytes bs) s = (xs1, True, s1)" "pcm_inv s1"
      and buf: "length (s_buf s1) = length (s_buf s)"
      and l1: "length xs1 * width \<le> length (to_play ws s)"
      and rest: "to_play ws1 s1 = drop (length xs1 * width) (to_play ws s)"
      and n: "length xs1 = min room (length (unread s @ bs) div width)" by blast
    from Cons.prems(5) rd one(1) obtain ys where
      more: "pcm_plays width dec rooms ws1 s1 = (ys, ws', s')" by (auto simp: Let_def split: prod.splits)
    have "length ws1 < length ws \<or> length ws1 \<le> length ws \<and> width \<le> length (unread s @ bs)"
    proof (cases "width \<le> s_len s - s_pos s")
      case True
      with rd show ?thesis by (auto simp: length_unread [OF Cons.prems(1)])
    next
      case False
      with rd have p: "pipe_read (length (s_buf s) - (s_len s - s_pos s)) ws = Some (bs, ws1)" by simp
      then have "length ws1 \<le> length ws" by (cases ws) (auto split: if_splits)
      with pipe_read_progress [OF p] Cons.prems(3) False show ?thesis
        by (auto simp: length_unread [OF Cons.prems(1)])
    qed
    moreover have "0 < length xs1" if "width \<le> length (unread s @ bs)"
      using that n w Cons.prems(2) by (simp add: div_greater_zero_iff)
    ultimately have "length ws1 < length ws \<or> length ws1 \<le> length ws \<and> 0 < length xs1 * width"
      using w by auto
    moreover have "length (to_play ws1 s1) = length (to_play ws s) - length xs1 * width" by (simp add: rest)
    ultimately have "length (to_play ws1 s1) + length ws1 < length (to_play ws s) + length ws" using l1 by linarith
    with Cons.prems(4) have "length (to_play ws1 s1) + length ws1 \<le> length rooms" by simp
    from Cons.IH [OF one(2) _ _ this more] Cons.prems(2,3) buf show ?thesis by simp
  qed
qed (use w in simp)

text \<open>
  C33: Playback loses, repeats and reorders nothing. However the decoded bytes were split into writes,
  and whatever room the sound card has at each call, the samples it gets are the decodings of the
  successive frames of those bytes, and the bytes not played wait in order in the buffer and the pipe.
  With enough calls, each with room for a sample, all whole frames are played.
\<close>

theorem pcm_playback_lossless:
  "pcm_inv s \<Longrightarrow> 0 < width \<Longrightarrow> \<forall>bs. dec (take width bs) = dec bs \<Longrightarrow>
   pcm_plays width dec rooms ws s = (xs, ws', s') \<Longrightarrow>
   xs = map (\<lambda>i. dec (take width (drop (i * width) (to_play ws s)))) [0..<length xs] \<and>
   to_play ws' s' = drop (length xs * width) (to_play ws s) \<and>
   length xs \<le> length (to_play ws s) div width \<and>
   (width \<le> length (s_buf s) \<and> (\<forall>r\<in>set rooms. 0 < r) \<and> length (to_play ws s) + length ws \<le> length rooms \<longrightarrow>
     length xs = length (to_play ws s) div width)"
proof -
  assume inv: "pcm_inv s" and w: "0 < width" and dec: "\<forall>bs. dec (take width bs) = dec bs"
    and r: "pcm_plays width dec rooms ws s = (xs, ws', s')"
  note order = pcm_plays_order [OF w dec inv r]
  then have le: "length xs \<le> length (to_play ws s) div width" using w by (simp add: less_eq_div_iff_mult_less_eq)
  have "length xs = length (to_play ws s) div width"
    if "width \<le> length (s_buf s)" "\<forall>r\<in>set rooms. 0 < r" "length (to_play ws s) + length ws \<le> length rooms"
  proof -
    have "length (to_play ws' s') < width" by (rule pcm_plays_all [OF w dec inv that(2,1,3) r])
    with order have "length (to_play ws s) - length xs * width < width" by simp
    with order w show ?thesis
      by (intro div_nat_eqI [symmetric]) (simp_all add: mult.commute)
  qed
  moreover have "xs = map (\<lambda>i. dec (take width (drop (i * width) (to_play ws s)))) [0..<length xs]"
    using order by (intro nth_equalityI) simp_all
  ultimately show ?thesis using order le by blast
qed

theorem pcm_playback_lossless_witness:
  "fst (pcm_plays 2 (take 2) [1, 1, 4, 4, 4, 4, 4, 4, 4, 4] [[1, 2, 3 :: byte], [4, 5]]
      \<lparr>s_buf = [0, 0, 0, 0], s_len = 0, s_pos = 0, s_err = False\<rparr>) = [[1, 2], [3, 4]]"
proof -
  let ?s = "\<lparr>s_buf = [0, 0, 0, 0 :: byte], s_len = 0, s_pos = 0, s_err = False\<rparr>"
  obtain xs ws' s' where r: "pcm_plays 2 (take 2) [1, 1, 4, 4, 4, 4, 4, 4, 4, 4] [[1, 2, 3], [4, 5]] ?s = (xs, ws', s')"
    by (metis surj_pair)
  have "pcm_inv ?s" "unread ?s = []" by (simp_all add: pcm_inv_def unread_def)
  with pcm_playback_lossless [OF this(1) _ _ r] have "length xs = 2"
    and "xs = map (\<lambda>i. take 2 (take 2 (drop (i * 2) [1, 2, 3, 4, 5]))) [0..<length xs]" by (auto simp: to_play_def)
  then have "xs = [[1, 2], [3, 4]]" by (simp add: upt_rec)
  with r show ?thesis by simp
qed

end
