(* ===== verification/Tokens.thy ===== *)
theory Tokens
  imports Settings
begin

text \<open>
  Session tokens, \<^verbatim>\<open>utils/auth.go\<close> and \<^verbatim>\<open>utils/general.go\<close>: the roles, the ECDSA key pair that is
  loaded or generated once and cached in two package variables, the issue of a JWT and its check.
  The elliptic-curve, PEM, JWT and bcrypt libraries are parameters.
\<close>

subsection \<open>Roles\<close>

definition GuestRole :: u8 where "GuestRole = 0"
definition MemberRole :: u8 where "MemberRole = 1"
definition OfficerRole :: u8 where "OfficerRole = 2"
definition AdminRole :: u8 where "AdminRole = 3"

definition SrsServiceMinimumRoleMap :: "string \<rightharpoonup> u8" where
  "SrsServiceMinimumRoleMap = [''UpdateClientInfo'' \<mapsto> GuestRole, ''UpdateRadioInfo'' \<mapsto> GuestRole,
     ''SyncClient'' \<mapsto> GuestRole, ''Disconnect'' \<mapsto> GuestRole, ''GetServerSettings'' \<mapsto> GuestRole,
     ''SubscribeToUpdates'' \<mapsto> GuestRole]"

definition SrsRoleNameMap :: "u8 \<rightharpoonup> string" where
  "SrsRoleNameMap = [GuestRole \<mapsto> ''Guest'', MemberRole \<mapsto> ''Member'', OfficerRole \<mapsto> ''Officer'',
     AdminRole \<mapsto> ''Admin'']"

text \<open>Reading a Go map at an absent key gives the zero value.\<close>

definition minimum_role :: "string \<Rightarrow> u8" where
  "minimum_role m = (case SrsServiceMinimumRoleMap m of Some r \<Rightarrow> r | None \<Rightarrow> 0)"

definition role_name :: "u8 \<Rightarrow> string" where
  "role_name r = (case SrsRoleNameMap r of Some n \<Rightarrow> n | None \<Rightarrow> [])"

subsection \<open>The libraries\<close>

text \<open>
  A P-256 private key is a scalar, a public key a point. \<open>pem_decode\<close> is \<open>None\<close> where the library
  returns a \<open>nil\<close> block; the public key in a PKIX block may be of another algorithm.
\<close>

type_synonym private_key = nat
type_synonym public_key = "nat \<times> nat"

datatype pkix_key = ECDSAKey public_key | OtherKey

record token_claims =
  tk_ClientGuid :: string
  tk_RoleId :: u8
  tk_Issuer :: string
  tk_Subject :: string
  tk_ExpiresAt :: time
  tk_IssuedAt :: time
  tk_ID :: string

text \<open>
  The claims of a parsed token are a map to JSON values. \<open>JNum n\<close> is a number with integral part
  \<open>n\<close>; a conversion to \<open>uint8\<close> of a number out of range is up to the implementation of Go
  (\<open>jwt_oor\<close>).
\<close>

datatype jwt_value = JStr string | JNum int | JOther
datatype sign_method = SigningMethodECDSA | OtherMethod

record crypto_lib =
  ec_fresh :: "private_key option"
  ec_public :: "private_key \<Rightarrow> public_key"
  x509_encode_priv :: "private_key \<Rightarrow> string option"
  x509_encode_pub :: "public_key \<Rightarrow> string option"
  x509_parse_priv :: "string \<Rightarrow> private_key option"
  x509_parse_pub :: "string \<Rightarrow> pkix_key option"
  pem_encode :: "string \<Rightarrow> string \<Rightarrow> string"
  pem_decode :: "string \<Rightarrow> string option"
  jwt_date :: "time \<Rightarrow> time"
  jwt_sign :: "private_key \<Rightarrow> token_claims \<Rightarrow> string option"
  jwt_method :: "string \<Rightarrow> sign_method option"
  jwt_verify :: "public_key \<Rightarrow> time \<Rightarrow> string \<Rightarrow> (string \<rightharpoonup> jwt_value) option"
  jwt_oor :: "int \<Rightarrow> u8"

text \<open>
  The documented behaviour: encodings are inverted by the parsers; dates are truncated to the
  second; a signed token is an ECDSA token and verifies under the public key, with its claims,
  until it expires and no longer.
\<close>

definition crypto_lib_ok :: "crypto_lib \<Rightarrow> bool" where
  "crypto_lib_ok C \<longleftrightarrow>
     (\<forall>k der. x509_encode_priv C k = Some der \<longrightarrow> x509_parse_priv C der = Some k) \<and>
     (\<forall>p der. x509_encode_pub C p = Some der \<longrightarrow> x509_parse_pub C der = Some (ECDSAKey p)) \<and>
     (\<forall>ty der. pem_decode C (pem_encode C ty der) = Some der) \<and>
     (\<forall>t. jwt_date C t \<le> t \<and> t < jwt_date C t + second) \<and>
     (\<forall>k c s. jwt_sign C k c = Some s \<longrightarrow> jwt_method C s = Some SigningMethodECDSA \<and>
        (\<forall>t. (t < tk_ExpiresAt c \<longrightarrow> (\<exists>m. jwt_verify C (ec_public C k) t s = Some m \<and>
                m ''client_guid'' = Some (JStr (tk_ClientGuid c)) \<and>
                m ''role_id'' = Some (JNum (uint (tk_RoleId c))))) \<and>
             (tk_ExpiresAt c \<le> t \<longrightarrow> jwt_verify C (ec_public C k) t s = None)))"

subsection \<open>Keys\<close>

datatype token_error = KeyError | SignError | ParseError | InsufficientRole u8 u8

type_synonym key_pair = "private_key \<times> public_key"

text \<open>The two package variables, assigned together, and the files.\<close>

record key_store =
  cached :: "key_pair option"
  key_fs :: file_system

definition encode_keys :: "crypto_lib \<Rightarrow> private_key \<Rightarrow> public_key \<Rightarrow> (string \<times> string) option" where
  "encode_keys C privateKey publicKey =
     (case x509_encode_priv C privateKey of None \<Rightarrow> None
      | Some x \<Rightarrow>
          (case x509_encode_pub C publicKey of None \<Rightarrow> None
           | Some xp \<Rightarrow> Some (pem_encode C ''PRIVATE KEY'' x, pem_encode C ''PUBLIC KEY'' xp)))"

text \<open>\<open>block.Bytes\<close> of a \<open>nil\<close> block panics, and so does the assertion on a foreign public key.\<close>

definition decode_keys :: "crypto_lib \<Rightarrow> string \<Rightarrow> string \<Rightarrow> (token_error + key_pair) outcome" where
  "decode_keys C pemEncoded pemEncodedPub =
     (case pem_decode C pemEncoded of
        None \<Rightarrow> Panics
      | Some x \<Rightarrow>
          (case x509_parse_priv C x of
             None \<Rightarrow> Ret (Inl KeyError)
           | Some priv \<Rightarrow>
               (case pem_decode C pemEncodedPub of
                  None \<Rightarrow> Panics
                | Some xp \<Rightarrow>
                    (case x509_parse_pub C xp of
                       None \<Rightarrow> Ret (Inl KeyError)
                     | Some OtherKey \<Rightarrow> Panics
                     | Some (ECDSAKey pub) \<Rightarrow> Ret (Inr (priv, pub))))))"

definition loadKeyFromFile ::
    "crypto_lib \<Rightarrow> string \<Rightarrow> string \<Rightarrow> file_system \<Rightarrow> (token_error + key_pair) outcome" where
  "loadKeyFromFile C privateKeyFile publicKeyFile fs =
     (if os_Stat privateKeyFile fs \<noteq> Some ErrNotExist \<and> os_Stat publicKeyFile fs \<noteq> Some ErrNotExist
      then (case os_ReadFile privateKeyFile fs of
              Inl _ \<Rightarrow> Ret (Inl KeyError)
            | Inr pemEncoded \<Rightarrow>
                (case os_ReadFile publicKeyFile fs of
                   Inl _ \<Rightarrow> Ret (Inl KeyError)
                 | Inr pemEncodedPub \<Rightarrow> decode_keys C pemEncoded pemEncodedPub))
      else Ret (Inl KeyError))"

definition generateKey ::
    "crypto_lib \<Rightarrow> string \<Rightarrow> string \<Rightarrow> file_system \<Rightarrow> ((token_error + key_pair) \<times> file_system) outcome" where
  "generateKey C privateKeyFile publicKeyFile fs =
     bind_outcome (loadKeyFromFile C privateKeyFile publicKeyFile fs) (\<lambda>loaded.
       case loaded of
         Inr kp \<Rightarrow> Ret (Inr kp, fs)
       | Inl _ \<Rightarrow>
           (case ec_fresh C of
              None \<Rightarrow> Ret (Inl KeyError, fs)
            | Some priv \<Rightarrow>
                let pub = ec_public C priv in
                (case encode_keys C priv pub of
                   None \<Rightarrow> Ret (Inl KeyError, fs)
                 | Some (pemEncoded, pemEncodedPub) \<Rightarrow>
                     let privW = os_WriteFile privateKeyFile pemEncoded fs;
                         fs1 = (case privW of Inl _ \<Rightarrow> fs | Inr f \<Rightarrow> f);
                         pubW = os_WriteFile publicKeyFile pemEncodedPub fs1;
                         fs2 = (case pubW of Inl _ \<Rightarrow> fs1 | Inr f \<Rightarrow> f)
                     in (case (privW, pubW) of
                           (Inr _, Inr _) \<Rightarrow> Ret (Inr (priv, pub), fs2)
                         | _ \<Rightarrow> Ret (Inl KeyError, fs2)))))"

definition getKeys ::
    "crypto_lib \<Rightarrow> string \<Rightarrow> string \<Rightarrow> key_store \<Rightarrow> ((token_error + key_pair) \<times> key_store) outcome" where
  "getKeys C privateKeyFile publicKeyFile ks =
     (case cached ks of
        Some kp \<Rightarrow> Ret (Inr kp, ks)
      | None \<Rightarrow>
          bind_outcome (generateKey C privateKeyFile publicKeyFile (key_fs ks)) (\<lambda>(r, fs).
            case r of
              Inl e \<Rightarrow> Ret (Inl e, ks\<lparr>key_fs := fs\<rparr>)
            | Inr kp \<Rightarrow> Ret (Inr kp, ks\<lparr>cached := Some kp, key_fs := fs\<rparr>)))"

subsection \<open>Tokens\<close>

definition GenerateToken ::
    "crypto_lib \<Rightarrow> time \<Rightarrow> string \<Rightarrow> u8 \<Rightarrow> string \<Rightarrow> string \<Rightarrow> duration \<Rightarrow> string \<Rightarrow> string \<Rightarrow> key_store \<Rightarrow>
     ((token_error + string) \<times> key_store) outcome" where
  "GenerateToken C now clientGuid roleId issuer subject expiration privateKeyFile publicKeyFile ks =
     bind_outcome (getKeys C privateKeyFile publicKeyFile ks) (\<lambda>(r, ks').
       case r of
         Inl e \<Rightarrow> Ret (Inl e, ks')
       | Inr (key, _) \<Rightarrow>
           (case jwt_sign C key
               \<lparr>tk_ClientGuid = clientGuid, tk_RoleId = roleId, tk_Issuer = issuer, tk_Subject = subject,
                tk_ExpiresAt = jwt_date C (now + expiration), tk_IssuedAt = jwt_date C now,
                tk_ID = clientGuid\<rparr> of
              None \<Rightarrow> Ret (Inl SignError, ks')
            | Some tokenS \<Rightarrow> Ret (Inr tokenS, ks')))"

text \<open>Only the client and the role of the claims are kept.\<close>

type_synonym session = "string \<times> u8"

definition num_to_u8 :: "crypto_lib \<Rightarrow> int \<Rightarrow> u8" where
  "num_to_u8 C n = (if 0 \<le> n \<and> n < 256 then word_of_int n else jwt_oor C n)"

definition getJWTClaims ::
    "crypto_lib \<Rightarrow> time \<Rightarrow> string \<Rightarrow> string \<Rightarrow> string \<Rightarrow> key_store \<Rightarrow>
     ((token_error + session) \<times> key_store) outcome" where
  "getJWTClaims C now tokenString privateKeyFile publicKeyFile ks =
     bind_outcome (getKeys C privateKeyFile publicKeyFile ks) (\<lambda>(r, ks').
       case r of
         Inl e \<Rightarrow> Ret (Inl e, ks')
       | Inr (_, publicKey) \<Rightarrow>
           (case jwt_method C tokenString of
              None \<Rightarrow> Ret (Inl ParseError, ks')
            | Some OtherMethod \<Rightarrow> Ret (Inl ParseError, ks')
            | Some SigningMethodECDSA \<Rightarrow>
                (case jwt_verify C publicKey now tokenString of
                   None \<Rightarrow> Ret (Inl ParseError, ks')
                 | Some claims \<Rightarrow>
                     (case (claims ''client_guid'', claims ''role_id'') of
                        (Some (JStr guid), Some (JNum n)) \<Rightarrow> Ret (Inr (guid, num_to_u8 C n), ks')
                      | _ \<Rightarrow> Panics))))"

definition GetTokenClaims ::
    "crypto_lib \<Rightarrow> time \<Rightarrow> string \<Rightarrow> u8 \<Rightarrow> string \<Rightarrow> string \<Rightarrow> key_store \<Rightarrow>
     ((token_error + session) \<times> key_store) outcome" where
  "GetTokenClaims C now tokenString minRole privateKeyFile publicKeyFile ks =
     bind_outcome (getJWTClaims C now tokenString privateKeyFile publicKeyFile ks) (\<lambda>(r, ks').
       case r of
         Inl e \<Rightarrow> Ret (Inl e, ks')
       | Inr (guid, role) \<Rightarrow>
           if role < minRole then Ret (Inl (InsufficientRole role minRole), ks')
           else Ret (Inr (guid, role), ks'))"

subsection \<open>Passwords\<close>

text \<open>
  \<open>bcrypt\<close> draws a fresh salt at each call, so the argument is the function of this one call
  (\<open>None\<close> where it returns an error, as it does for more than 72 bytes).
\<close>

definition HashPassword :: "(string \<Rightarrow> string option) \<Rightarrow> string \<Rightarrow> string" where
  "HashPassword bcrypt password = (case bcrypt password of None \<Rightarrow> [] | Some hash \<Rightarrow> hash)"

subsection \<open>Lemmas\<close>

lemma crypto_lib_okD:
  assumes "crypto_lib_ok C"
  shows "x509_encode_priv C k = Some der \<Longrightarrow> x509_parse_priv C der = Some k"
    and "x509_encode_pub C p = Some der \<Longrightarrow> x509_parse_pub C der = Some (ECDSAKey p)"
    and "pem_decode C (pem_encode C ty der) = Some der"
    and "jwt_sign C k c = Some s \<Longrightarrow> jwt_method C s = Some SigningMethodECDSA"
    and "jwt_sign C k c = Some s \<Longrightarrow> t < tk_ExpiresAt c \<Longrightarrow>
      \<exists>m. jwt_verify C (ec_public C k) t s = Some m \<and> m ''client_guid'' = Some (JStr (tk_ClientGuid c)) \<and>
        m ''role_id'' = Some (JNum (uint (tk_RoleId c)))"
    and "jwt_sign C k c = Some s \<Longrightarrow> tk_ExpiresAt c \<le> t \<Longrightarrow> jwt_verify C (ec_public C k) t s = None"
  using assms by (cases p; auto simp: crypto_lib_ok_def)+

lemma num_to_u8_uint [simp]: "num_to_u8 C (uint (r :: u8)) = r"
proof -
  have "uint r < 256" using uint_bounded [of r] by simp
  then show ?thesis by (simp add: num_to_u8_def)
qed

text \<open>The keys a call leaves cached.\<close>

lemma getKeys_cached [simp]: "cached ks = Some kp \<Longrightarrow> getKeys C pf qf ks = Ret (Inr kp, ks)"
  by (simp add: getKeys_def)

lemma getKeys_caches: "getKeys C pf qf ks = Ret (Inr kp, ks') \<Longrightarrow> cached ks' = Some kp"
  by (cases "generateKey C pf qf (key_fs ks)") (auto simp: getKeys_def split: option.splits sum.splits)

lemma GenerateToken_eq:
  assumes "GenerateToken C now guid role iss sub ex pf qf ks = Ret (Inr s, ks')"
  obtains k pub where "getKeys C pf qf ks = Ret (Inr (k, pub), ks')" and "cached ks' = Some (k, pub)"
    and "jwt_sign C k \<lparr>tk_ClientGuid = guid, tk_RoleId = role, tk_Issuer = iss, tk_Subject = sub,
      tk_ExpiresAt = jwt_date C (now + ex), tk_IssuedAt = jwt_date C now, tk_ID = guid\<rparr> = Some s"
proof -
  from assms obtain k pub where g: "getKeys C pf qf ks = Ret (Inr (k, pub), ks')"
    and "jwt_sign C k \<lparr>tk_ClientGuid = guid, tk_RoleId = role, tk_Issuer = iss, tk_Subject = sub,
      tk_ExpiresAt = jwt_date C (now + ex), tk_IssuedAt = jwt_date C now, tk_ID = guid\<rparr> = Some s"
    by (cases "getKeys C pf qf ks") (auto simp: GenerateToken_def split: sum.splits option.splits)
  with getKeys_caches [OF g] that show ?thesis by blast
qed

lemma GetTokenClaims_signed:
  assumes C: "crypto_lib_ok C" and ks: "cached ks = Some (k, ec_public C k)"
    and s: "jwt_sign C k c = Some s"
  shows "GetTokenClaims C t s minr pf qf ks =
    Ret (if tk_ExpiresAt c \<le> t then Inl ParseError
         else if tk_RoleId c < minr then Inl (InsufficientRole (tk_RoleId c) minr)
         else Inr (tk_ClientGuid c, tk_RoleId c), ks)"
proof (cases "tk_ExpiresAt c \<le> t")
  case True
  then show ?thesis
    by (simp add: GetTokenClaims_def getJWTClaims_def ks crypto_lib_okD(4,6) [OF C s])
next
  case False
  then obtain m where "jwt_verify C (ec_public C k) t s = Some m"
    "m ''client_guid'' = Some (JStr (tk_ClientGuid c))" "m ''role_id'' = Some (JNum (uint (tk_RoleId c)))"
    using crypto_lib_okD(5) [OF C s, of t] by auto
  with False show ?thesis
    by (simp add: GetTokenClaims_def getJWTClaims_def ks crypto_lib_okD(4) [OF C s])
qed

text \<open>Generated keys match and are written so that a later process loads them.\<close>

lemma decode_encode_keys:
  assumes "crypto_lib_ok C" and "encode_keys C k p = Some (e, ep)"
  shows "decode_keys (C\<lparr>ec_fresh := f\<rparr>) e ep = Ret (Inr (k, p))"
  using assms(2)
  by (auto simp: encode_keys_def decode_keys_def crypto_lib_okD [OF assms(1)] split: option.splits)

lemma loadKeyFromFile_absent:
  "files fs pf = None \<or> files fs qf = None \<Longrightarrow> loadKeyFromFile C pf qf fs = Ret (Inl KeyError)"
  by (auto simp: loadKeyFromFile_def os_Stat_def)

lemma generateKey_reload:
  assumes C: "crypto_lib_ok C" and absent: "files fs pf = None \<or> files fs qf = None" and pq: "pf \<noteq> qf"
    and rd: "readable fs pf" "readable fs qf" and g: "generateKey C pf qf fs = Ret (Inr (k, p), fs')"
  shows "p = ec_public C k \<and> generateKey (C\<lparr>ec_fresh := f\<rparr>) pf qf fs' = Ret (Inr (k, p), fs')"
proof -
  from g obtain e ep fs1 where k: "p = ec_public C k" "encode_keys C k p = Some (e, ep)"
    and w: "os_WriteFile pf e fs = Inr fs1" "os_WriteFile qf ep fs1 = Inr fs'"
    by (auto simp: generateKey_def loadKeyFromFile_absent [OF absent] Let_def
        split: option.splits sum.splits prod.splits)
  then have "files fs' pf = Some e" "files fs' qf = Some ep" "pf \<noteq> []" "qf \<noteq> []"
    "readable fs' = readable fs"
    using pq by (auto simp: os_WriteFile_def split: if_splits)
  then have "loadKeyFromFile (C\<lparr>ec_fresh := f\<rparr>) pf qf fs' = Ret (Inr (k, p))"
    using rd decode_encode_keys [OF C k(2)]
    by (simp add: loadKeyFromFile_def os_Stat_def os_ReadFile_def)
  with k(1) show ?thesis by (simp add: generateKey_def)
qed

lemma getKeys_reload:
  assumes "crypto_lib_ok C" and "cached ks = None"
    and "files (key_fs ks) pf = None \<or> files (key_fs ks) qf = None" and "pf \<noteq> qf"
    and "readable (key_fs ks) pf" "readable (key_fs ks) qf"
    and "getKeys C pf qf ks = Ret (Inr (k, p), ks')"
  shows "p = ec_public C k \<and> getKeys (C\<lparr>ec_fresh := f\<rparr>) pf qf (ks'\<lparr>cached := None\<rparr>) = Ret (Inr (k, p), ks')"
proof -
  from assms(2,7) obtain fs' where g: "generateKey C pf qf (key_fs ks) = Ret (Inr (k, p), fs')"
    and ks': "ks' = ks\<lparr>cached := Some (k, p), key_fs := fs'\<rparr>"
    by (cases "generateKey C pf qf (key_fs ks)") (auto simp: getKeys_def split: sum.splits)
  from generateKey_reload [OF assms(1,3,4,5,6) g] show ?thesis by (simp add: getKeys_def ks')
qed

lemma crypto_lib_ok_fresh: "crypto_lib_ok (C\<lparr>ec_fresh := f\<rparr>) = crypto_lib_ok C"
  by (simp add: crypto_lib_ok_def)

subsection \<open>An instance of the library contract\<close>

definition put_int :: "int \<Rightarrow> string" where
  "put_int z = (if 0 \<le> z then ''+'' @ put_nat (nat z) else ''-'' @ put_nat (nat (- z)))"

definition get_int :: "string \<Rightarrow> (int \<times> string) option" where
  "get_int s = (case s of [] \<Rightarrow> None
     | c # r \<Rightarrow> map_option (\<lambda>(n, r). (if c = CHR ''+'' then int n else - int n, r)) (get_nat r))"

lemma get_put_int: "get_int (put_int z @ s) = Some (z, s)"
  by (simp add: get_int_def put_int_def get_put_nat)

definition sample_verify :: "public_key \<Rightarrow> time \<Rightarrow> string \<Rightarrow> (string \<rightharpoonup> jwt_value) option" where
  "sample_verify p t s =
     Option.bind (get_nat s) (\<lambda>(k, s). Option.bind (get_int s) (\<lambda>(ex, s).
     Option.bind (get_nat s) (\<lambda>(r, s). Option.bind (get_str s) (\<lambda>(g, s).
       if fst p = k \<and> t < ex
       then Some [''client_guid'' \<mapsto> JStr g, ''role_id'' \<mapsto> JNum (int r)] else None))))"

definition sample_token :: "private_key \<Rightarrow> token_claims \<Rightarrow> string" where
  "sample_token k c = put_nat k @ put_int (tk_ExpiresAt c) @ put_nat (unat (tk_RoleId c)) @
     put_str (tk_ClientGuid c)"

definition sample_crypto :: crypto_lib where
  "sample_crypto = \<lparr>
     ec_fresh = Some 7, ec_public = (\<lambda>k. (k, 0)),
     x509_encode_priv = (\<lambda>k. Some (put_nat k)), x509_encode_pub = (\<lambda>p. Some (put_nat (fst p) @ put_nat (snd p))),
     x509_parse_priv = (\<lambda>s. map_option fst (get_nat s)),
     x509_parse_pub = (\<lambda>s. Option.bind (get_nat s) (\<lambda>(x, s). map_option (\<lambda>(y, s). ECDSAKey (x, y)) (get_nat s))),
     pem_encode = (\<lambda>ty s. s), pem_decode = Some, jwt_date = (\<lambda>t. second * (t div second)),
     jwt_sign = (\<lambda>k c. Some (sample_token k c)),
     jwt_method = (\<lambda>_. Some SigningMethodECDSA), jwt_verify = sample_verify, jwt_oor = (\<lambda>_. 0)\<rparr>"

lemma get_put_str: "get_str (put_str x @ s) = Some (x, s)"
  by (simp add: get_str_def put_str_def get_put_nat)

lemma sample_crypto_ok: "crypto_lib_ok sample_crypto"
proof -
  have end_of: "get_nat (put_nat n) = Some (n, [])" "get_str (put_str g) = Some (g, [])" for n g
    using get_put_nat [of n "[]"] get_put_str [of g "[]"] by simp_all
  have "second * (t div second) \<le> t \<and> t < second * (t div second) + second" for t :: int
    unfolding second_def by presburger
  then show ?thesis
    by (auto simp: crypto_lib_ok_def sample_crypto_def sample_verify_def sample_token_def get_put_nat get_put_int end_of
        split: if_splits)
qed

definition no_files :: file_system where
  "no_files = \<lparr>files = Map.empty, readable = (\<lambda>_. True), writable = (\<lambda>_. True)\<rparr>"

definition fresh_store :: key_store where
  "fresh_store = \<lparr>cached = None, key_fs = no_files\<rparr>"

lemma sample_generate:
  "\<exists>s ks'. GenerateToken sample_crypto now g r i u ex ''a'' ''b'' fresh_store = Ret (Inr s, ks') \<and>
     cached ks' = Some (7, (7, 0))"
proof -
  have "ec_fresh sample_crypto = Some 7" "ec_public sample_crypto 7 = (7, 0)"
    "\<exists>e ep. encode_keys sample_crypto 7 (7, 0) = Some (e, ep)" "jwt_sign sample_crypto = (\<lambda>k c. Some (sample_token k c))"
    by (simp_all add: sample_crypto_def encode_keys_def)
  then show ?thesis
    by (auto simp: GenerateToken_def getKeys_def generateKey_def loadKeyFromFile_absent fresh_store_def
        no_files_def os_WriteFile_def Let_def)
qed

subsection \<open>Properties\<close>

text \<open>
  C11: A token is accepted with the client and role it was issued for, until it expires: the check
  answers the insufficient role when more is required, and a parse error from the expiry on.
\<close>

theorem token_roundtrip:
  "crypto_lib_ok C \<Longrightarrow> GenerateToken C now guid role iss sub ex pf qf ks = Ret (Inr s, ks') \<Longrightarrow>
   cached ks' = Some (k, ec_public C k) \<Longrightarrow>
   GetTokenClaims C t s minr pf qf ks' =
     Ret (if jwt_date C (now + ex) \<le> t then Inl ParseError
          else if role < minr then Inl (InsufficientRole role minr)
          else Inr (guid, role), ks')"
proof -
  assume C: "crypto_lib_ok C" and g: "GenerateToken C now guid role iss sub ex pf qf ks = Ret (Inr s, ks')"
    and k: "cached ks' = Some (k, ec_public C k)"
  from GenerateToken_eq [OF g] k GetTokenClaims_signed [OF C k, of _ s] show ?thesis by fastforce
qed

theorem token_roundtrip_witness:
  "\<exists>s ks'. GenerateToken sample_crypto 0 ''guid'' MemberRole ''iss'' ''sub'' (8 * second) ''a'' ''b'' fresh_store =
      Ret (Inr s, ks') \<and>
    GetTokenClaims sample_crypto (7 * second) s MemberRole ''a'' ''b'' ks' = Ret (Inr (''guid'', MemberRole), ks') \<and>
    GetTokenClaims sample_crypto (7 * second) s AdminRole ''a'' ''b'' ks' =
      Ret (Inl (InsufficientRole MemberRole AdminRole), ks') \<and>
    GetTokenClaims sample_crypto (8 * second) s MemberRole ''a'' ''b'' ks' = Ret (Inl ParseError, ks')"
proof -
  obtain s ks' where g: "GenerateToken sample_crypto 0 ''guid'' MemberRole ''iss'' ''sub'' (8 * second) ''a'' ''b''
      fresh_store = Ret (Inr s, ks')" and "cached ks' = Some (7, (7, 0))"
    using sample_generate by blast
  then have k: "cached ks' = Some (7, ec_public sample_crypto 7)" by (simp add: sample_crypto_def)
  have d: "jwt_date sample_crypto (0 + 8 * second) = 8 * second"
    by (simp add: sample_crypto_def second_def)
  show ?thesis
    using g token_roundtrip [OF sample_crypto_ok g k]
    by (auto simp only: d) (auto simp: second_def MemberRole_def AdminRole_def)
qed

text \<open>
  C12: Tokens survive a restart. When the key files were missing, the process that issues the
  first token generates a key pair and writes it; a later process, whatever key it would have
  drawn itself, loads the same pair and accepts the token until it expires.
\<close>

theorem token_survives_restart:
  "crypto_lib_ok C \<Longrightarrow> cached ks = None \<Longrightarrow>
   files (key_fs ks) pf = None \<or> files (key_fs ks) qf = None \<Longrightarrow> pf \<noteq> qf \<Longrightarrow>
   readable (key_fs ks) pf \<and> readable (key_fs ks) qf \<Longrightarrow>
   GenerateToken C now guid role iss sub ex pf qf ks = Ret (Inr s, ks') \<Longrightarrow>
   t < jwt_date C (now + ex) \<Longrightarrow> minr \<le> role \<Longrightarrow>
   GetTokenClaims (C\<lparr>ec_fresh := f\<rparr>) t s minr pf qf (ks'\<lparr>cached := None\<rparr>) = Ret (Inr (guid, role), ks')"
proof -
  assume C: "crypto_lib_ok C" and a: "cached ks = None"
    "files (key_fs ks) pf = None \<or> files (key_fs ks) qf = None" "pf \<noteq> qf"
    "readable (key_fs ks) pf \<and> readable (key_fs ks) qf"
    and g: "GenerateToken C now guid role iss sub ex pf qf ks = Ret (Inr s, ks')"
    and t: "t < jwt_date C (now + ex)" "minr \<le> role"
  let ?C = "C\<lparr>ec_fresh := f\<rparr>"
  from g obtain k pub where gk: "getKeys C pf qf ks = Ret (Inr (k, pub), ks')" and c: "cached ks' = Some (k, pub)"
    and sg: "jwt_sign C k \<lparr>tk_ClientGuid = guid, tk_RoleId = role, tk_Issuer = iss, tk_Subject = sub,
      tk_ExpiresAt = jwt_date C (now + ex), tk_IssuedAt = jwt_date C now, tk_ID = guid\<rparr> = Some s"
    by (rule GenerateToken_eq)
  have k: "pub = ec_public C k" and r: "getKeys ?C pf qf (ks'\<lparr>cached := None\<rparr>) = Ret (Inr (k, pub), ks')"
    using getKeys_reload [OF C a(1-3) _ _ gk] a(4) by blast+
  have C': "crypto_lib_ok ?C" using C by (simp add: crypto_lib_ok_fresh)
  have "GetTokenClaims ?C t s minr pf qf ks' = Ret (Inr (guid, role), ks')"
    using GetTokenClaims_signed [OF C', of ks' k _ s t minr pf qf] sg c k t by auto
  then show ?thesis by (simp add: GetTokenClaims_def getJWTClaims_def r getKeys_cached [OF c])
qed

theorem token_survives_restart_witness:
  "\<exists>s ks'. GenerateToken sample_crypto 0 ''guid'' GuestRole ''iss'' ''sub'' (8 * second) ''a'' ''b'' fresh_store =
      Ret (Inr s, ks') \<and>
    GetTokenClaims (sample_crypto\<lparr>ec_fresh := Some 9\<rparr>) second s GuestRole ''a'' ''b'' (ks'\<lparr>cached := None\<rparr>) =
      Ret (Inr (''guid'', GuestRole), ks')"
proof -
  obtain s ks' where g: "GenerateToken sample_crypto 0 ''guid'' GuestRole ''iss'' ''sub'' (8 * second) ''a'' ''b''
      fresh_store = Ret (Inr s, ks')"
    using sample_generate by blast
  have "second < jwt_date sample_crypto (0 + 8 * second)"
    by (simp add: sample_crypto_def second_def)
  with token_survives_restart [OF sample_crypto_ok _ _ _ _ g] g show ?thesis
    by (simp add: fresh_store_def no_files_def)
qed

end
