(* ===== verification/PluginClients.thy ===== *)
theory PluginClients
  imports Settings
begin

text \<open>
  The client of an authentication plugin, \<^verbatim>\<open>srs/plugin_client.go\<close>, and the set-up of all plugin
  clients (\<open>initializePluginClients\<close> of \<^verbatim>\<open>srs/auth_service.go\<close>). A plugin is another process behind
  gRPC: whether its address can be dialled, what it answers to \<open>Configure\<close> and to \<open>Login\<close> are
  parameters.
\<close>

subsection \<open>The remote plugin\<close>

record unit_selection =
  us_UnitId :: string
  us_UnitName :: string

record plugin_login =
  pl_PlayerName :: string
  pl_AvailableRoles :: "u32 list"
  pl_AvailableUnits :: "unit_selection list"

text \<open>The \<open>oneof\<close> of a login answer; it may be unset.\<close>

datatype login_oneof = PluginResult plugin_login | PluginErrorMessage string

datatype login_reply = LoginRpcError | LoginReply (Success: bool) (LoginResult: "login_oneof option")
datatype config_reply = ConfigRpcError | ConfigReply bool string

record plugin_net =
  pn_dial :: "string \<Rightarrow> bool"
  pn_configure :: "string \<Rightarrow> (string, string) gomap \<Rightarrow> config_reply"
  pn_login :: "string \<Rightarrow> (string, string) gomap \<Rightarrow> login_reply"

subsection \<open>The client\<close>

text \<open>
  \<open>pc_stopc\<close> is the stop channel: \<open>None\<close> when \<open>nil\<close>, else whether it has been closed; the code
  never makes one. \<open>pc_conn\<close>: a connection exists, and whether it has been closed.
\<close>

record plugin_client =
  pc_client :: bool
  pc_conn :: "bool option"
  pc_stopc :: "bool option"
  pc_address :: string
  pc_pluginName :: string
  pc_configuration :: "(string, string) gomap"

datatype plugin_error = NotInitialized | RpcFailed | ConfigurationFailed string | NoSuchPlugin
  | LoginRejected string | UnexpectedResponse | DialFailed

definition NewPluginClient :: "string \<Rightarrow> string \<Rightarrow> (string, string) gomap \<Rightarrow> plugin_client" where
  "NewPluginClient name address configuration =
     \<lparr>pc_client = False, pc_conn = None, pc_stopc = None, pc_address = address, pc_pluginName = name,
      pc_configuration = configuration\<rparr>"

definition configurePlugin ::
    "plugin_net \<Rightarrow> plugin_client \<Rightarrow> settings_state \<Rightarrow> plugin_error option \<times> settings_state" where
  "configurePlugin N v ss =
     (if \<not> pc_client v then (Some NotInitialized, ss)
      else (case pn_configure N (pc_pluginName v) (pc_configuration v) of
              ConfigRpcError \<Rightarrow> (Some RpcFailed, ss)
            | ConfigReply ok msg \<Rightarrow>
                if \<not> ok then (Some (ConfigurationFailed msg), ss)
                else (case SetPluginEnabled (pc_pluginName v) True ss of
                        None \<Rightarrow> (Some NoSuchPlugin, ss)
                      | Some ss' \<Rightarrow> (None, ss'))))"

text \<open>Closing a closed channel panics.\<close>

definition ClosePlugin :: "plugin_client \<Rightarrow> plugin_client outcome" where
  "ClosePlugin v =
     (case pc_stopc v of
        Some True \<Rightarrow> Panics
      | st \<Rightarrow> Ret (v\<lparr>pc_stopc := map_option (\<lambda>_. True) st, pc_conn := map_option (\<lambda>_. True) (pc_conn v)\<rparr>))"

text \<open>\<open>establishConnection\<close> also starts a goroutine that watches the connection (below).\<close>

definition establishConnection ::
    "plugin_net \<Rightarrow> plugin_client \<Rightarrow> settings_state \<Rightarrow> plugin_error option \<times> settings_state" where
  "establishConnection N v ss = configurePlugin N v ss"

definition ConnectPlugin ::
    "plugin_net \<Rightarrow> plugin_client \<Rightarrow> settings_state \<Rightarrow>
     (plugin_error option \<times> plugin_client \<times> settings_state) outcome" where
  "ConnectPlugin N v ss =
     (if \<not> pn_dial N (pc_address v) then Ret (Some DialFailed, v, ss)
      else
        let v1 = v\<lparr>pc_conn := Some False, pc_client := True\<rparr> in
        (case establishConnection N v1 ss of
           (Some err, ss') \<Rightarrow> map_ret (\<lambda>v2. (Some err, v2, ss')) (ClosePlugin v1)
         | (None, ss') \<Rightarrow> Ret (None, v1, ss')))"

definition LoginPlugin ::
    "plugin_net \<Rightarrow> (string, string) gomap \<Rightarrow> plugin_client \<Rightarrow> plugin_error + login_oneof option" where
  "LoginPlugin N credentials v =
     (if \<not> pc_client v then Inl NotInitialized
      else (case pn_login N (pc_pluginName v) credentials of
              LoginRpcError \<Rightarrow> Inl RpcFailed
            | LoginReply ok result \<Rightarrow>
                if \<not> ok then
                  (case result of Some (PluginErrorMessage m) \<Rightarrow> Inl (LoginRejected m)
                                | _ \<Rightarrow> Inl UnexpectedResponse)
                else Inr result))"

subsection \<open>Watching and reconnecting\<close>

text \<open>
  The watcher reacts to the state \<open>Idle\<close>: it disables the plugin and starts a reconnection; it
  ends when the plugin is no longer configured. Result: does it go on, does it reconnect.
\<close>

datatype connectivity = Idle | Connecting | Ready | TransientFailure | Shutdown

definition watch_event ::
    "plugin_client \<Rightarrow> connectivity \<Rightarrow> settings_state \<Rightarrow> (bool \<times> bool) \<times> settings_state" where
  "watch_event v newState ss =
     (if newState = Idle
      then (case SetPluginEnabled (pc_pluginName v) False ss of
              None \<Rightarrow> ((False, False), ss)
            | Some ss' \<Rightarrow> ((True, True), ss'))
      else ((True, False), ss))"

definition maxBackoff :: nat where "maxBackoff = 128"
definition maxReconnectionAttempts :: nat where "maxReconnectionAttempts = 20"

text \<open>
  The reconnection loop. \<open>attempt i\<close> is the result of the \<open>i\<close>-th call of \<open>establishConnection\<close>;
  the stop channel is \<open>nil\<close>, so the \<open>select\<close> always takes its default. The second component of
  the result is the time slept, in seconds; \<open>Reconnected\<close> and \<open>GaveUp\<close> carry the number of
  attempts made.
\<close>

datatype reconnect_result = Reconnected nat | GaveUp nat

function reconnect_loop ::
    "(nat \<Rightarrow> bool) \<Rightarrow> nat \<Rightarrow> nat \<Rightarrow> nat \<Rightarrow> reconnect_result \<times> nat" where
  "reconnect_loop attempt currentBackoff reconnectionAttempts slept =
     (if maxReconnectionAttempts \<le> reconnectionAttempts then (GaveUp reconnectionAttempts, slept)
      else if attempt reconnectionAttempts then (Reconnected (Suc reconnectionAttempts), slept)
      else reconnect_loop attempt
             (if currentBackoff < maxBackoff then currentBackoff * 2 else currentBackoff)
             (Suc reconnectionAttempts) (slept + currentBackoff))"
  by pat_completeness auto
termination
  by (relation "measure (\<lambda>(_, _, n, _). maxReconnectionAttempts - n)") auto

declare reconnect_loop.simps [simp del]

definition handleReconnection :: "(nat \<Rightarrow> bool) \<Rightarrow> reconnect_result \<times> nat" where
  "handleReconnection attempt = reconnect_loop attempt 1 0 0"

subsection \<open>All plugins\<close>

text \<open>
  \<open>initializePluginClients\<close>: the names of the enabled plugins are read once, configuration and
  address in each round.
\<close>

definition plugin_round ::
    "plugin_net \<Rightarrow> string \<Rightarrow> (string \<rightharpoonup> plugin_client) \<times> settings_state \<Rightarrow>
     ((string \<rightharpoonup> plugin_client) \<times> settings_state) outcome" where
  "plugin_round N plugin acc =
     (let (clients, ss) = acc;
          (configuration, ok) = GetPluginConfiguration plugin ss
      in if \<not> ok \<or> configuration = None then Ret acc
      else
        let (address, ok') = GetPluginAddress plugin ss
        in if \<not> ok' \<or> address = [] then Ret acc
        else bind_outcome (ConnectPlugin N (NewPluginClient plugin address configuration) ss) (\<lambda>(err, client, ss').
               if err \<noteq> None
               then Ret (clients, case SetPluginEnabled plugin False ss' of None \<Rightarrow> ss' | Some ss'' \<Rightarrow> ss'')
               else Ret (clients(plugin \<mapsto> client), ss')))"

fun plugin_rounds ::
    "plugin_net \<Rightarrow> string list \<Rightarrow> (string \<rightharpoonup> plugin_client) \<times> settings_state \<Rightarrow>
     ((string \<rightharpoonup> plugin_client) \<times> settings_state) outcome" where
  "plugin_rounds N [] acc = Ret acc"
| "plugin_rounds N (p # ps) acc = bind_outcome (plugin_round N p acc) (plugin_rounds N ps)"

definition initializePluginClients ::
    "plugin_net \<Rightarrow> settings_state \<Rightarrow> ((string \<rightharpoonup> plugin_client) \<times> settings_state) outcome" where
  "initializePluginClients N ss = plugin_rounds N (GetAllPluginNames ss) (Map.empty, ss)"

subsection \<open>Lemmas\<close>

text \<open>The settings of a plugin that decide about its client; no step changes them.\<close>

definition plugin_info :: "settings_state \<Rightarrow> string \<Rightarrow> ((string, string) gomap \<times> string) option" where
  "plugin_info ss nm = map_option (\<lambda>p. (p_Configuration p, p_Address p)) (plugin.row nm ss)"

lemma plugin_info_SetPluginEnabled:
  assumes "SetPluginEnabled nm b ss = Some ss'"
  shows "plugin_info ss' = plugin_info ss"
proof
  fix k
  show "plugin_info ss' k = plugin_info ss k"
    by (cases "k = nm")
      (simp_all add: plugin_info_def plugin.row_other [OF assms] plugin.row_modified [OF assms]
        option.map_comp comp_def)
qed

lemma SetPluginEnabled_present:
  "plugin_info ss nm \<noteq> None \<Longrightarrow> \<exists>ss'. SetPluginEnabled nm b ss = Some ss'"
  using plugin.modify_fails [of nm b ss] by (cases "SetPluginEnabled nm b ss") (auto simp: plugin_info_def)

lemma IsPluginEnabled_set:
  assumes "SetPluginEnabled nm b ss = Some ss'" and "plugin_info ss nm \<noteq> None"
  shows "IsPluginEnabled k ss' = (if k = nm then b else IsPluginEnabled k ss)"
proof -
  from assms(2) obtain p where "plugin.row nm ss = Some p" by (auto simp: plugin_info_def)
  then show ?thesis
    by (simp add: plugin_lookups plugin.row_other [OF assms(1)] plugin.row_modified [OF assms(1)])
qed

text \<open>A plugin gets a client when it is configured, can be dialled and accepts its configuration.\<close>

definition connects :: "plugin_net \<Rightarrow> settings_state \<Rightarrow> string \<Rightarrow> bool" where
  "connects N ss nm \<longleftrightarrow>
     (\<exists>c a m. plugin_info ss nm = Some (c, a) \<and> c \<noteq> None \<and> a \<noteq> [] \<and> pn_dial N a \<and>
        pn_configure N nm c = ConfigReply True m)"

definition usable_plugin :: "settings_state \<Rightarrow> string \<Rightarrow> bool" where
  "usable_plugin ss nm \<longleftrightarrow> (\<exists>c a. plugin_info ss nm = Some (c, a) \<and> c \<noteq> None \<and> a \<noteq> [])"

lemma ConnectPlugin_new:
  assumes "plugin_info ss nm = Some (c, a)"
  shows "\<exists>err v ss'. ConnectPlugin N (NewPluginClient nm a c) ss = Ret (err, v, ss') \<and>
    plugin_info ss' = plugin_info ss \<and>
    (err = None \<longleftrightarrow> pn_dial N a \<and> (\<exists>m. pn_configure N nm c = ConfigReply True m)) \<and>
    (err = None \<longrightarrow> SetPluginEnabled nm True ss = Some ss' \<and> pc_client v \<and> pc_pluginName v = nm) \<and>
    (err \<noteq> None \<longrightarrow> ss' = ss)"
proof -
  obtain ss1 where "SetPluginEnabled nm True ss = Some ss1"
    using SetPluginEnabled_present [of ss nm] assms by auto
  then show ?thesis
    using plugin_info_SetPluginEnabled [of nm True ss ss1]
    by (auto simp: ConnectPlugin_def NewPluginClient_def establishConnection_def configurePlugin_def
        ClosePlugin_def Let_def split: config_reply.splits)
qed

text \<open>Every entry is an initialised client that carries its key as its name.\<close>

definition named_clients :: "(string \<rightharpoonup> plugin_client) \<Rightarrow> bool" where
  "named_clients m \<longleftrightarrow> (\<forall>k v. m k = Some v \<longrightarrow> pc_client v \<and> pc_pluginName v = k)"

lemma plugin_round_skip: "\<not> usable_plugin ss nm \<Longrightarrow> plugin_round N nm (m, ss) = Ret (m, ss)"
  by (auto simp: plugin_round_def usable_plugin_def plugin_info_def plugin_lookups split: option.splits)

lemma plugin_round_spec:
  assumes "usable_plugin ss nm"
  shows "\<exists>m' ss'. plugin_round N nm (m, ss) = Ret (m', ss') \<and> plugin_info ss' = plugin_info ss \<and>
    dom m' = (if connects N ss nm then insert nm (dom m) else dom m) \<and>
    (\<forall>k. IsPluginEnabled k ss' = (if k = nm then connects N ss nm else IsPluginEnabled k ss)) \<and>
    (named_clients m \<longrightarrow> named_clients m')"
proof -
  from assms obtain c a where info: "plugin_info ss nm = Some (c, a)" "c \<noteq> None" "a \<noteq> []"
    by (auto simp: usable_plugin_def)
  then have look: "GetPluginConfiguration nm ss = (c, True)" "GetPluginAddress nm ss = (a, True)"
    by (auto simp: plugin_info_def plugin_lookups split: option.splits)
  obtain err v ss1 where con: "ConnectPlugin N (NewPluginClient nm a c) ss = Ret (err, v, ss1)"
    "plugin_info ss1 = plugin_info ss"
    "err = None \<longleftrightarrow> connects N ss nm"
    "err = None \<longrightarrow> SetPluginEnabled nm True ss = Some ss1 \<and> pc_client v \<and> pc_pluginName v = nm"
    "err \<noteq> None \<longrightarrow> ss1 = ss"
    using ConnectPlugin_new [OF info(1), of N] info by (auto simp: connects_def)
  show ?thesis
  proof (cases err)
    case None
    then show ?thesis
      using con look info IsPluginEnabled_set [of nm True ss ss1]
      by (auto simp: plugin_round_def Let_def named_clients_def)
  next
    case (Some e)
    obtain ss2 where ss2: "SetPluginEnabled nm False ss = Some ss2"
      using SetPluginEnabled_present [of ss nm] info by auto
    with Some con look info IsPluginEnabled_set [OF ss2] plugin_info_SetPluginEnabled [OF ss2]
    show ?thesis by (auto simp: plugin_round_def Let_def)
  qed
qed

lemma connects_cong: "plugin_info ss = plugin_info ss' \<Longrightarrow> connects N ss = connects N ss'"
  by (auto simp: connects_def fun_eq_iff)

lemma usable_cong: "plugin_info ss = plugin_info ss' \<Longrightarrow> usable_plugin ss = usable_plugin ss'"
  by (auto simp: usable_plugin_def fun_eq_iff)

lemma connects_usable: "connects N ss nm \<Longrightarrow> usable_plugin ss nm"
  by (auto simp: connects_def usable_plugin_def)

lemma plugin_rounds_spec:
  "\<exists>m' ss'. plugin_rounds N ps (m, ss) = Ret (m', ss') \<and> plugin_info ss' = plugin_info ss \<and>
     dom m' = dom m \<union> {nm \<in> set ps. connects N ss nm} \<and>
     (\<forall>k. IsPluginEnabled k ss' =
        (if k \<in> set ps \<and> usable_plugin ss k then connects N ss k else IsPluginEnabled k ss)) \<and>
     (named_clients m \<longrightarrow> named_clients m')"
proof (induction ps arbitrary: m ss)
  case (Cons p ps)
  show ?case
  proof (cases "usable_plugin ss p")
    case False
    then have "\<not> connects N ss p" using connects_usable by blast
    with False Cons.IH [of m ss] show ?thesis by (auto simp: plugin_round_skip)
  next
    case True
    from plugin_round_spec [OF True, of N m] obtain m1 ss1 where
      r: "plugin_round N p (m, ss) = Ret (m1, ss1)" "plugin_info ss1 = plugin_info ss"
      "dom m1 = (if connects N ss p then insert p (dom m) else dom m)"
      "\<forall>k. IsPluginEnabled k ss1 = (if k = p then connects N ss p else IsPluginEnabled k ss)"
      "named_clients m \<longrightarrow> named_clients m1"
      by blast
    from Cons.IH [of m1 ss1] obtain m' ss' where
      "plugin_rounds N ps (m1, ss1) = Ret (m', ss')" "plugin_info ss' = plugin_info ss1"
      "dom m' = dom m1 \<union> {nm \<in> set ps. connects N ss nm}"
      "\<forall>k. IsPluginEnabled k ss' =
        (if k \<in> set ps \<and> usable_plugin ss k then connects N ss k else IsPluginEnabled k ss1)"
      "named_clients m1 \<longrightarrow> named_clients m'"
      using connects_cong [OF r(2)] usable_cong [OF r(2)] by auto
    with r True show ?thesis by (intro exI [of _ m'] exI [of _ ss']) auto
  qed
qed auto

lemma min_pow_step:
  "(if min (2 ^ k) 128 < (128 :: nat) then min (2 ^ k) 128 * 2 else min (2 ^ k) 128) =
     (min (2 ^ Suc k) 128 :: nat)"
proof (cases "k < 7")
  case True
  then have "k \<in> {0, 1, 2, 3, 4, 5, 6}" by auto
  then show ?thesis by auto
next
  case False
  then have "(2 :: nat) ^ 7 \<le> 2 ^ k" by (intro power_increasing) auto
  then show ?thesis by auto
qed

lemma reconnect_loop_spec:
  assumes "\<forall>i < n. \<not> attempt i" and "n < 20 \<longrightarrow> attempt n" and "n \<le> 20" and "k \<le> n"
  shows "reconnect_loop attempt (min (2 ^ k) 128) k slept =
    (if n = 20 then GaveUp 20 else Reconnected (Suc n), slept + (\<Sum>i = k..<n. min (2 ^ i) 128))"
  using assms(4)
proof (induction "n - k" arbitrary: k slept)
  case 0
  then have "k = n" by simp
  then show ?case
    using assms by (simp add: reconnect_loop.simps maxReconnectionAttempts_def)
next
  case (Suc d)
  then have k: "k < n" "d = n - Suc k" by auto
  from k assms have "reconnect_loop attempt (min (2 ^ k) 128) k slept =
      reconnect_loop attempt (min (2 ^ Suc k) 128) (Suc k) (slept + min (2 ^ k) 128)"
    by (subst reconnect_loop.simps) (simp only: maxReconnectionAttempts_def maxBackoff_def min_pow_step, simp)
  also have "\<dots> = (if n = 20 then GaveUp 20 else Reconnected (Suc n),
      slept + min (2 ^ k) 128 + (\<Sum>i = Suc k..<n. min (2 ^ i) 128))"
    using Suc.hyps(1) [OF k(2)] k(1) by simp
  finally show ?case using k(1) by (simp add: sum.atLeast_Suc_lessThan)
qed

lemma backoff_total: "(\<Sum>i < 20. min (2 ^ i) 128) = (1791 :: nat)"
proof -
  have "(\<Sum>i < 20. min (2 ^ i) 128) = (\<Sum>i \<leftarrow> [0..<20]. min (2 ^ i) (128 :: nat))"
    by (simp add: atLeast_upt sum_set_upt_conv_sum_list_nat del: set_upt)
  also have "[0..<20] = 0 # 1 # [2..<20]" by (simp add: upt_rec)
  finally show ?thesis by simp
qed

subsection \<open>Properties\<close>

text \<open>
  After the set-up the server has a client for exactly those plugins that were enabled, have
  a configuration and an address, can be dialled and accept the configuration; each client is
  initialised and has the name it is filed under. The other enabled plugins with configuration and
  address are now disabled in the settings; nothing else changes, and the set-up always returns.
\<close>

theorem plugins_initialised:
  "\<exists>m ss'. initializePluginClients N ss = Ret (m, ss') \<and> named_clients m \<and>
     dom m = {nm. nm \<in> set (GetAllPluginNames ss) \<and> connects N ss nm} \<and>
     (\<forall>k. IsPluginEnabled k ss' =
        (if k \<in> set (GetAllPluginNames ss) \<and> usable_plugin ss k then connects N ss k
         else IsPluginEnabled k ss))"
  using plugin_rounds_spec [of N "GetAllPluginNames ss" Map.empty ss]
  by (auto simp: initializePluginClients_def named_clients_def)

text \<open>
  C34: Reconnection ends. If the attempts fail \<open>n\<close> times and then succeed, the loop stops after
  \<open>n + 1\<close> attempts, and after twenty failures it gives up; between the attempts it sleeps 1, 2, 4,
  up to 128 seconds, so that giving up takes 1791 seconds.
\<close>

theorem reconnection_ends:
  "\<forall>i < n. \<not> attempt i \<Longrightarrow> n < 20 \<longrightarrow> attempt n \<Longrightarrow> n \<le> 20 \<Longrightarrow>
   handleReconnection attempt =
     (if n = 20 then GaveUp 20 else Reconnected (Suc n), \<Sum>i < n. min (2 ^ i) 128) \<and>
   (n = 20 \<longrightarrow> snd (handleReconnection attempt) = 1791)"
  using reconnect_loop_spec [of n attempt 0 0]
  by (auto simp: handleReconnection_def atLeast0LessThan backoff_total)

theorem reconnection_ends_witness:
  "handleReconnection (\<lambda>_. False) = (GaveUp 20, 1791) \<and>
   handleReconnection (\<lambda>i. i = 2) = (Reconnected 3, 3)"
proof -
  have "fst (handleReconnection (\<lambda>_. False)) = GaveUp 20 \<and> snd (handleReconnection (\<lambda>_. False)) = 1791"
    using reconnection_ends [of 20 "\<lambda>_. False"] by (simp add: backoff_total)
  moreover have "handleReconnection (\<lambda>i. i = 2) = (Reconnected 3, \<Sum>i < 2. min (2 ^ i) 128)"
    using reconnection_ends [of 2 "\<lambda>i. i = 2"] by simp
  moreover have "(\<Sum>i < 2. min (2 ^ i) 128) = (3 :: nat)" by (simp add: numeral_2_eq_2)
  ultimately show ?thesis by (metis prod.collapse)
qed

end
