(* ===== verification/AuthService.thy ===== *)
theory AuthService
  imports Tokens PluginClients Events Expiry
begin

text \<open>
  The authentication service, \<^verbatim>\<open>srs/auth_service.go\<close> and \<^verbatim>\<open>srs/utils.go\<close>: the table of half-done
  logins, the four RPCs that lead from a first contact to a token, and the checks they share.
  Each RPC is one function of the whole control state; a call that would wait for a mutex nobody
  will unlock is \<open>Blocks\<close>, a nil dereference or a failed type assertion is \<open>Panics\<close>.
\<close>

subsection \<open>State\<close>

record authenticating_client =
  ac_Name :: string
  ac_Secret :: string
  ac_Expires :: time
  ac_AvailableRoles :: "u8 list"
  ac_AvailableUnits :: "unit_selection list"

text \<open>\<open>a_locked\<close>: the service's mutex was locked by a call that returned without unlocking it.\<close>

record auth_server =
  a_locked :: bool
  authenticatingClients :: "uuid \<rightharpoonup> authenticating_client"
  pluginClients :: "string \<rightharpoonup> plugin_client"

definition DistributionModeStandalone :: u8 where "DistributionModeStandalone = 0"
definition DistributionModeControl :: u8 where "DistributionModeControl = 1"
definition DistributionModeVoice :: u8 where "DistributionModeVoice = 2"

lemmas mode_defs = DistributionModeStandalone_def DistributionModeControl_def DistributionModeVoice_def

text \<open>
  What the gRPC services of the control server share; \<open>cs_streams\<close> holds the clients that have
  subscribed to updates (\<^verbatim>\<open>srs/srs_service.go\<close>).
\<close>

record control_state =
  cs_state :: server_state
  cs_settings :: settings_state
  cs_mode :: u8
  cs_bus :: event_bus
  cs_keys :: key_store
  cs_auth :: auth_server
  cs_streams :: "uuid set"

text \<open>
  What one call gets from outside: the time, the order in which it ranges over a map, the random
  values it draws (a UUID, the salts of its \<open>bcrypt\<close> calls, the words of its secret), the libraries
  and the plugins.
\<close>

record call_env =
  en_now :: time
  en_order :: "uuid list"
  en_newUUID :: uuid
  en_bcrypt :: "nat \<Rightarrow> string \<Rightarrow> string option"
  en_diceware :: "string list option"
  en_uuid :: uuid_lib
  en_crypto :: crypto_lib
  en_plugins :: plugin_net

definition NewAuthServer :: "plugin_net \<Rightarrow> settings_state \<Rightarrow> (auth_server \<times> settings_state) outcome" where
  "NewAuthServer N ss =
     map_ret (\<lambda>(pcs, ss'). (\<lparr>a_locked = False, authenticatingClients = Map.empty, pluginClients = pcs\<rparr>, ss'))
       (initializePluginClients N ss)"

subsection \<open>Checks\<close>

definition checkVersion :: "string \<Rightarrow> bool" where
  "checkVersion version = (version = ''0.1.0'')"

definition checkUsername :: "string \<Rightarrow> bool" where
  "checkUsername username = (0 < length username \<and> length username \<le> 32)"

definition unit_char :: "char \<Rightarrow> bool" where
  "unit_char c = (c \<in> set ''ABCDEFGHIJKLMNOPQRSTUVWXYZ0123456789'')"

text \<open>The regular expression \<open>^[A-Z0-9]{2,4}$\<close>.\<close>

definition checkUnitId :: "string \<Rightarrow> bool" where
  "checkUnitId unitId = (2 \<le> length unitId \<and> length unitId \<le> 4 \<and> list_all unit_char unitId)"

definition getSelectedUnit :: "authenticating_client \<Rightarrow> string \<Rightarrow> unit_selection option" where
  "getSelectedUnit authClient unitId = find (\<lambda>u. us_UnitId u = unitId) (ac_AvailableUnits authClient)"

definition isRoleAvailable :: "authenticating_client \<Rightarrow> u8 \<Rightarrow> bool" where
  "isRoleAvailable authClient selectedRole = list_ex (\<lambda>r. r = selectedRole) (ac_AvailableRoles authClient)"

definition isCoalitionAvailable :: "string \<Rightarrow> settings_state \<Rightarrow> bool" where
  "isCoalitionAvailable selectedCoalition ss =
     list_ex (\<lambda>c. co_Name c = selectedCoalition) (Coalitions ss)"

text \<open>The values of the protobuf enumeration.\<close>

definition pb_STANDALONE :: int where "pb_STANDALONE = 0"
definition pb_DISTRIBUTED :: int where "pb_DISTRIBUTED = 1"

fun checkDistributionCapabilities :: "int list \<Rightarrow> u8 \<Rightarrow> bool" where
  "checkDistributionCapabilities [] mode = False"
| "checkDistributionCapabilities (f # fs) mode =
     (if f = pb_DISTRIBUTED then
        (if mode = DistributionModeControl then True else checkDistributionCapabilities fs mode)
      else if f = pb_STANDALONE then
        (if mode = DistributionModeStandalone then True else checkDistributionCapabilities fs mode)
      else checkDistributionCapabilities fs mode)"

definition GetStringDistributionMode :: "u8 \<Rightarrow> string" where
  "GetStringDistributionMode mode =
     (if mode = DistributionModeControl then ''Control''
      else if mode = DistributionModeStandalone then ''Standalone''
      else if mode = DistributionModeVoice then ''Voice''
      else ''Unknown'')"

definition GetProtoDistributionMode :: "u8 \<Rightarrow> int" where
  "GetProtoDistributionMode mode =
     (if mode = DistributionModeControl then pb_DISTRIBUTED else pb_STANDALONE)"

subsection \<open>Replies\<close>

datatype auth_error = UnsupportedVersion | UnsupportedDistribution string | GuestLoginDisabled
  | InvalidClientGuid | ClientGuidNotFound | InvalidUsername | NoCoalitionWithPassword
  | InvalidUnitId | TokenFailed | PluginLoginDisabled | PluginNotFound string
  | LoginFailed plugin_error | SecretFailed | ProblemVerifying | InvalidRole | InvalidCoalition

text \<open>
  \<open>Rejected\<close> is a reply with \<open>Success: false\<close>; \<open>RpcFailure\<close> also returns a Go error, for which gRPC
  sends a status instead of the reply.
\<close>

datatype 'a reply = Accepted 'a | Rejected auth_error | RpcFailure auth_error

record init_result =
  ir_DistributionMode :: int
  ir_AvailablePlugins :: "string list"
  ir_ClientGuid :: string
  ir_HasGuestLogin :: bool

record login_result =
  lr_Secret :: string
  lr_AvailableRoles :: "(u32 \<times> string) list"
  lr_AvailableUnits :: "unit_selection list"
  lr_AvailableCoalitions :: "(string \<times> string \<times> string) list"
  lr_PlayerName :: string

record guest_request =
  gq_Name :: string
  gq_Password :: string
  gq_UnitId :: string
  gq_ClientGuid :: string

record login_request =
  lq_Credentials :: "(string, string) gomap"
  lq_AuthenticationPlugin :: string
  lq_ClientGuid :: string

record unit_request =
  uq_ClientGuid :: string
  uq_Secret :: string
  uq_UnitId :: string
  uq_Coalition :: string
  uq_Role :: u32

subsection \<open>Expired logins\<close>

definition sweep_auth :: "uuid list \<Rightarrow> time \<Rightarrow> auth_server \<Rightarrow> auth_server" where
  "sweep_auth order now a =
     a\<lparr>authenticatingClients :=
         sweep_entries (\<lambda>c. \<not> ac_Expires c < now) order (authenticatingClients a)\<rparr>"

definition removeExpiredAuthenticatingClients ::
    "call_env \<Rightarrow> control_state \<Rightarrow> control_state outcome" where
  "removeExpiredAuthenticatingClients E cs =
     (if a_locked (cs_auth cs) then Blocks
      else Ret (cs\<lparr>cs_auth := sweep_auth (en_order E) (en_now E) (cs_auth cs)\<rparr>))"

text \<open>\<open>s.mu.RLock()\<close> and \<open>s.mu.Lock()\<close>: wait for ever when the mutex is lost.\<close>

definition lock_mu :: "control_state \<Rightarrow> 'a outcome \<Rightarrow> 'a outcome" where
  "lock_mu cs f = (if a_locked (cs_auth cs) then Blocks else f)"

definition set_authenticating :: "(uuid \<rightharpoonup> authenticating_client) \<Rightarrow> control_state \<Rightarrow> control_state" where
  "set_authenticating m cs = cs\<lparr>cs_auth := (cs_auth cs)\<lparr>authenticatingClients := m\<rparr>\<rparr>"

definition publish_event :: "event \<Rightarrow> control_state \<Rightarrow> control_state" where
  "publish_event e cs = cs\<lparr>cs_bus := Publish e (cs_bus cs)\<rparr>"

subsection \<open>The RPCs\<close>

text \<open>The capabilities are a nested message, \<open>nil\<close> when the client leaves it out.\<close>

definition InitAuth ::
    "call_env \<Rightarrow> (string \<times> int list) option \<Rightarrow> control_state \<Rightarrow>
     (init_result reply \<times> control_state) outcome" where
  "InitAuth E capabilities cs =
     (case capabilities of
        None \<Rightarrow> Panics
      | Some (version, modes) \<Rightarrow>
          bind_outcome (removeExpiredAuthenticatingClients E cs) (\<lambda>cs1.
            if \<not> checkVersion version then Ret (Rejected UnsupportedVersion, cs1)
            else if \<not> checkDistributionCapabilities modes (cs_mode cs1)
            then Ret (Rejected (UnsupportedDistribution (GetStringDistributionMode (cs_mode cs1))), cs1)
            else lock_mu cs1
              (let guid = en_newUUID E;
                   cs2 = set_authenticating ((authenticatingClients (cs_auth cs1))(guid \<mapsto>
                     \<lparr>ac_Name = [], ac_Secret = [], ac_Expires = en_now E + 20 * minute,
                      ac_AvailableRoles = [], ac_AvailableUnits = []\<rparr>)) cs1
               in Ret (Accepted
                    \<lparr>ir_DistributionMode = GetProtoDistributionMode (cs_mode cs2),
                     ir_AvailablePlugins = GetAllPluginNames (cs_settings cs2),
                     ir_ClientGuid = uuid_string (en_uuid E) guid,
                     ir_HasGuestLogin = EnableGuestAuth (Security (cs_settings cs2))\<rparr>, cs2))))"

text \<open>
  The loop over the coalitions hashes each password anew (the \<open>i\<close>-th \<open>bcrypt\<close> call of the request)
  and compares the hash with what the client sent.
\<close>

fun select_by_password ::
    "(nat \<Rightarrow> string \<Rightarrow> string option) \<Rightarrow> nat \<Rightarrow> coalition list \<Rightarrow> string \<Rightarrow> coalition option" where
  "select_by_password bcrypt i [] password = None"
| "select_by_password bcrypt i (c # cs) password =
     (if HashPassword (bcrypt i) (co_Password c) = password then Some c
      else select_by_password bcrypt (Suc i) cs password)"

text \<open>\<open>time.Duration(e) * time.Second\<close> in 64-bit arithmetic.\<close>

definition token_duration :: "token_settings \<Rightarrow> duration" where
  "token_duration ts = sint (word_of_int (Expiration ts * second) :: 64 word)"

definition issue_token ::
    "call_env \<Rightarrow> string \<Rightarrow> u8 \<Rightarrow> control_state \<Rightarrow> ((token_error + string) \<times> control_state) outcome" where
  "issue_token E guid role cs =
     (let ts = Token (Security (cs_settings cs)) in
      map_ret (\<lambda>(r, ks). (r, cs\<lparr>cs_keys := ks\<rparr>))
        (GenerateToken (en_crypto E) (en_now E) guid role (Issuer ts) (Subject ts) (token_duration ts)
           (PrivateKeyFile ts) (PublicKeyFile ts) (cs_keys cs)))"

definition GuestLogin ::
    "call_env \<Rightarrow> guest_request \<Rightarrow> control_state \<Rightarrow> ((string \<times> string) reply \<times> control_state) outcome" where
  "GuestLogin E request cs =
     (if \<not> EnableGuestAuth (Security (cs_settings cs)) then Ret (Rejected GuestLoginDisabled, cs)
      else bind_outcome (removeExpiredAuthenticatingClients E cs) (\<lambda>cs1.
        case uuid_parse (en_uuid E) (gq_ClientGuid request) of
          None \<Rightarrow> Ret (RpcFailure InvalidClientGuid, cs1)
        | Some clientGuid \<Rightarrow> lock_mu cs1
            (if authenticatingClients (cs_auth cs1) clientGuid = None
             then Ret (Rejected ClientGuidNotFound, cs1)
             else if \<not> checkUsername (gq_Name request) then Ret (Rejected InvalidUsername, cs1)
             else case select_by_password (en_bcrypt E) 0 (Coalitions (cs_settings cs1)) (gq_Password request) of
                    None \<Rightarrow> Ret (Rejected NoCoalitionWithPassword,
                              cs1\<lparr>cs_auth := (cs_auth cs1)\<lparr>a_locked := True\<rparr>\<rparr>)
                  | Some selected \<Rightarrow>
                      if \<not> checkUnitId (gq_UnitId request) then Ret (Rejected InvalidUnitId, cs1)
                      else bind_outcome
                        (AddClient clientGuid
                           \<lparr>c_Name = gq_Name request, c_UnitId = gq_UnitId request,
                            c_Coalition = co_Name selected, c_Role = GuestRole, c_LastUpdate = 0\<rparr>
                           (cs_state cs1)) (\<lambda>st.
                      bind_outcome
                        (issue_token E (uuid_string (en_uuid E) clientGuid) GuestRole (cs1\<lparr>cs_state := st\<rparr>))
                        (\<lambda>(r, cs3).
                           case r of
                             Inl _ \<Rightarrow> Ret (RpcFailure TokenFailed, cs3)
                           | Inr token \<Rightarrow>
                               Ret (Accepted (token, co_Name selected),
                                    publish_event (NewEvent ClientsChanged ClientsRef) cs3))))))"

text \<open>\<open>strings.Join(words, "-")\<close>.\<close>

fun join_words :: "string list \<Rightarrow> string" where
  "join_words [] = []"
| "join_words [w] = w"
| "join_words (w # ws) = w @ ''-'' @ join_words ws"

definition Login ::
    "call_env \<Rightarrow> login_request \<Rightarrow> control_state \<Rightarrow> (login_result reply \<times> control_state) outcome" where
  "Login E request cs =
     (if \<not> EnablePluginAuth (Security (cs_settings cs)) then Ret (Rejected PluginLoginDisabled, cs)
      else bind_outcome (removeExpiredAuthenticatingClients E cs) (\<lambda>cs1.
        case uuid_parse (en_uuid E) (lq_ClientGuid request) of
          None \<Rightarrow> Ret (RpcFailure InvalidClientGuid, cs1)
        | Some clientGuid \<Rightarrow> lock_mu cs1
            (if authenticatingClients (cs_auth cs1) clientGuid = None
             then Ret (Rejected ClientGuidNotFound, cs1)
             else case pluginClients (cs_auth cs1) (lq_AuthenticationPlugin request) of
               None \<Rightarrow> Ret (Rejected (PluginNotFound (lq_AuthenticationPlugin request)), cs1)
             | Some plugin \<Rightarrow>
                (case LoginPlugin (en_plugins E) (lq_Credentials request) plugin of
                   Inl err \<Rightarrow> Ret (Rejected (LoginFailed err), cs1)
                 | Inr result \<Rightarrow>
                    (case en_diceware E of
                       None \<Rightarrow> Ret (Rejected SecretFailed, cs1)
                     | Some clientSecret \<Rightarrow>
                        (case result of
                           Some (PluginResult res) \<Rightarrow>
                             let secret = join_words clientSecret;
                                 cs2 = set_authenticating ((authenticatingClients (cs_auth cs1))(clientGuid \<mapsto>
                                   \<lparr>ac_Name = pl_PlayerName res, ac_Secret = secret,
                                    ac_Expires = en_now E + 5 * minute,
                                    ac_AvailableRoles = map ucast (pl_AvailableRoles res),
                                    ac_AvailableUnits = pl_AvailableUnits res\<rparr>)) cs1
                             in Ret (Accepted
                                  \<lparr>lr_Secret = secret,
                                   lr_AvailableRoles =
                                     map (\<lambda>r. (r, role_name (ucast r))) (pl_AvailableRoles res),
                                   lr_AvailableUnits = pl_AvailableUnits res,
                                   lr_AvailableCoalitions =
                                     map (\<lambda>c. (co_Name c, co_Color c, co_Description c))
                                       (Coalitions (cs_settings cs2)),
                                   lr_PlayerName = pl_PlayerName res\<rparr>, cs2)
                         | _ \<Rightarrow> Panics))))))"

definition UnitSelect ::
    "call_env \<Rightarrow> unit_request \<Rightarrow> control_state \<Rightarrow> (string reply \<times> control_state) outcome" where
  "UnitSelect E request cs =
     (case uuid_parse (en_uuid E) (uq_ClientGuid request) of
        None \<Rightarrow> Ret (RpcFailure InvalidClientGuid, cs)
      | Some clientGuid \<Rightarrow> lock_mu cs
          (case authenticatingClients (cs_auth cs) clientGuid of
             None \<Rightarrow> Ret (Rejected ClientGuidNotFound, cs)
           | Some authClient \<Rightarrow>
               if ac_Secret authClient \<noteq> uq_Secret request then Ret (Rejected ProblemVerifying, cs)
               else if getSelectedUnit authClient (uq_UnitId request) = None \<and> \<not> checkUnitId (uq_UnitId request)
               then Ret (Rejected InvalidUnitId, cs)
               else
                 let selectedUnit = (case getSelectedUnit authClient (uq_UnitId request) of
                        Some u \<Rightarrow> u
                      | None \<Rightarrow> \<lparr>us_UnitId = uq_UnitId request, us_UnitName = ''Unit '' @ uq_UnitId request\<rparr>)
                 in if \<not> isRoleAvailable authClient (ucast (uq_Role request)) then Ret (Rejected InvalidRole, cs)
                 else if \<not> isCoalitionAvailable (uq_Coalition request) (cs_settings cs)
                 then Ret (Rejected InvalidCoalition, cs)
                 else bind_outcome
                   (AddClient clientGuid
                      \<lparr>c_Name = ac_Name authClient, c_UnitId = us_UnitId selectedUnit,
                       c_Coalition = uq_Coalition request, c_Role = ucast (uq_Role request),
                       c_LastUpdate = 0\<rparr> (cs_state cs)) (\<lambda>st.
                 let cs2 = set_authenticating ((authenticatingClients (cs_auth cs))(clientGuid := None))
                             (cs\<lparr>cs_state := st\<rparr>)
                 in bind_outcome (issue_token E (uq_ClientGuid request) (ucast (uq_Role request)) cs2)
                      (\<lambda>(r, cs3).
                         case r of
                           Inl _ \<Rightarrow> Ret (RpcFailure TokenFailed, cs3)
                         | Inr token \<Rightarrow>
                             Ret (Accepted token, publish_event (NewEvent ClientsChanged ClientsRef) cs3)))))"

end
