(* ===== verification/AuthSafety.thy ===== *)
theory AuthSafety
  imports AuthService
begin

text \<open>
  Lemmas and properties of the authentication service: what it takes to be admitted, what an
  admitted client and its token carry, and the calls that block or bring the server down.
\<close>

subsection \<open>The table of half-done logins\<close>

interpretation auth_table: expiring_table authenticatingClients sweep_auth "\<lambda>now c. now \<le> ac_Expires c"
  by unfold_locales (auto simp: sweep_auth_def sweep_entries_eq not_less)

lemma sweep_auth_frame [simp]:
  "a_locked (sweep_auth ks t a) = a_locked a" "pluginClients (sweep_auth ks t a) = pluginClients a"
  by (simp_all add: sweep_auth_def)

lemma removeExpired_eq:
  "removeExpiredAuthenticatingClients E cs = Ret cs1 \<longleftrightarrow> \<not> a_locked (cs_auth cs) \<and>
     cs1 = cs\<lparr>cs_auth := sweep_auth (en_order E) (en_now E) (cs_auth cs)\<rparr>"
  by (auto simp: removeExpiredAuthenticatingClients_def)

lemma set_authenticating_frame [simp]:
  "cs_state (set_authenticating m cs) = cs_state cs" "cs_settings (set_authenticating m cs) = cs_settings cs"
  "cs_mode (set_authenticating m cs) = cs_mode cs" "cs_keys (set_authenticating m cs) = cs_keys cs"
  "cs_bus (set_authenticating m cs) = cs_bus cs" "cs_streams (set_authenticating m cs) = cs_streams cs"
  "authenticatingClients (cs_auth (set_authenticating m cs)) = m"
  "a_locked (cs_auth (set_authenticating m cs)) = a_locked (cs_auth cs)"
  "pluginClients (cs_auth (set_authenticating m cs)) = pluginClients (cs_auth cs)"
  by (simp_all add: set_authenticating_def)

lemma publish_event_frame [simp]:
  "cs_state (publish_event e cs) = cs_state cs" "cs_settings (publish_event e cs) = cs_settings cs"
  "cs_mode (publish_event e cs) = cs_mode cs" "cs_keys (publish_event e cs) = cs_keys cs"
  "cs_auth (publish_event e cs) = cs_auth cs" "cs_streams (publish_event e cs) = cs_streams cs"
  by (simp_all add: publish_event_def)

lemma lock_mu_Ret: "lock_mu cs f = Ret x \<longleftrightarrow> \<not> a_locked (cs_auth cs) \<and> f = Ret x"
  by (auto simp: lock_mu_def)

lemma issue_token_frame:
  assumes "issue_token E guid role cs = Ret (r, cs')"
  shows "cs_state cs' = cs_state cs" "cs_settings cs' = cs_settings cs" "cs_mode cs' = cs_mode cs"
    "cs_auth cs' = cs_auth cs" "cs_bus cs' = cs_bus cs" "cs_streams cs' = cs_streams cs"
  using assms
  by (cases "GenerateToken (en_crypto E) (en_now E) guid role (Issuer (Token (Security (cs_settings cs))))
        (Subject (Token (Security (cs_settings cs)))) (token_duration (Token (Security (cs_settings cs))))
        (PrivateKeyFile (Token (Security (cs_settings cs)))) (PublicKeyFile (Token (Security (cs_settings cs))))
        (cs_keys cs)"; auto simp: issue_token_def Let_def)+

lemma issue_token_GenerateToken:
  assumes "issue_token E guid role cs = Ret (r, cs')"
  shows "GenerateToken (en_crypto E) (en_now E) guid role (Issuer (Token (Security (cs_settings cs))))
        (Subject (Token (Security (cs_settings cs)))) (token_duration (Token (Security (cs_settings cs))))
        (PrivateKeyFile (Token (Security (cs_settings cs)))) (PublicKeyFile (Token (Security (cs_settings cs))))
        (cs_keys cs) = Ret (r, cs_keys cs')"
  using assms
  by (cases "GenerateToken (en_crypto E) (en_now E) guid role (Issuer (Token (Security (cs_settings cs))))
        (Subject (Token (Security (cs_settings cs)))) (token_duration (Token (Security (cs_settings cs))))
        (PrivateKeyFile (Token (Security (cs_settings cs)))) (PublicKeyFile (Token (Security (cs_settings cs))))
        (cs_keys cs)") (auto simp: issue_token_def Let_def)

text \<open>What the interceptor answers for an issued token.\<close>

definition check_token ::
    "crypto_lib \<Rightarrow> time \<Rightarrow> string \<Rightarrow> u8 \<Rightarrow> control_state \<Rightarrow> ((token_error + session) \<times> key_store) outcome" where
  "check_token C now token minRole cs =
     GetTokenClaims C now token minRole (PrivateKeyFile (Token (Security (cs_settings cs))))
       (PublicKeyFile (Token (Security (cs_settings cs)))) (cs_keys cs)"

definition token_expiry :: "call_env \<Rightarrow> control_state \<Rightarrow> time" where
  "token_expiry E cs =
     jwt_date (en_crypto E) (en_now E + token_duration (Token (Security (cs_settings cs))))"

lemma issue_token_checks:
  assumes C: "crypto_lib_ok (en_crypto E)" and i: "issue_token E guid role cs = Ret (Inr token, cs')"
    and k: "cached (cs_keys cs') = Some (k, ec_public (en_crypto E) k)"
    and t: "t < token_expiry E cs" "minr \<le> role"
  shows "check_token (en_crypto E) t token minr cs' = Ret (Inr (guid, role), cs_keys cs')"
proof -
  let ?ts = "Token (Security (cs_settings cs))"
  from issue_token_GenerateToken [OF i] have g: "GenerateToken (en_crypto E) (en_now E) guid role (Issuer ?ts)
      (Subject ?ts) (token_duration ?ts) (PrivateKeyFile ?ts) (PublicKeyFile ?ts) (cs_keys cs) =
      Ret (Inr token, cs_keys cs')" .
  obtain k0 pub where "cached (cs_keys cs') = Some (k0, pub)"
    and "jwt_sign (en_crypto E) k0 \<lparr>tk_ClientGuid = guid, tk_RoleId = role, tk_Issuer = Issuer ?ts,
      tk_Subject = Subject ?ts, tk_ExpiresAt = jwt_date (en_crypto E) (en_now E + token_duration ?ts),
      tk_IssuedAt = jwt_date (en_crypto E) (en_now E), tk_ID = guid\<rparr> = Some token"
    by (rule GenerateToken_eq [OF g])
  then show ?thesis
    using GetTokenClaims_signed [OF C, of "cs_keys cs'" k _ token t minr] k t issue_token_frame(2) [OF i]
    by (fastforce simp: check_token_def token_expiry_def)
qed

lemma select_by_password_Some:
  "select_by_password b i cs pw = Some c \<Longrightarrow>
   \<exists>j < length cs. cs ! j = c \<and> HashPassword (b (i + j)) (co_Password c) = pw"
proof (induction cs arbitrary: i)
  case (Cons d cs)
  show ?case
  proof (cases "HashPassword (b i) (co_Password d) = pw")
    case True
    with Cons.prems show ?thesis by (intro exI [of _ 0]) auto
  next
    case False
    with Cons obtain j where "j < length cs" "cs ! j = c" "HashPassword (b (Suc i + j)) (co_Password c) = pw"
      by fastforce
    then show ?thesis by (intro exI [of _ "Suc j"]) auto
  qed
qed simp

lemma checkDistributionCapabilities_iff:
  "checkDistributionCapabilities fs mode \<longleftrightarrow>
     (mode = DistributionModeControl \<and> pb_DISTRIBUTED \<in> set fs) \<or>
     (mode = DistributionModeStandalone \<and> pb_STANDALONE \<in> set fs)"
  by (induction fs) (auto simp: mode_defs pb_STANDALONE_def pb_DISTRIBUTED_def)

lemma isRoleAvailable_iff: "isRoleAvailable c r \<longleftrightarrow> r \<in> set (ac_AvailableRoles c)"
  by (auto simp: isRoleAvailable_def list_ex_iff)

lemma isCoalitionAvailable_eq: "isCoalitionAvailable n ss = DoesCoalitionExist n ss"
  by (simp add: isCoalitionAvailable_def DoesCoalitionExist_def)

subsection \<open>Admission, taken apart\<close>

lemma GuestLogin_Accepted:
  assumes "GuestLogin E rq cs = Ret (Accepted (token, coal), cs')"
  obtains g entry c st cs1 cs3 where
    "EnableGuestAuth (Security (cs_settings cs))" "\<not> a_locked (cs_auth cs)"
    "uuid_parse (en_uuid E) (gq_ClientGuid rq) = Some g"
    "cs1 = cs\<lparr>cs_auth := sweep_auth (en_order E) (en_now E) (cs_auth cs)\<rparr>"
    "authenticatingClients (cs_auth cs1) g = Some entry" "checkUsername (gq_Name rq)"
    "select_by_password (en_bcrypt E) 0 (Coalitions (cs_settings cs)) (gq_Password rq) = Some c"
    "co_Name c = coal" "checkUnitId (gq_UnitId rq)"
    "AddClient g \<lparr>c_Name = gq_Name rq, c_UnitId = gq_UnitId rq, c_Coalition = coal, c_Role = GuestRole,
       c_LastUpdate = 0\<rparr> (cs_state cs) = Ret st"
    "issue_token E (uuid_string (en_uuid E) g) GuestRole (cs1\<lparr>cs_state := st\<rparr>) = Ret (Inr token, cs3)"
    "cs' = publish_event (NewEvent ClientsChanged ClientsRef) cs3"
  using assms
  by (auto simp: GuestLogin_def branch_iffs removeExpired_eq lock_mu_Ret split: if_splits)

lemma UnitSelect_Accepted:
  assumes "UnitSelect E rq cs = Ret (Accepted token, cs')"
  obtains g entry unit st cs2 cs3 where
    "uuid_parse (en_uuid E) (uq_ClientGuid rq) = Some g" "\<not> a_locked (cs_auth cs)"
    "authenticatingClients (cs_auth cs) g = Some entry" "ac_Secret entry = uq_Secret rq"
    "(\<exists>u \<in> set (ac_AvailableUnits entry). us_UnitId u = uq_UnitId rq) \<or> checkUnitId (uq_UnitId rq)"
    "unit = uq_UnitId rq" "ucast (uq_Role rq) \<in> set (ac_AvailableRoles entry)"
    "DoesCoalitionExist (uq_Coalition rq) (cs_settings cs)"
    "AddClient g \<lparr>c_Name = ac_Name entry, c_UnitId = unit, c_Coalition = uq_Coalition rq,
       c_Role = ucast (uq_Role rq), c_LastUpdate = 0\<rparr> (cs_state cs) = Ret st"
    "cs2 = set_authenticating ((authenticatingClients (cs_auth cs))(g := None)) (cs\<lparr>cs_state := st\<rparr>)"
    "issue_token E (uq_ClientGuid rq) (ucast (uq_Role rq)) cs2 = Ret (Inr token, cs3)"
    "cs' = publish_event (NewEvent ClientsChanged ClientsRef) cs3"
proof -
  from assms obtain g entry where g: "uuid_parse (en_uuid E) (uq_ClientGuid rq) = Some g"
    "\<not> a_locked (cs_auth cs)" "authenticatingClients (cs_auth cs) g = Some entry"
    by (auto simp: UnitSelect_def lock_mu_Ret split: option.splits)
  let ?sel = "getSelectedUnit entry (uq_UnitId rq)"
  let ?unit = "case ?sel of Some u \<Rightarrow> u
      | None \<Rightarrow> \<lparr>us_UnitId = uq_UnitId rq, us_UnitName = ''Unit '' @ uq_UnitId rq\<rparr>"
  have id: "us_UnitId ?unit = uq_UnitId rq"
    by (auto simp: getSelectedUnit_def find_Some_iff split: option.splits)
  have known: "?sel \<noteq> None \<Longrightarrow> \<exists>u \<in> set (ac_AvailableUnits entry). us_UnitId u = uq_UnitId rq"
    by (auto simp: getSelectedUnit_def find_Some_iff)
  from assms g show ?thesis
    using that [OF g(1,2,3) _ _ refl] known id
    by (auto simp: UnitSelect_def lock_mu_Ret bind_outcome_eq_Ret case_sum_eq isRoleAvailable_iff
        isCoalitionAvailable_eq Let_def split: if_splits)
qed

subsection \<open>A sample server\<close>

definition sample_settings :: settings_state where
  "sample_settings = (default_settings ''config.yaml'')\<lparr>
     Coalitions := [\<lparr>co_Name = ''blue'', co_Description = ''d'', co_Color = ''c'', co_Password = ''pw''\<rparr>],
     Security := \<lparr>Plugins = [], EnablePluginAuth = True, EnableGuestAuth = True,
       Token = \<lparr>Expiration = 8, PrivateKeyFile = ''a'', PublicKeyFile = ''b'', Issuer = ''i'', Subject = ''s''\<rparr>\<rparr>\<rparr>"

definition sample_entry :: authenticating_client where
  "sample_entry = \<lparr>ac_Name = ''Maverick'', ac_Secret = ''alpha-beta'', ac_Expires = 5 * minute,
     ac_AvailableRoles = [GuestRole, MemberRole], ac_AvailableUnits = []\<rparr>"

definition sample_control :: control_state where
  "sample_control = \<lparr>
     cs_state = \<lparr>Clients = gmake, RadioClients = gmake, BannedSt = \<lparr>BannedClients = [], ban_file = ''bans''\<rparr>\<rparr>,
     cs_settings = sample_settings, cs_mode = DistributionModeStandalone, cs_bus = NewEventBus,
     cs_keys = \<lparr>cached = Some (7, (7, 0)), key_fs = no_files\<rparr>,
     cs_auth = \<lparr>a_locked = False, authenticatingClients = [1 \<mapsto> sample_entry],
       pluginClients = [''wix'' \<mapsto> (NewPluginClient ''wix'' ''localhost:1'' gmake)\<lparr>pc_client := True\<rparr>]\<rparr>,
     cs_streams = {}\<rparr>"

definition sample_env_at :: "(string \<Rightarrow> string option) \<Rightarrow> login_reply \<Rightarrow> call_env" where
  "sample_env_at bc lr = \<lparr>en_now = 0, en_order = [1], en_newUUID = 2, en_bcrypt = (\<lambda>_. bc),
     en_diceware = Some [''x'', ''y''], en_uuid = sample_uuid_lib, en_crypto = sample_crypto,
     en_plugins = \<lparr>pn_dial = (\<lambda>_. True), pn_configure = (\<lambda>_ _. ConfigReply True []), pn_login = (\<lambda>_ _. lr)\<rparr>\<rparr>"

definition hash_env :: call_env where
  "hash_env = sample_env_at (\<lambda>p. if length p > 72 then None else Some (''$'' @ p)) LoginRpcError"

lemma sample_parse [simp]: "uuid_parse sample_uuid_lib (uuid_string sample_uuid_lib u) = Some u"
  using sample_uuid_lib_ok by (simp add: uuid_lib_okD(4))

lemma sample_auth_order: "iter_order [1] (authenticatingClients (cs_auth sample_control))"
  by (simp add: iter_order_def sample_control_def)

lemma sample_env_simps [simp]:
  "en_now (sample_env_at bc lr) = 0" "en_order (sample_env_at bc lr) = [1]"
  "en_newUUID (sample_env_at bc lr) = 2" "en_bcrypt (sample_env_at bc lr) = (\<lambda>_. bc)"
  "en_diceware (sample_env_at bc lr) = Some [''x'', ''y'']" "en_uuid (sample_env_at bc lr) = sample_uuid_lib"
  "en_crypto (sample_env_at bc lr) = sample_crypto" "pn_login (en_plugins (sample_env_at bc lr)) = (\<lambda>_ _. lr)"
  by (simp_all add: sample_env_at_def)

lemma sample_control_simps [simp]:
  "cs_settings sample_control = sample_settings" "cs_mode sample_control = DistributionModeStandalone"
  "a_locked (cs_auth sample_control) = False"
  "authenticatingClients (cs_auth sample_control) = [1 \<mapsto> sample_entry]"
  "cached (cs_keys sample_control) = Some (7, (7, 0))"
  "EnableGuestAuth (Security sample_settings)" "EnablePluginAuth (Security sample_settings)"
  "Coalitions sample_settings = [\<lparr>co_Name = ''blue'', co_Description = ''d'', co_Color = ''c'', co_Password = ''pw''\<rparr>]"
  by (simp_all add: sample_control_def sample_settings_def)

lemma sample_sweep [simp]: "sweep_auth [1] 0 (cs_auth sample_control) = cs_auth sample_control"
  by (simp add: sweep_auth_def sample_control_def sample_entry_def minute_def second_def)

lemma sample_expiry: "second < token_expiry (sample_env_at bc lr) sample_control"
  by (simp add: token_expiry_def token_duration_def sample_settings_def sample_crypto_def second_def)

lemma sample_keys_public [simp]: "ec_public sample_crypto 7 = (7, 0)"
  by (simp add: sample_crypto_def)

lemma sample_AddClient: "\<exists>st. AddClient u c (cs_state sample_control) = Ret st"
  by (rule AddClient_Ret) (simp add: sample_control_def gmake_def)

lemma sample_issue:
  assumes "cached (cs_keys cs) = Some (7, (7, 0))"
  shows "\<exists>s. issue_token (sample_env_at bc lr) g r cs = Ret (Inr s, cs)"
proof -
  have "jwt_sign sample_crypto = (\<lambda>k c. Some (sample_token k c))" by (simp add: sample_crypto_def)
  then show ?thesis
    using assms by (simp add: issue_token_def sample_env_at_def GenerateToken_def Let_def)
qed

subsection \<open>Properties\<close>



text \<open>
  C6: What a guest login takes and gives. It succeeds only when guest logins are enabled, for an
  initialised and unexpired identifier, a valid name and unit, and a password equal to the hash
  just computed of some coalition's password. It connects the client in that coalition, as a
  guest and without radios, and the interceptor accepts its token as the guest token of the
  client until it expires.
\<close>

theorem guest_login_admission:
  "crypto_lib_ok (en_crypto E) \<Longrightarrow> iter_order (en_order E) (authenticatingClients (cs_auth cs)) \<Longrightarrow>
   cached (cs_keys cs') = Some (k, ec_public (en_crypto E) k) \<Longrightarrow>
   GuestLogin E rq cs = Ret (Accepted (token, coal), cs') \<Longrightarrow>
   \<exists>g entry c. EnableGuestAuth (Security (cs_settings cs)) \<and>
     uuid_parse (en_uuid E) (gq_ClientGuid rq) = Some g \<and>
     authenticatingClients (cs_auth cs) g = Some entry \<and> en_now E \<le> ac_Expires entry \<and>
     checkUsername (gq_Name rq) \<and> checkUnitId (gq_UnitId rq) \<and>
     c \<in> set (Coalitions (cs_settings cs)) \<and> co_Name c = coal \<and>
     (\<exists>i. HashPassword (en_bcrypt E i) (co_Password c) = gq_Password rq) \<and>
     gget (Clients (cs_state cs')) = (gget (Clients (cs_state cs)))(g \<mapsto>
        \<lparr>c_Name = gq_Name rq, c_UnitId = gq_UnitId rq, c_Coalition = coal, c_Role = GuestRole, c_LastUpdate = 0\<rparr>) \<and>
     (\<forall>t. t < token_expiry E cs \<longrightarrow> check_token (en_crypto E) t token GuestRole cs' =
        Ret (Inr (uuid_string (en_uuid E) g, GuestRole), cs_keys cs'))"
proof -
  assume C: "crypto_lib_ok (en_crypto E)" and o: "iter_order (en_order E) (authenticatingClients (cs_auth cs))"
    and k: "cached (cs_keys cs') = Some (k, ec_public (en_crypto E) k)"
    and "GuestLogin E rq cs = Ret (Accepted (token, coal), cs')"
  then show ?thesis
  proof (elim GuestLogin_Accepted, goal_cases)
    case (1 g entry c st cs1 cs3)
    from 1(7,8) have ent: "authenticatingClients (cs_auth cs) g = Some entry" "en_now E \<le> ac_Expires entry"
      by (simp_all add: auth_table.sweep_iff [OF o])
    from select_by_password_Some [OF 1(10)] have pw: "c \<in> set (Coalitions (cs_settings cs))"
      "\<exists>i. HashPassword (en_bcrypt E i) (co_Password c) = gq_Password rq" by auto
    have st: "cs_state cs' = st" and set3: "cs_settings cs3 = cs_settings cs"
      using issue_token_frame [OF 1(14)] 1(7,15) by simp_all
    have "check_token (en_crypto E) t token GuestRole cs' =
        Ret (Inr (uuid_string (en_uuid E) g, GuestRole), cs_keys cs')" if "t < token_expiry E cs" for t
      using issue_token_checks [OF C 1(14), of k t GuestRole] k that 1(7,15)
      by (simp add: check_token_def token_expiry_def)
    with 1 ent pw st AddClient_RetD(1) [OF 1(13)] show ?case by blast
  qed
qed

theorem guest_login_admission_witness:
  "\<exists>token cs'. GuestLogin hash_env \<lparr>gq_Name = ''Bob'', gq_Password = ''$pw'', gq_UnitId = ''AB1'',
        gq_ClientGuid = uuid_string sample_uuid_lib 1\<rparr> sample_control = Ret (Accepted (token, ''blue''), cs') \<and>
     check_token sample_crypto second token GuestRole cs' =
       Ret (Inr (uuid_string sample_uuid_lib 1, GuestRole), cs_keys cs')"
proof -
  let ?rq = "\<lparr>gq_Name = ''Bob'', gq_Password = ''$pw'', gq_UnitId = ''AB1'', gq_ClientGuid = uuid_string sample_uuid_lib 1\<rparr>"
  let ?c = "\<lparr>c_Name = ''Bob'', c_UnitId = ''AB1'', c_Coalition = ''blue'', c_Role = GuestRole, c_LastUpdate = 0\<rparr>"
  obtain st where st: "AddClient 1 ?c (cs_state sample_control) = Ret st" using sample_AddClient by blast
  obtain s where s: "issue_token hash_env (uuid_string sample_uuid_lib 1) GuestRole (sample_control\<lparr>cs_state := st\<rparr>) =
      Ret (Inr s, sample_control\<lparr>cs_state := st\<rparr>)"
    using sample_issue [of "sample_control\<lparr>cs_state := st\<rparr>"] unfolding hash_env_def by atomize_elim simp
  let ?cs = "publish_event (NewEvent ClientsChanged ClientsRef) (sample_control\<lparr>cs_state := st\<rparr>)"
  have g: "GuestLogin hash_env ?rq sample_control = Ret (Accepted (s, ''blue''), ?cs)"
    using st s by (simp add: GuestLogin_def removeExpiredAuthenticatingClients_def lock_mu_def hash_env_def
        checkUsername_def checkUnitId_def unit_char_def HashPassword_def)
  have C: "crypto_lib_ok (en_crypto hash_env)" using sample_crypto_ok by (simp add: hash_env_def)
  have o: "iter_order (en_order hash_env) (authenticatingClients (cs_auth sample_control))"
    using sample_auth_order by (simp add: hash_env_def)
  have k: "cached (cs_keys ?cs) = Some (7, ec_public (en_crypto hash_env) 7)" by (simp add: hash_env_def)
  have e: "second < token_expiry hash_env sample_control" using sample_expiry by (simp add: hash_env_def)
  from guest_login_admission [OF C o k g] e g show ?thesis
    by (auto simp: hash_env_def)
qed





text \<open>
  A coalition whose password \<open>bcrypt\<close> refuses (it has more than 72 bytes) admits guests with the
  empty password: the error of the hash function becomes the empty string the client's password is
  compared with.
\<close>

theorem guest_login_unhashable:
  "EnableGuestAuth (Security (cs_settings cs)) \<Longrightarrow> \<not> a_locked (cs_auth cs) \<Longrightarrow>
   iter_order (en_order E) (authenticatingClients (cs_auth cs)) \<Longrightarrow>
   uuid_parse (en_uuid E) (gq_ClientGuid rq) = Some g \<Longrightarrow>
   authenticatingClients (cs_auth cs) g = Some entry \<Longrightarrow> en_now E \<le> ac_Expires entry \<Longrightarrow>
   checkUsername (gq_Name rq) \<Longrightarrow> checkUnitId (gq_UnitId rq) \<Longrightarrow> gq_Password rq = [] \<Longrightarrow>
   c \<in> set (Coalitions (cs_settings cs)) \<Longrightarrow> \<forall>i. en_bcrypt E i (co_Password c) = None \<Longrightarrow>
   RadioClients (cs_state cs) \<noteq> None \<Longrightarrow> cached (cs_keys cs) = Some (k, p) \<Longrightarrow>
   \<forall>claims. jwt_sign (en_crypto E) k claims \<noteq> None \<Longrightarrow>
   \<exists>token coal cs'. GuestLogin E rq cs = Ret (Accepted (token, coal), cs')"
proof -
  assume a: "EnableGuestAuth (Security (cs_settings cs))" "\<not> a_locked (cs_auth cs)"
    and o: "iter_order (en_order E) (authenticatingClients (cs_auth cs))"
    and g: "uuid_parse (en_uuid E) (gq_ClientGuid rq) = Some g"
      "authenticatingClients (cs_auth cs) g = Some entry" "en_now E \<le> ac_Expires entry"
    and q: "checkUsername (gq_Name rq)" "checkUnitId (gq_UnitId rq)" "gq_Password rq = []"
    and c: "c \<in> set (Coalitions (cs_settings cs))" "\<forall>i. en_bcrypt E i (co_Password c) = None"
    and r: "RadioClients (cs_state cs) \<noteq> None"
    and k: "cached (cs_keys cs) = Some (k, p)" "\<forall>claims. jwt_sign (en_crypto E) k claims \<noteq> None"
  have "c \<in> set xs \<Longrightarrow> \<exists>d. select_by_password (en_bcrypt E) i xs [] = Some d" for i xs
    using c(2) by (induction xs arbitrary: i) (auto simp: HashPassword_def)
  then obtain d where d: "select_by_password (en_bcrypt E) 0 (Coalitions (cs_settings cs)) [] = Some d"
    using c(1) by blast
  have ent: "authenticatingClients (sweep_auth (en_order E) (en_now E) (cs_auth cs)) g = Some entry"
    using g by (simp add: auth_table.sweep_iff [OF o])
  have issue: "\<exists>s. issue_token E guid role x = Ret (Inr s, x)" if "cs_keys x = cs_keys cs" for guid role x
    using k that by (auto simp: issue_token_def GenerateToken_def Let_def split: option.splits)
  obtain st where "AddClient g \<lparr>c_Name = gq_Name rq, c_UnitId = gq_UnitId rq, c_Coalition = co_Name d,
      c_Role = GuestRole, c_LastUpdate = 0\<rparr> (cs_state cs) = Ret st"
    using AddClient_Ret [OF r] by blast
  moreover obtain s where "issue_token E (uuid_string (en_uuid E) g) GuestRole
      (cs\<lparr>cs_auth := sweep_auth (en_order E) (en_now E) (cs_auth cs), cs_state := st\<rparr>) =
      Ret (Inr s, cs\<lparr>cs_auth := sweep_auth (en_order E) (en_now E) (cs_auth cs), cs_state := st\<rparr>)"
    using issue by fastforce
  ultimately show ?thesis
    using a g(1) q d ent by (simp add: GuestLogin_def removeExpiredAuthenticatingClients_def lock_mu_def)
qed

theorem guest_login_unhashable_witness:
  "let cs = sample_control\<lparr>cs_settings := sample_settings\<lparr>Coalitions :=
        [\<lparr>co_Name = ''blue'', co_Description = ''d'', co_Color = ''c'', co_Password = replicate 73 CHR ''x''\<rparr>]\<rparr>\<rparr>
   in \<exists>token coal cs'. GuestLogin hash_env \<lparr>gq_Name = ''Bob'', gq_Password = [], gq_UnitId = ''AB1'',
        gq_ClientGuid = uuid_string sample_uuid_lib 1\<rparr> cs = Ret (Accepted (token, coal), cs')"
proof -
  let ?c = "\<lparr>co_Name = ''blue'', co_Description = ''d'', co_Color = ''c'', co_Password = replicate 73 CHR ''x''\<rparr>"
  let ?cs = "sample_control\<lparr>cs_settings := sample_settings\<lparr>Coalitions := [?c]\<rparr>\<rparr>"
  have k: "cached (cs_keys ?cs) = Some (7, (7, 0))" by simp
  have s: "\<forall>claims. jwt_sign (en_crypto hash_env) 7 claims \<noteq> None"
    by (simp add: hash_env_def sample_crypto_def)
  have e: "0 \<le> ac_Expires sample_entry" by (simp add: sample_entry_def minute_def second_def)
  show ?thesis
    unfolding Let_def
    by (rule guest_login_unhashable [where k = 7 and p = "(7, 0)" and g = 1 and entry = sample_entry and c = ?c, OF _ _ _ _ _ _ _ _ _ _ _ _ k s])
      (use sample_auth_order e in \<open>simp_all add: hash_env_def checkUsername_def checkUnitId_def unit_char_def\<close>,
       simp_all add: sample_control_def gmake_def)
qed



end
