(* ===== verification/SrsService.thy ===== *)
theory SrsService
  imports AuthSafety
begin

text \<open>
  The radio service of connected clients, \<^verbatim>\<open>srs/srs_service.go\<close>, with the conversions of
  \<^verbatim>\<open>srs/utils.go\<close>: synchronisation, updates of a client's data and radios, subscription,
  disconnection and the clean-up of silent subscribers. A handler gets the client identifier the
  interceptor stored in the context; without one the type assertion in the handler panics.
\<close>

subsection \<open>Messages\<close>

record pb_radio =
  pr_Id :: u32
  pr_Name :: string
  pr_Frequency :: float32
  pr_Enabled :: bool
  pr_IsIntercom :: bool

record pb_radio_info =
  pri_Radios :: "pb_radio list"
  pri_Muted :: bool
  pri_LastUpdate :: "int option"

record pb_client_info =
  pci_Name :: string
  pci_Coalition :: string
  pci_UnitId :: string
  pci_RoleId :: u32
  pci_LastUpdate :: "int option"

record pb_settings =
  ps_Coalitions :: "(string \<times> string \<times> string) list"
  ps_TestFrequencies :: "float32 list"
  ps_GlobalFrequencies :: "float32 list"
  ps_MaxRadiosPerClient :: int

record sync_result =
  sr_Clients :: "(string, pb_client_info) gomap"
  sr_Radios :: "(string, pb_radio_info) gomap"
  sr_Settings :: pb_settings

subsection \<open>Conversions and checks\<close>

text \<open>\<open>IsIntercom\<close> is copied in neither direction: the result has its zero value.\<close>

definition convertSingleRadio :: "radio \<Rightarrow> pb_radio" where
  "convertSingleRadio r = \<lparr>pr_Id = r_ID r, pr_Name = r_Name r, pr_Frequency = r_Frequency r,
     pr_Enabled = r_Enabled r, pr_IsIntercom = False\<rparr>"

definition convertRadios :: "radio list \<Rightarrow> pb_radio list" where
  "convertRadios rs = map convertSingleRadio rs"

definition convertSingleRadioState :: "pb_radio \<Rightarrow> radio" where
  "convertSingleRadioState r = \<lparr>r_ID = pr_Id r, r_Name = pr_Name r, r_Frequency = pr_Frequency r,
     r_Enabled = pr_Enabled r, r_IsIntercom = False\<rparr>"

definition convertRadioInfo :: "pb_radio_info \<Rightarrow> radio_state" where
  "convertRadioInfo ri = \<lparr>Radios = map convertSingleRadioState (pri_Radios ri), Muted = pri_Muted ri\<rparr>"

definition canSwapRoles :: "client_state \<Rightarrow> u8 \<Rightarrow> bool" where
  "canSwapRoles client roleId =
     (if roleId = GuestRole then False
      else if roleId < c_Role client then True
      else if c_Role client = roleId then True
      else False)"

text \<open>\<open>Time.Unix\<close>: seconds since 1970, which is 62135596800 seconds after Go's zero time.\<close>

definition unix_seconds :: "time \<Rightarrow> int" where
  "unix_seconds t = t div second - 62135596800"

definition buildServerSettings :: "settings_state \<Rightarrow> pb_settings" where
  "buildServerSettings ss = \<lparr>
     ps_Coalitions = map (\<lambda>c. (co_Name c, co_Description c, co_Color c)) (Coalitions ss),
     ps_TestFrequencies = TestFrequencies (Frequencies ss),
     ps_GlobalFrequencies = GlobalFrequencies (Frequencies ss),
     ps_MaxRadiosPerClient = sint (word_of_int (MaxRadiosPerUser (General ss)) :: 32 word)\<rparr>"

subsection \<open>Synchronisation\<close>

text \<open>The two loops fill a map that is made when the first entry is stored.\<close>

definition store :: "string \<Rightarrow> 'v \<Rightarrow> (string, 'v) gomap \<Rightarrow> (string, 'v) gomap" where
  "store k v m = (case m of None \<Rightarrow> Some [k \<mapsto> v] | Some f \<Rightarrow> Some (f(k \<mapsto> v)))"

fun sync_clients ::
    "uuid_lib \<Rightarrow> (uuid \<times> client_state) list \<Rightarrow> (string, pb_client_info) gomap \<Rightarrow>
     (string, pb_client_info) gomap" where
  "sync_clients L [] m = m"
| "sync_clients L ((g, c) # cs) m =
     sync_clients L cs (store (uuid_string L g)
       \<lparr>pci_Name = c_Name c, pci_Coalition = c_Coalition c, pci_UnitId = [], pci_RoleId = 0,
        pci_LastUpdate = Some (unix_seconds (c_LastUpdate c))\<rparr> m)"

text \<open>The loop over the radios dereferences the client of the same identifier.\<close>

fun sync_radios ::
    "uuid_lib \<Rightarrow> server_state \<Rightarrow> (uuid \<times> radio_state) list \<Rightarrow> (string, pb_radio_info) gomap \<Rightarrow>
     (string, pb_radio_info) gomap outcome" where
  "sync_radios L st [] m = Ret m"
| "sync_radios L st ((g, r) # rs) m =
     (case gget (Clients st) g of
        None \<Rightarrow> Panics
      | Some c \<Rightarrow>
          sync_radios L st rs (store (uuid_string L g)
            \<lparr>pri_Radios = convertRadios (Radios r), pri_Muted = Muted r,
             pri_LastUpdate = Some (unix_seconds (c_LastUpdate c))\<rparr> m))"

definition SyncClient ::
    "uuid_lib \<Rightarrow> uuid list \<Rightarrow> uuid list \<Rightarrow> control_state \<Rightarrow> (sync_result \<times> control_state) outcome" where
  "SyncClient L order order' cs =
     (let clients = GetAllClients order (cs_state cs);
          radioClients = GetAllRadios order' (cs_state cs);
          srsClients = sync_clients L clients None
      in bind_outcome (sync_radios L (cs_state cs) radioClients None) (\<lambda>srsRadios.
           Ret (\<lparr>sr_Clients = srsClients, sr_Radios = srsRadios,
                 sr_Settings = buildServerSettings (cs_settings cs)\<rparr>,
                publish_event (NewEvent ClientsChanged ClientsRef) cs)))"

definition GetServerSettings :: "control_state \<Rightarrow> pb_settings" where
  "GetServerSettings cs = buildServerSettings (cs_settings cs)"

subsection \<open>Requests of one client\<close>

datatype update_error = BadUsername | BadUnitId | BadCoalition | BadRole

datatype srs_response = Done | BadClientId | NotConnected | NoRadios | UpdateErrors "update_error list"

definition with_client ::
    "uuid_lib \<Rightarrow> string option \<Rightarrow> control_state \<Rightarrow> (uuid \<Rightarrow> srs_response \<times> control_state) \<Rightarrow>
     (srs_response \<times> control_state) outcome" where
  "with_client L client_id cs f =
     (case client_id of
        None \<Rightarrow> Panics
      | Some s \<Rightarrow> (case uuid_parse L s of None \<Rightarrow> Ret (BadClientId, cs) | Some g \<Rightarrow> Ret (f g)))"

definition Disconnect ::
    "uuid_lib \<Rightarrow> string option \<Rightarrow> control_state \<Rightarrow> (srs_response \<times> control_state) outcome" where
  "Disconnect L client_id cs =
     with_client L client_id cs (\<lambda>clientID.
       let st = cs_state cs;
           cs1 = cs\<lparr>cs_state := cleanupClientState clientID st\<rparr>
       in if gget (Clients st) clientID = None \<or> gget (RadioClients st) clientID = None
          then (NotConnected, cs1)
          else (Done, publish_event (NewEvent ClientsChanged ClientsRef) cs1))"

text \<open>The four checks of an update; each field that passes is written at once.\<close>

definition update_client ::
    "settings_state \<Rightarrow> time \<Rightarrow> pb_client_info \<Rightarrow> client_state \<Rightarrow> update_error list \<times> client_state" where
  "update_client ss now req client =
     (let (e1, c1) = (if \<not> checkUsername (pci_Name req) then ([BadUsername], client)
                      else ([], client\<lparr>c_Name := pci_Name req\<rparr>));
          (e2, c2) = (if \<not> checkUnitId (pci_UnitId req) then (e1 @ [BadUnitId], c1)
                      else (e1, c1\<lparr>c_UnitId := pci_UnitId req\<rparr>));
          (e3, c3) = (if \<not> DoesCoalitionExist (pci_Coalition req) ss then (e2 @ [BadCoalition], c2)
                      else (e2, c2\<lparr>c_Coalition := pci_Coalition req\<rparr>));
          (e4, c4) = (if \<not> canSwapRoles c3 (ucast (pci_RoleId req)) then (e3 @ [BadRole], c3)
                      else (e3, c3\<lparr>c_Role := ucast (pci_RoleId req)\<rparr>))
      in (e4, c4\<lparr>c_LastUpdate := now\<rparr>))"

definition UpdateClientInfo ::
    "uuid_lib \<Rightarrow> time \<Rightarrow> string option \<Rightarrow> pb_client_info \<Rightarrow> control_state \<Rightarrow>
     (srs_response \<times> control_state) outcome" where
  "UpdateClientInfo L now client_id req cs =
     with_client L client_id cs (\<lambda>clientID.
       case gget (Clients (cs_state cs)) clientID of
         None \<Rightarrow> (NotConnected, cs)
       | Some client \<Rightarrow>
           let (errors, client') = update_client (cs_settings cs) now req client;
               cs1 = cs\<lparr>cs_state := (cs_state cs)\<lparr>
                       Clients := gadjust (Clients (cs_state cs)) clientID (\<lambda>_. client')\<rparr>\<rparr>
           in if errors \<noteq> [] then (UpdateErrors errors, cs1)
              else (Done, publish_event (NewEvent ClientsChanged ClientsRef) cs1))"

definition UpdateRadioInfo ::
    "uuid_lib \<Rightarrow> string option \<Rightarrow> pb_radio_info \<Rightarrow> control_state \<Rightarrow>
     (srs_response \<times> control_state) outcome" where
  "UpdateRadioInfo L client_id req cs =
     with_client L client_id cs (\<lambda>clientID.
       if gget (RadioClients (cs_state cs)) clientID = None then (NoRadios, cs)
       else (Done, publish_event (NewEvent RadioClientsChanged RadioClientsRef)
              (cs\<lparr>cs_state := (cs_state cs)\<lparr>RadioClients :=
                 gadjust (RadioClients (cs_state cs)) clientID (\<lambda>_. convertRadioInfo req)\<rparr>\<rparr>)))"

text \<open>The stream handler: \<open>False\<close> is an error, after which gRPC closes the stream; so it does after success.\<close>

definition SubscribeToUpdates ::
    "uuid_lib \<Rightarrow> string option \<Rightarrow> control_state \<Rightarrow> (bool \<times> control_state) outcome" where
  "SubscribeToUpdates L client_id cs =
     (case client_id of
        None \<Rightarrow> Panics
      | Some s \<Rightarrow>
          (case uuid_parse L s of
             None \<Rightarrow> Ret (False, cs)
           | Some g \<Rightarrow>
               if g \<in> cs_streams cs then Ret (False, cs)
               else Ret (True, cs\<lparr>cs_streams := insert g (cs_streams cs)\<rparr>)))"

subsection \<open>Clean-up of silent clients\<close>

definition staleAfter :: duration where "staleAfter = 10 * minute"

text \<open>One round: the loop ranges over the streams and removes what is gone or silent.\<close>

fun stale_round :: "time \<Rightarrow> uuid list \<Rightarrow> control_state \<Rightarrow> control_state" where
  "stale_round now [] cs = cs"
| "stale_round now (g # gs) cs =
     stale_round now gs
       (if g \<in> cs_streams cs \<and>
           (case gget (Clients (cs_state cs)) g of
              None \<Rightarrow> True
            | Some client \<Rightarrow> staleAfter < time_sub now (c_LastUpdate client))
        then cs\<lparr>cs_state := cleanupClientState g (cs_state cs), cs_streams := cs_streams cs - {g}\<rparr>
        else cs)"

subsection \<open>Lemmas\<close>

lemma gget_store: "gget (store k v m) = (gget m)(k \<mapsto> v)"
  by (cases m) (auto simp: store_def)

lemma convert_roundtrip:
  "convertRadios (map convertSingleRadioState rs) = map (\<lambda>r. r\<lparr>pr_IsIntercom := False\<rparr>) rs"
  by (simp add: convertRadios_def convertSingleRadio_def convertSingleRadioState_def)

lemma canSwapRoles_iff: "canSwapRoles c r \<longleftrightarrow> r \<noteq> GuestRole \<and> r \<le> c_Role c"
  by (auto simp: canSwapRoles_def)

lemma update_client_role: "c_Role (snd (update_client ss now req c)) \<le> c_Role c"
  by (simp add: update_client_def canSwapRoles_iff Let_def)

lemma update_client_eq:
  "update_client ss now req c =
     ((if checkUsername (pci_Name req) then [] else [BadUsername]) @
      (if checkUnitId (pci_UnitId req) then [] else [BadUnitId]) @
      (if DoesCoalitionExist (pci_Coalition req) ss then [] else [BadCoalition]) @
      (if canSwapRoles c (ucast (pci_RoleId req)) then [] else [BadRole]),
      \<lparr>c_Name = (if checkUsername (pci_Name req) then pci_Name req else c_Name c),
       c_UnitId = (if checkUnitId (pci_UnitId req) then pci_UnitId req else c_UnitId c),
       c_Coalition = (if DoesCoalitionExist (pci_Coalition req) ss then pci_Coalition req else c_Coalition c),
       c_Role = (if canSwapRoles c (ucast (pci_RoleId req)) then ucast (pci_RoleId req) else c_Role c),
       c_LastUpdate = now\<rparr>)"
  by (simp add: update_client_def canSwapRoles_def Let_def)

lemma with_client_Ret:
  "with_client L cid cs f = Ret x \<longleftrightarrow>
     (\<exists>s. cid = Some s \<and> (uuid_parse L s = None \<and> x = (BadClientId, cs) \<or> (\<exists>g. uuid_parse L s = Some g \<and> x = f g)))"
  by (auto simp: with_client_def split: option.splits)

text \<open>The maps of a synchronisation.\<close>

lemma sync_clients_other:
  "k \<notin> uuid_string L ` fst ` set cs \<Longrightarrow> gget (sync_clients L cs m) k = gget m k"
  by (induction L cs m rule: sync_clients.induct) (auto simp: gget_store)

lemma uuid_string_inj: "uuid_lib_ok L \<Longrightarrow> uuid_string L g = uuid_string L h \<longleftrightarrow> g = h"
  by (metis option.inject uuid_lib_okD(4))

lemma string_fresh:
  assumes "uuid_lib_ok L" and "distinct (map fst ((g, c) # cs))"
  shows "uuid_string L g \<notin> uuid_string L ` fst ` set cs"
proof
  assume "uuid_string L g \<in> uuid_string L ` fst ` set cs"
  then obtain h where "h \<in> fst ` set cs" "uuid_string L g = uuid_string L h" by blast
  then show False using assms by (simp add: uuid_string_inj)
qed

lemma gget_sync_clients:
  assumes L: "uuid_lib_ok L" and "distinct (map fst cs)" and "(g, c) \<in> set cs"
  shows "gget (sync_clients L cs m) (uuid_string L g) = Some
    \<lparr>pci_Name = c_Name c, pci_Coalition = c_Coalition c, pci_UnitId = [], pci_RoleId = 0,
     pci_LastUpdate = Some (unix_seconds (c_LastUpdate c))\<rparr>"
  using assms(2,3)
proof (induction cs arbitrary: m)
  case (Cons x cs)
  obtain h d where x: "x = (h, d)" by (cases x)
  show ?case
  proof (cases "(g, c) = x")
    case True
    with Cons.prems have "uuid_string L g \<notin> uuid_string L ` fst ` set cs"
      using x string_fresh [OF L] by auto
    then show ?thesis using True by (simp add: sync_clients_other gget_store flip: True)
  next
    case False
    with Cons.prems have "(g, c) \<in> set cs" "distinct (map fst cs)" by auto
    from Cons.IH [OF this(2,1)] show ?thesis by (simp add: x)
  qed
qed simp

lemma sync_radios_other:
  "sync_radios L st rs m = Ret m' \<Longrightarrow> k \<notin> uuid_string L ` fst ` set rs \<Longrightarrow> gget m' k = gget m k"
  by (induction L st rs m rule: sync_radios.induct) (auto simp: gget_store split: option.splits)

lemma gget_sync_radios:
  assumes L: "uuid_lib_ok L" and "distinct (map fst rs)" and "sync_radios L st rs m = Ret m'"
    and "(g, r) \<in> set rs"
  shows "\<exists>c. gget (Clients st) g = Some c \<and> gget m' (uuid_string L g) = Some
    \<lparr>pri_Radios = convertRadios (Radios r), pri_Muted = Muted r,
     pri_LastUpdate = Some (unix_seconds (c_LastUpdate c))\<rparr>"
  using assms(2-)
proof (induction rs arbitrary: m)
  case (Cons x rs)
  obtain h d where x: "x = (h, d)" by (cases x)
  obtain c where c: "gget (Clients st) h = Some c" using Cons.prems(2) by (auto simp: x split: option.splits)
  show ?case
  proof (cases "(g, r) = x")
    case True
    with Cons.prems have "uuid_string L g \<notin> uuid_string L ` fst ` set rs"
      using x string_fresh [OF L] by auto
    with True x c Cons.prems(2) show ?thesis by (auto dest!: sync_radios_other simp: gget_store)
  next
    case False
    with Cons.prems have "(g, r) \<in> set rs" "distinct (map fst rs)" by auto
    with Cons.IH Cons.prems(2) show ?thesis by (simp add: x c)
  qed
qed simp

lemma sync_radios_Ret_iff:
  "(\<exists>m'. sync_radios L st rs m = Ret m') \<longleftrightarrow> fst ` set rs \<subseteq> gdom (Clients st)"
  by (induction L st rs m rule: sync_radios.induct) (auto simp: gdom_def split: option.splits)

lemma sync_radios_Panics: "(\<nexists>m'. sync_radios L st rs m = Ret m') \<Longrightarrow> sync_radios L st rs m = Panics"
  by (induction L st rs m rule: sync_radios.induct) (auto split: option.splits)

lemma domain_entries:
  "iter_order ks f \<Longrightarrow> fst ` set (entries_in ks f) = dom f"
  by (force simp: set_entries_iter)

lemma SyncClient_Panics:
  assumes "iter_order order' (gget (RadioClients (cs_state cs)))"
    and "\<not> gdom (RadioClients (cs_state cs)) \<subseteq> gdom (Clients (cs_state cs))"
  shows "SyncClient L order order' cs = Panics"
proof -
  have "fst ` set (GetAllRadios order' (cs_state cs)) = gdom (RadioClients (cs_state cs))"
    using assms(1) by (simp add: GetAllRadios_def domain_entries gdom_def)
  then have "sync_radios L (cs_state cs) (GetAllRadios order' (cs_state cs)) None = Panics"
    using assms(2) sync_radios_Ret_iff [of L "cs_state cs" "GetAllRadios order' (cs_state cs)" None]
    by (intro sync_radios_Panics) simp
  then show ?thesis by (simp add: SyncClient_def Let_def)
qed

text \<open>Expiry, for the clients that subscribed.\<close>

definition stale :: "time \<Rightarrow> control_state \<Rightarrow> uuid \<Rightarrow> bool" where
  "stale now cs g \<longleftrightarrow> (case gget (Clients (cs_state cs)) g of
     None \<Rightarrow> True | Some client \<Rightarrow> staleAfter < time_sub now (c_LastUpdate client))"

lemma stale_round_spec:
  "distinct gs \<Longrightarrow>
   (let cs' = stale_round now gs cs; R = {g \<in> set gs. g \<in> cs_streams cs \<and> stale now cs g} in
     cs_streams cs' = cs_streams cs - R \<and>
     (\<forall>g. gget (Clients (cs_state cs')) g = (if g \<in> R then None else gget (Clients (cs_state cs)) g)) \<and>
     (\<forall>g. gget (RadioClients (cs_state cs')) g = (if g \<in> R then None else gget (RadioClients (cs_state cs)) g)))"
proof (induction gs arbitrary: cs)
  case (Cons g gs)
  let ?rm = "g \<in> cs_streams cs \<and> stale now cs g"
  define cs1 where "cs1 = (if ?rm then cs\<lparr>cs_state := cleanupClientState g (cs_state cs),
     cs_streams := cs_streams cs - {g}\<rparr> else cs)"
  have step: "stale_round now (g # gs) cs = stale_round now gs cs1"
    by (simp add: cs1_def stale_def)
  have fields: "cs_streams cs1 = cs_streams cs - (if ?rm then {g} else {})"
    "\<And>h. gget (Clients (cs_state cs1)) h = (if ?rm \<and> h = g then None else gget (Clients (cs_state cs)) h)"
    "\<And>h. gget (RadioClients (cs_state cs1)) h = (if ?rm \<and> h = g then None else gget (RadioClients (cs_state cs)) h)"
    by (auto simp: cs1_def cleanupClientState_eq gomap_simps)
  have stale: "h \<noteq> g \<Longrightarrow> stale now cs1 h = stale now cs h" for h
    by (simp add: stale_def fields)
  have "(h \<in> cs_streams cs1 \<and> stale now cs1 h) = (h \<in> cs_streams cs \<and> stale now cs h)" if "h \<in> set gs" for h
  proof -
    have "h \<noteq> g" using that Cons.prems by auto
    then show ?thesis using stale by (auto simp: fields)
  qed
  then have R: "{h \<in> set gs. h \<in> cs_streams cs1 \<and> stale now cs1 h} =
      {h \<in> set gs. h \<in> cs_streams cs \<and> stale now cs h}"
    by blast
  show ?case
    using Cons.IH [of cs1] Cons.prems unfolding step R Let_def
    by (auto simp: fields)
qed (simp add: Let_def)

subsection \<open>Properties\<close>

text \<open>
  C21: Synchronisation. When each client with radios is connected, it returns the table of all
  clients, the radios of all clients that have an entry and the public settings, under the clients'
  identifiers and nothing else, and changes no client; when one of the radio entries has no
  client, the server panics.
\<close>

theorem sync_client_outcome:
  "uuid_lib_ok L \<Longrightarrow> iter_order order (gget (Clients (cs_state cs))) \<Longrightarrow>
   iter_order order' (gget (RadioClients (cs_state cs))) \<Longrightarrow>
   (gdom (RadioClients (cs_state cs)) \<subseteq> gdom (Clients (cs_state cs)) \<longrightarrow>
     (\<exists>res cs'. SyncClient L order order' cs = Ret (res, cs') \<and> cs_state cs' = cs_state cs \<and>
        sr_Settings res = buildServerSettings (cs_settings cs) \<and>
        gdom (sr_Clients res) = uuid_string L ` gdom (Clients (cs_state cs)) \<and>
        gdom (sr_Radios res) = uuid_string L ` gdom (RadioClients (cs_state cs)) \<and>
        (\<forall>g c. gget (Clients (cs_state cs)) g = Some c \<longrightarrow>
           gget (sr_Clients res) (uuid_string L g) = Some
             \<lparr>pci_Name = c_Name c, pci_Coalition = c_Coalition c, pci_UnitId = [], pci_RoleId = 0,
              pci_LastUpdate = Some (unix_seconds (c_LastUpdate c))\<rparr>) \<and>
        (\<forall>g r. gget (RadioClients (cs_state cs)) g = Some r \<longrightarrow>
           map_option pri_Radios (gget (sr_Radios res) (uuid_string L g)) = Some (convertRadios (Radios r))))) \<and>
   (\<not> gdom (RadioClients (cs_state cs)) \<subseteq> gdom (Clients (cs_state cs)) \<longrightarrow>
     SyncClient L order order' cs = Panics)"
proof (intro conjI impI, goal_cases)
  case 1
  let ?cl = "GetAllClients order (cs_state cs)" and ?ra = "GetAllRadios order' (cs_state cs)"
  have d: "distinct (map fst ?cl)" "distinct (map fst ?ra)"
    using 1 by (simp_all add: GetAllClients_def GetAllRadios_def distinct_entries_in iter_order_def)
  have dom: "fst ` set ?cl = gdom (Clients (cs_state cs))" "fst ` set ?ra = gdom (RadioClients (cs_state cs))"
    using 1 by (simp_all add: GetAllClients_def GetAllRadios_def domain_entries gdom_def)
  obtain m where m: "sync_radios L (cs_state cs) ?ra None = Ret m"
    using sync_radios_Ret_iff [of L "cs_state cs" ?ra None] 1(4) dom(2) by auto
  have cl: "gget (sync_clients L ?cl None) (uuid_string L g) = Some
      \<lparr>pci_Name = c_Name c, pci_Coalition = c_Coalition c, pci_UnitId = [], pci_RoleId = 0,
       pci_LastUpdate = Some (unix_seconds (c_LastUpdate c))\<rparr>" if "gget (Clients (cs_state cs)) g = Some c" for g c
    using gget_sync_clients [OF 1(1) d(1)] that 1(2) by (simp add: GetAllClients_def set_entries_iter)
  have ra: "\<exists>c :: client_state. gget m (uuid_string L g) = Some \<lparr>pri_Radios = convertRadios (Radios r), pri_Muted = Muted r,
      pri_LastUpdate = Some (unix_seconds (c_LastUpdate c))\<rparr>" if "gget (RadioClients (cs_state cs)) g = Some r" for g r
  proof -
    have "(g, r) \<in> set ?ra" using that 1(3) by (simp add: GetAllRadios_def set_entries_iter)
    from gget_sync_radios [OF 1(1) d(2) m this] show ?thesis by blast
  qed
  have "gdom (sync_clients L ?cl None) = uuid_string L ` gdom (Clients (cs_state cs))"
    using sync_clients_other [of _ L ?cl None] cl unfolding dom(1) by (fastforce simp: gdom_def)
  moreover have "gdom m = uuid_string L ` gdom (RadioClients (cs_state cs))"
    using sync_radios_other [OF m] ra unfolding dom(2) by (fastforce simp: gdom_def)
  ultimately show ?case
    using m cl ra by (fastforce simp: SyncClient_def Let_def)
next
  case 2
  then show ?case by (simp add: SyncClient_Panics)
qed

definition sample_clients :: server_state where
  "sample_clients = \<lparr>
     Clients = Some [1 \<mapsto> \<lparr>c_Name = ''a'', c_UnitId = ''AA'', c_Coalition = ''blue'', c_Role = GuestRole, c_LastUpdate = 0\<rparr>],
     RadioClients = Some [1 \<mapsto> \<lparr>Radios = [], Muted = False\<rparr>, 2 \<mapsto> \<lparr>Radios = [], Muted = False\<rparr>],
     BannedSt = \<lparr>BannedClients = [], ban_file = ''bans''\<rparr>\<rparr>"

theorem sync_client_outcome_witness:
  "SyncClient sample_uuid_lib [1] [1, 2] (sample_control\<lparr>cs_state := sample_clients\<rparr>) = Panics \<and>
   (\<exists>res cs'. SyncClient sample_uuid_lib [1] [1] (sample_control\<lparr>cs_state := cleanupClientState 2 sample_clients\<rparr>) =
      Ret (res, cs'))"
proof -
  let ?a = "sample_control\<lparr>cs_state := sample_clients\<rparr>"
  let ?b = "sample_control\<lparr>cs_state := cleanupClientState 2 sample_clients\<rparr>"
  have o: "iter_order [1] (gget (Clients (cs_state ?a)))" "iter_order [1, 2] (gget (RadioClients (cs_state ?a)))"
    "iter_order [1] (gget (Clients (cs_state ?b)))" "iter_order [1] (gget (RadioClients (cs_state ?b)))"
    by (auto simp: iter_order_def sample_clients_def cleanupClientState_eq gdel_def)
  show ?thesis
    using sync_client_outcome [OF sample_uuid_lib_ok o(1,2)] sync_client_outcome [OF sample_uuid_lib_ok o(3,4)]
    by (auto simp: gdom_def sample_clients_def cleanupClientState_eq gdel_def)
qed



text \<open>
  A client sets its own radios and nobody else's: after the update it hears exactly the
  frequencies whose first radio in the message is switched on, from every connected sender, and for
  all other clients nothing changes. The mute flag is taken from the message too.
\<close>

theorem update_radio_info:
  "uuid_parse L s = Some g \<Longrightarrow> gget (RadioClients (cs_state cs)) g = Some r0 \<Longrightarrow>
   \<exists>cs'. UpdateRadioInfo L (Some s) req cs = Ret (Done, cs') \<and>
     map_option Muted (gget (RadioClients (cs_state cs')) g) = Some (pri_Muted req) \<and>
     (\<forall>v f gl. IsListeningOnFrequency g v f gl (cs_state cs') \<longleftrightarrow> DoesClientExist v (cs_state cs) \<and>
        (\<exists>r. find (\<lambda>r. f32_eq (pr_Frequency r) f) (pri_Radios req) = Some r \<and> pr_Enabled r)) \<and>
     (\<forall>u v f gl. u \<noteq> g \<longrightarrow> IsListeningOnFrequency u v f gl (cs_state cs') =
        IsListeningOnFrequency u v f gl (cs_state cs))"
proof -
  assume p: "uuid_parse L s = Some g" and r0: "gget (RadioClients (cs_state cs)) g = Some r0"
  let ?cs = "publish_event (NewEvent RadioClientsChanged RadioClientsRef)
    (cs\<lparr>cs_state := (cs_state cs)\<lparr>RadioClients :=
       gadjust (RadioClients (cs_state cs)) g (\<lambda>_. convertRadioInfo req)\<rparr>\<rparr>)"
  have t: "tuned (map convertSingleRadioState rs) f \<longleftrightarrow>
      (\<exists>r. find (\<lambda>r. f32_eq (pr_Frequency r) f) rs = Some r \<and> pr_Enabled r)" for rs f
    by (induction rs) (auto simp: convertSingleRadioState_def)
  have call: "UpdateRadioInfo L (Some s) req cs = Ret (Done, ?cs)"
    using p r0 by (simp add: UpdateRadioInfo_def with_client_def)
  show ?thesis
    using r0 by (intro exI [of _ ?cs] conjI)
      (simp_all add: call gomap_simps IsListening_iff DoesClientExist_def t, simp_all add: convertRadioInfo_def t)
qed

theorem update_radio_info_witness:
  "\<exists>cs'. UpdateRadioInfo sample_uuid_lib (Some (uuid_string sample_uuid_lib 2))
      \<lparr>pri_Radios = [\<lparr>pr_Id = 1, pr_Name = ''r'', pr_Frequency = Fin32 5, pr_Enabled = True, pr_IsIntercom = True\<rparr>],
       pri_Muted = False, pri_LastUpdate = None\<rparr> (sample_control\<lparr>cs_state := sample_clients\<rparr>) = Ret (Done, cs') \<and>
     IsListeningOnFrequency 2 1 (Fin32 5) False (cs_state cs')"
proof -
  let ?cs = "sample_control\<lparr>cs_state := sample_clients\<rparr>"
  have r: "gget (RadioClients (cs_state ?cs)) 2 = Some \<lparr>Radios = [], Muted = False\<rparr>"
    by (simp add: sample_clients_def)
  have "DoesClientExist 1 (cs_state ?cs)" by (simp add: DoesClientExist_def sample_clients_def)
  with update_radio_info [OF sample_parse r] show ?thesis by fastforce
qed

text \<open>
  C23: One round of the clean-up removes from both tables exactly the subscribed clients that are no
  longer connected or have not updated their data for ten minutes; clients that have not subscribed
  stay for ever, however silent they are.
\<close>

theorem stale_cleanup:
  "distinct gs \<Longrightarrow> set gs = cs_streams cs \<Longrightarrow>
   (\<forall>g. DoesClientExist g (cs_state (stale_round now gs cs)) \<longleftrightarrow> DoesClientExist g (cs_state cs) \<and>
      (g \<notin> cs_streams cs \<or> (\<exists>c. gget (Clients (cs_state cs)) g = Some c \<and> time_sub now (c_LastUpdate c) \<le> staleAfter))) \<and>
   (\<forall>g. g \<in> gdom (RadioClients (cs_state (stale_round now gs cs))) \<longleftrightarrow> g \<in> gdom (RadioClients (cs_state cs)) \<and>
      (g \<notin> cs_streams cs \<or> (\<exists>c. gget (Clients (cs_state cs)) g = Some c \<and> time_sub now (c_LastUpdate c) \<le> staleAfter))) \<and>
   cs_streams (stale_round now gs cs) = {g \<in> cs_streams cs. \<exists>c. gget (Clients (cs_state cs)) g = Some c \<and>
      time_sub now (c_LastUpdate c) \<le> staleAfter}"
proof -
  assume d: "distinct gs" "set gs = cs_streams cs"
  define live where "live g \<longleftrightarrow>
      (\<exists>c. gget (Clients (cs_state cs)) g = Some c \<and> time_sub now (c_LastUpdate c) \<le> staleAfter)" for g
  have "stale now cs g \<longleftrightarrow> \<not> live g" for g
    by (auto simp: stale_def live_def not_less split: option.splits)
  with stale_round_spec [OF d(1), of now cs] d(2) have
    st: "cs_streams (stale_round now gs cs) = cs_streams cs - {g \<in> cs_streams cs. \<not> live g}"
    and cl: "\<And>g. gget (Clients (cs_state (stale_round now gs cs))) g =
        (if g \<in> cs_streams cs \<and> \<not> live g then None else gget (Clients (cs_state cs)) g)"
    and ra: "\<And>g. gget (RadioClients (cs_state (stale_round now gs cs))) g =
        (if g \<in> cs_streams cs \<and> \<not> live g then None else gget (RadioClients (cs_state cs)) g)"
    by (auto simp: Let_def)
  show ?thesis
    unfolding live_def [symmetric] by (auto simp: DoesClientExist_def gdom_iff cl ra st)
qed

text \<open>A client that has just logged in and subscribed is removed by the first round.\<close>

theorem stale_cleanup_witness:
  "let cs = sample_control\<lparr>cs_state := sample_clients, cs_streams := {1}\<rparr>;
       now = 2024 * 365 * 86400 * second
   in DoesClientExist 1 (cs_state cs) \<and> \<not> DoesClientExist 1 (cs_state (stale_round now [1] cs))"
proof -
  let ?cs = "sample_control\<lparr>cs_state := sample_clients, cs_streams := {1}\<rparr>"
  have "staleAfter < time_sub (2024 * 365 * 86400 * second) 0"
    by (simp add: staleAfter_def minute_def second_def time_sub_def)
  moreover have "DoesClientExist 1 (cs_state ?cs)" by (simp add: DoesClientExist_def sample_clients_def)
  ultimately show ?thesis
    using stale_cleanup [of "[1]" ?cs "2024 * 365 * 86400 * second"]
    by (simp add: Let_def) (simp add: sample_clients_def)
qed

end
