(* ===== verification/ControlServer.thy ===== *)
theory ControlServer
  imports SrsService
begin

text \<open>
  The gRPC front of the control server, \<^verbatim>\<open>control/server.go\<close> and \<^verbatim>\<open>control/health.go\<close>: the health
  table and the loop that fills it, start and stop, the interceptor that checks tokens, and the
  dispatch of a request through the interceptor to its handler. The voice control service of
  \<^verbatim>\<open>voiceontrol/service.go\<close> is here too. Listening, TLS and the gRPC runtime are parameters or left
  out; an unrecovered panic in a handler ends the process.
\<close>

subsection \<open>Health\<close>

datatype serving_status = UNKNOWN | SERVING | NOT_SERVING | SERVICE_UNKNOWN

type_synonym health_server = "string \<rightharpoonup> serving_status"

definition NewFullHealthServer :: health_server where
  "NewFullHealthServer = [[] \<mapsto> SERVING]"

definition health_Check :: "string \<Rightarrow> health_server \<Rightarrow> serving_status" where
  "health_Check service h = (case h service of None \<Rightarrow> SERVICE_UNKNOWN | Some s \<Rightarrow> s)"

text \<open>\<open>Watch\<close> sends one answer and ends the stream.\<close>

definition health_Watch :: "string \<Rightarrow> health_server \<Rightarrow> serving_status list" where
  "health_Watch service h = [health_Check service h]"

definition health_List :: "string list \<Rightarrow> health_server \<Rightarrow> (string \<times> serving_status) list" where
  "health_List order h = entries_in order h"

definition SetServingStatus :: "string \<Rightarrow> serving_status \<Rightarrow> health_server \<Rightarrow> health_server" where
  "SetServingStatus service status h =
     (if status = SERVING \<or> status = NOT_SERVING then h(service \<mapsto> status) else h(service := None))"

text \<open>
  The three services answer whether they have a state; the authentication service does so under
  its mutex. In a running server the state is always set.
\<close>

definition GetServerState :: "bool \<Rightarrow> serving_status" where
  "GetServerState has_state = (if \<not> has_state then SERVICE_UNKNOWN else SERVING)"

definition auth_GetServerState :: "bool \<Rightarrow> auth_server \<Rightarrow> serving_status outcome" where
  "auth_GetServerState has_state a =
     (if a_locked a then Blocks else Ret (if \<not> has_state then SERVICE_UNKNOWN else SERVING))"

definition vc_GetServerState :: "bool \<Rightarrow> serving_status" where
  "vc_GetServerState has_state = (if \<not> has_state then SERVICE_UNKNOWN else SERVING)"

text \<open>Registering a voice server keeps nothing; the answer has no frequencies.\<close>

definition RegisterVoiceServer :: "string \<Rightarrow> string \<Rightarrow> bool \<times> string \<times> (int \<times> int) list" where
  "RegisterVoiceServer serverId address = (True, ''Voice server registered successfully'', [])"

definition monitor_round :: "bool \<Rightarrow> control_state \<Rightarrow> health_server \<Rightarrow> health_server outcome" where
  "monitor_round has_state cs h =
     (let srsStatus = GetServerState has_state in
      bind_outcome (auth_GetServerState has_state (cs_auth cs)) (\<lambda>authStatus.
        let h1 = SetServingStatus ''auth'' authStatus (SetServingStatus ''srs'' srsStatus h);
            controlStatus = vc_GetServerState has_state;
            h2 = (if cs_mode cs = DistributionModeControl
                  then SetServingStatus ''control'' controlStatus h1 else h1)
        in Ret (if srsStatus = SERVING \<and> controlStatus = SERVING \<and> authStatus = SERVING
                then SetServingStatus [] SERVING h2 else SetServingStatus [] NOT_SERVING h2)))"

subsection \<open>Start and stop\<close>

text \<open>\<open>k_locked\<close>: a start returned an error and left the mutex locked.\<close>

record control_server =
  k_locked :: bool
  k_clientGrpcServer :: bool
  k_controlGrpcServer :: bool
  k_clientListener :: bool
  k_controlListener :: bool
  k_isRunning :: bool
  k_stopOnce :: bool

definition NewControlServer :: control_server where
  "NewControlServer = \<lparr>k_locked = False, k_clientGrpcServer = False, k_controlGrpcServer = False,
     k_clientListener = False, k_controlListener = False, k_isRunning = False, k_stopOnce = False\<rparr>"

definition IsRunning :: "control_server \<Rightarrow> bool outcome" where
  "IsRunning k = (if k_locked k then Blocks else Ret (k_isRunning k))"

definition initControlServer :: "bool \<Rightarrow> control_server \<Rightarrow> control_server" where
  "initControlServer cert_ok k = (if \<not> cert_ok then k else k\<lparr>k_controlGrpcServer := True\<rparr>)"

datatype start_error = AlreadyRunning | ListenFailed | ListenControlFailed

text \<open>
  \<open>listen_ok\<close>, \<open>listen_control_ok\<close> and \<open>cert_ok\<close> are the results of the two \<open>net.Listen\<close> and of
  loading the certificate; registering a service on a \<open>nil\<close> gRPC server panics. The new services
  start with empty tables.
\<close>

definition StartControl ::
    "plugin_net \<Rightarrow> bool \<Rightarrow> bool \<Rightarrow> bool \<Rightarrow> control_server \<Rightarrow> control_state \<Rightarrow>
     (start_error option \<times> control_server \<times> control_state) outcome" where
  "StartControl N listen_ok listen_control_ok cert_ok k cs =
     bind_outcome (IsRunning k) (\<lambda>running.
       if running then Ret (Some AlreadyRunning, k, cs)
       else if \<not> listen_ok then Ret (Some ListenFailed, k\<lparr>k_locked := True, k_clientListener := False\<rparr>, cs)
       else
         let isControl = (cs_mode cs = DistributionModeControl);
             k1 = k\<lparr>k_clientListener := True\<rparr>
         in if isControl \<and> \<not> listen_control_ok
            then Ret (Some ListenControlFailed, k1\<lparr>k_locked := True, k_controlListener := False\<rparr>, cs)
            else
              let k2 = k1\<lparr>k_controlListener := (isControl \<or> k_controlListener k1), k_clientGrpcServer := True\<rparr>
              in bind_outcome (NewAuthServer N (cs_settings cs)) (\<lambda>(auth, ss).
                   let k3 = (if isControl then initControlServer cert_ok k2 else k2)
                   in if isControl \<and> \<not> k_controlGrpcServer k3 then Panics
                      else Ret (None, k3\<lparr>k_isRunning := True\<rparr>,
                             cs\<lparr>cs_auth := auth, cs_settings := ss, cs_streams := {}\<rparr>)))"

definition StopControl :: "control_server \<Rightarrow> control_server outcome" where
  "StopControl k =
     (if k_stopOnce k then Ret k
      else bind_outcome (IsRunning k) (\<lambda>running.
        if \<not> running then Ret (k\<lparr>k_stopOnce := True\<rparr>)
        else Ret (k\<lparr>k_stopOnce := True, k_isRunning := False, k_clientGrpcServer := False,
                    k_controlGrpcServer := False, k_clientListener := False, k_controlListener := False\<rparr>)))"

text \<open>\<open>serveClient\<close> and \<open>serveControl\<close> when \<open>Serve\<close> returns an error.\<close>

definition serve_failed :: "control_server \<Rightarrow> control_server outcome" where
  "serve_failed k = (if k_locked k then Blocks else Ret (k\<lparr>k_isRunning := False\<rparr>))"

subsection \<open>The interceptor\<close>

text \<open>\<open>strings.Split\<close> at a one-character separator and \<open>strings.TrimPrefix\<close>.\<close>

fun split_at :: "char \<Rightarrow> string \<Rightarrow> string list" where
  "split_at c [] = [[]]"
| "split_at c (x # xs) =
     (if x = c then [] # split_at c xs
      else case split_at c xs of [] \<Rightarrow> [[x]] | p # ps \<Rightarrow> (x # p) # ps)"

definition trim_prefix :: "string \<Rightarrow> string \<Rightarrow> string" where
  "trim_prefix p s = (if take (length p) s = p then drop (length p) s else s)"

datatype denial = MissingMetadata | MissingToken | AuthenticationError token_error

text \<open>What the handler is called with: no client identifier, or that of the token.\<close>

datatype intercepted = NoAuthentication | ClientId string | Denied denial

definition authInterceptor ::
    "call_env \<Rightarrow> string \<Rightarrow> (string \<Rightarrow> string list) option \<Rightarrow> control_state \<Rightarrow>
     (intercepted \<times> control_state) outcome" where
  "authInterceptor E fullMethod metadata cs =
     (let elements = split_at CHR ''/'' fullMethod in
      if length elements < 3 then Panics
      else
        let pathName = elements ! 2;
            serviceParts = split_at CHR ''.'' (elements ! 1)
        in if length serviceParts < 2 then Panics
           else if serviceParts ! 1 = ''AuthService'' \<or> serviceParts ! 1 = ''VoiceControlService''
           then Ret (NoAuthentication, cs)
           else (case metadata of
                   None \<Rightarrow> Ret (Denied MissingMetadata, cs)
                 | Some md \<Rightarrow>
                     (case md ''authorization'' of
                        [] \<Rightarrow> Ret (Denied MissingToken, cs)
                      | t # _ \<Rightarrow>
                          let token = trim_prefix ''Bearer '' t;
                              ts = Token (Security (cs_settings cs))
                          in bind_outcome
                               (GetTokenClaims (en_crypto E) (en_now E) token (minimum_role pathName)
                                  (PrivateKeyFile ts) (PublicKeyFile ts) (cs_keys cs)) (\<lambda>(r, ks).
                             case r of
                               Inl e \<Rightarrow> Ret (Denied (AuthenticationError e), cs\<lparr>cs_keys := ks\<rparr>)
                             | Inr (guid, _) \<Rightarrow> Ret (ClientId guid, cs\<lparr>cs_keys := ks\<rparr>)))))"

subsection \<open>Dispatch\<close>

datatype rpc_request =
    CallInitAuth "(string \<times> int list) option"
  | CallGuestLogin guest_request
  | CallLogin login_request
  | CallUnitSelect unit_request
  | CallSyncClient "uuid list"
  | CallUpdateClientInfo pb_client_info
  | CallUpdateRadioInfo pb_radio_info
  | CallDisconnect
  | CallGetServerSettings

datatype rpc_reply =
    ReInitAuth "init_result reply"
  | ReGuestLogin "(string \<times> string) reply"
  | ReLogin "login_result reply"
  | ReUnitSelect "string reply"
  | ReSync sync_result
  | ReSrs srs_response
  | ReSettings pb_settings
  | ReDenied denial

fun full_method :: "rpc_request \<Rightarrow> string" where
  "full_method (CallInitAuth _) = ''/srspb.AuthService/InitAuth''"
| "full_method (CallGuestLogin _) = ''/srspb.AuthService/GuestLogin''"
| "full_method (CallLogin _) = ''/srspb.AuthService/Login''"
| "full_method (CallUnitSelect _) = ''/srspb.AuthService/UnitSelect''"
| "full_method (CallSyncClient _) = ''/srspb.SRSService/SyncClient''"
| "full_method (CallUpdateClientInfo _) = ''/srspb.SRSService/UpdateClientInfo''"
| "full_method (CallUpdateRadioInfo _) = ''/srspb.SRSService/UpdateRadioInfo''"
| "full_method CallDisconnect = ''/srspb.SRSService/Disconnect''"
| "full_method CallGetServerSettings = ''/srspb.SRSService/GetServerSettings''"

fun run_handler_for ::
    "call_env \<Rightarrow> string option \<Rightarrow> rpc_request \<Rightarrow> control_state \<Rightarrow> (rpc_reply \<times> control_state) outcome" where
  "run_handler_for E cid (CallInitAuth caps) cs = map_ret (\<lambda>(r, s). (ReInitAuth r, s)) (InitAuth E caps cs)"
| "run_handler_for E cid (CallGuestLogin rq) cs = map_ret (\<lambda>(r, s). (ReGuestLogin r, s)) (GuestLogin E rq cs)"
| "run_handler_for E cid (CallLogin rq) cs = map_ret (\<lambda>(r, s). (ReLogin r, s)) (Login E rq cs)"
| "run_handler_for E cid (CallUnitSelect rq) cs = map_ret (\<lambda>(r, s). (ReUnitSelect r, s)) (UnitSelect E rq cs)"
| "run_handler_for E cid (CallSyncClient order') cs =
     map_ret (\<lambda>(r, s). (ReSync r, s)) (SyncClient (en_uuid E) (en_order E) order' cs)"
| "run_handler_for E cid (CallUpdateClientInfo rq) cs =
     map_ret (\<lambda>(r, s). (ReSrs r, s)) (UpdateClientInfo (en_uuid E) (en_now E) cid rq cs)"
| "run_handler_for E cid (CallUpdateRadioInfo rq) cs =
     map_ret (\<lambda>(r, s). (ReSrs r, s)) (UpdateRadioInfo (en_uuid E) cid rq cs)"
| "run_handler_for E cid CallDisconnect cs = map_ret (\<lambda>(r, s). (ReSrs r, s)) (Disconnect (en_uuid E) cid cs)"
| "run_handler_for E cid CallGetServerSettings cs = Ret (ReSettings (GetServerSettings cs), cs)"

definition serve_unary ::
    "call_env \<Rightarrow> (string \<Rightarrow> string list) option \<Rightarrow> rpc_request \<Rightarrow> control_state \<Rightarrow>
     (rpc_reply \<times> control_state) outcome" where
  "serve_unary E metadata rq cs =
     bind_outcome (authInterceptor E (full_method rq) metadata cs) (\<lambda>(i, cs1).
       case i of
         Denied d \<Rightarrow> Ret (ReDenied d, cs1)
       | NoAuthentication \<Rightarrow> run_handler_for E None rq cs1
       | ClientId guid \<Rightarrow> run_handler_for E (Some guid) rq cs1)"

text \<open>
  Only unary calls are intercepted: the context of the one streaming call carries no client.
\<close>

definition serve_subscribe :: "call_env \<Rightarrow> control_state \<Rightarrow> (bool \<times> control_state) outcome" where
  "serve_subscribe E cs = SubscribeToUpdates (en_uuid E) None cs"

subsection \<open>Lemmas\<close>

fun needs_token :: "rpc_request \<Rightarrow> bool" where
  "needs_token (CallInitAuth _) = False"
| "needs_token (CallGuestLogin _) = False"
| "needs_token (CallLogin _) = False"
| "needs_token (CallUnitSelect _) = False"
| "needs_token _ = True"

lemma split_full_method:
  "length (split_at CHR ''/'' (full_method rq)) = 3"
  "length (split_at CHR ''.'' (split_at CHR ''/'' (full_method rq) ! 1)) = 2"
  "split_at CHR ''.'' (split_at CHR ''/'' (full_method rq) ! 1) ! 1 =
     (if needs_token rq then ''SRSService'' else ''AuthService'')"
  by (cases rq; simp add: numeral_2_eq_2)+

lemmas split_method = split_full_method [unfolded One_nat_def]

lemma minimum_role_zero: "minimum_role m = 0"
  by (simp add: minimum_role_def SrsServiceMinimumRoleMap_def GuestRole_def)

text \<open>The token of a request, as the interceptor reads it.\<close>

definition bearer :: "(string \<Rightarrow> string list) option \<Rightarrow> string option" where
  "bearer metadata = (case metadata of None \<Rightarrow> None
     | Some md \<Rightarrow> (case md ''authorization'' of [] \<Rightarrow> None | t # _ \<Rightarrow> Some (trim_prefix ''Bearer '' t)))"

lemma authInterceptor_auth: "\<not> needs_token rq \<Longrightarrow> authInterceptor E (full_method rq) md cs = Ret (NoAuthentication, cs)"
  by (simp add: authInterceptor_def split_method Let_def)

lemma authInterceptor_srs:
  "needs_token rq \<Longrightarrow> authInterceptor E (full_method rq) md cs =
     (case md of None \<Rightarrow> Ret (Denied MissingMetadata, cs)
      | Some m \<Rightarrow>
          (case bearer md of
             None \<Rightarrow> Ret (Denied MissingToken, cs)
           | Some token \<Rightarrow>
               map_ret (\<lambda>(r, ks). (case r of Inl e \<Rightarrow> Denied (AuthenticationError e) | Inr (guid, _) \<Rightarrow> ClientId guid,
                   cs\<lparr>cs_keys := ks\<rparr>))
                 (check_token (en_crypto E) (en_now E) token 0 cs)))"
proof -
  assume n: "needs_token rq"
  have eq: "bind_outcome m (\<lambda>(r, ks). case r of
        Inl e \<Rightarrow> Ret (Denied (AuthenticationError e), cs\<lparr>cs_keys := ks\<rparr>)
      | Inr (guid, _) \<Rightarrow> Ret (ClientId guid, cs\<lparr>cs_keys := ks\<rparr>)) =
      map_ret (\<lambda>(r, ks). (case r of Inl e \<Rightarrow> Denied (AuthenticationError e) | Inr (guid, _) \<Rightarrow> ClientId guid,
        cs\<lparr>cs_keys := ks\<rparr>)) m"
    for m :: "((token_error + session) \<times> key_store) outcome"
    by (cases m) (auto split: sum.splits)
  from n show ?thesis
    unfolding authInterceptor_def Let_def eq
    by (simp add: split_method bearer_def check_token_def minimum_role_zero split: option.split list.split)
qed

text \<open>A handler of the radio service touches the tables of the calling client only.\<close>

lemma cleanup_other:
  "h \<noteq> g \<Longrightarrow> gget (Clients (cleanupClientState g st)) h = gget (Clients st) h"
  "h \<noteq> g \<Longrightarrow> gget (RadioClients (cleanupClientState g st)) h = gget (RadioClients st) h"
  by (simp_all add: cleanupClientState_eq gomap_simps)

lemma Disconnect_other:
  assumes "Disconnect L (Some s) cs = Ret (r, cs')" and "uuid_parse L s \<noteq> Some h"
  shows "gget (Clients (cs_state cs')) h = gget (Clients (cs_state cs)) h \<and>
    gget (RadioClients (cs_state cs')) h = gget (RadioClients (cs_state cs)) h"
  using assms by (auto simp: Disconnect_def with_client_Ret cleanup_other Let_def split: if_splits)

lemma UpdateRadioInfo_other:
  assumes "UpdateRadioInfo L (Some s) rq cs = Ret (r, cs')" and "uuid_parse L s \<noteq> Some h"
  shows "gget (Clients (cs_state cs')) h = gget (Clients (cs_state cs)) h \<and>
    gget (RadioClients (cs_state cs')) h = gget (RadioClients (cs_state cs)) h"
  using assms by (auto simp: UpdateRadioInfo_def with_client_Ret gomap_simps split: if_splits)

lemma UpdateClientInfo_other:
  assumes "UpdateClientInfo L now (Some s) rq cs = Ret (r, cs')" and "uuid_parse L s \<noteq> Some h"
  shows "gget (Clients (cs_state cs')) h = gget (Clients (cs_state cs)) h \<and>
    gget (RadioClients (cs_state cs')) h = gget (RadioClients (cs_state cs)) h"
  using assms
  by (auto simp: UpdateClientInfo_def with_client_Ret gomap_simps split_beta Let_def split: option.splits if_splits)

lemma SyncClient_state: "SyncClient L o1 o2 cs = Ret (r, cs') \<Longrightarrow> cs_state cs' = cs_state cs"
  by (auto simp: SyncClient_def Let_def bind_outcome_eq_Ret)

lemma map_ret_eq: "map_ret f m = Ret y \<longleftrightarrow> (\<exists>x. m = Ret x \<and> y = f x)"
  by (cases m) auto

lemma handler_other:
  assumes "needs_token rq" and "run_handler_for E (Some guid) rq cs = Ret (reply, cs')"
    and "uuid_parse (en_uuid E) guid \<noteq> Some h"
  shows "gget (Clients (cs_state cs')) h = gget (Clients (cs_state cs)) h \<and>
    gget (RadioClients (cs_state cs')) h = gget (RadioClients (cs_state cs)) h"
  using assms
  by (cases rq) (auto simp: map_ret_eq dest: Disconnect_other UpdateRadioInfo_other UpdateClientInfo_other SyncClient_state)

lemma serve_unary_accepted:
  assumes "needs_token rq" and "bearer md = Some token"
    and "check_token (en_crypto E) (en_now E) token 0 cs = Ret (Inr (guid, role), ks)"
  shows "serve_unary E md rq cs = run_handler_for E (Some guid) rq (cs\<lparr>cs_keys := ks\<rparr>)"
proof -
  obtain m where "md = Some m" using assms(2) by (auto simp: bearer_def split: option.splits)
  with assms show ?thesis by (simp add: serve_unary_def authInterceptor_srs)
qed

lemma serve_unary_srs:
  assumes n: "needs_token rq" and s: "serve_unary E md rq cs = Ret (reply, cs')"
  shows "(\<exists>d. reply = ReDenied d \<and> cs_state cs' = cs_state cs) \<or>
    (\<exists>token guid role ks. bearer md = Some token \<and>
      check_token (en_crypto E) (en_now E) token 0 cs = Ret (Inr (guid, role), ks) \<and>
      run_handler_for E (Some guid) rq (cs\<lparr>cs_keys := ks\<rparr>) = Ret (reply, cs'))"
proof (cases "bearer md")
  case None
  with s show ?thesis
    by (auto simp: serve_unary_def authInterceptor_srs [OF n] split: option.splits)
next
  case (Some token)
  then obtain m where m: "md = Some m" by (auto simp: bearer_def split: option.splits)
  show ?thesis
  proof (cases "check_token (en_crypto E) (en_now E) token 0 cs")
    case (Ret x)
    obtain r ks where x: "x = (r, ks)" by (cases x)
    show ?thesis
    proof (cases r)
      case (Inl e)
      with s Ret x Some m show ?thesis by (auto simp: serve_unary_def authInterceptor_srs [OF n])
    next
      case (Inr gr)
      obtain guid role where gr: "gr = (guid, role)" by (cases gr)
      with Inr Ret x have c: "check_token (en_crypto E) (en_now E) token 0 cs = Ret (Inr (guid, role), ks)" by simp
      with s Some serve_unary_accepted [OF n Some c] show ?thesis by auto
    qed
  qed (use s Some m in \<open>simp_all add: serve_unary_def authInterceptor_srs [OF n]\<close>)
qed

lemma subscribe_panics: "serve_subscribe E cs = Panics"
  by (simp add: serve_subscribe_def SubscribeToUpdates_def)

definition bearer_header :: "string \<Rightarrow> (string \<Rightarrow> string list) option" where
  "bearer_header token = Some (\<lambda>k. if k = ''authorization'' then [''Bearer '' @ token] else [])"

lemma bearer_header [simp]: "bearer (bearer_header token) = Some token"
  by (simp add: bearer_header_def bearer_def trim_prefix_def)

subsection \<open>Properties\<close>



text \<open>
  Health. As long as the mutex of the authentication service is free, a round of the monitor
  makes the whole system and both client services serving, and the control service exactly on a
  control node; once the mutex is lost the monitor hangs, so the last answers, serving, stand.
\<close>

theorem health_report:
  "(\<not> a_locked (cs_auth cs) \<longrightarrow> (\<exists>h'. monitor_round True cs h = Ret h' \<and>
      health_Check [] h' = SERVING \<and> health_Check ''srs'' h' = SERVING \<and> health_Check ''auth'' h' = SERVING \<and>
      (h ''control'' = None \<longrightarrow> health_Check ''control'' h' =
         (if cs_mode cs = DistributionModeControl then SERVING else SERVICE_UNKNOWN)) \<and>
      (\<forall>s. s \<notin> {[], ''srs'', ''auth'', ''control''} \<longrightarrow> health_Check s h' = health_Check s h))) \<and>
   (a_locked (cs_auth cs) \<longrightarrow> monitor_round True cs h = Blocks) \<and>
   (\<not> a_locked (cs_auth cs) \<longrightarrow> (\<exists>h'. monitor_round False cs h = Ret h' \<and> health_Check [] h' = NOT_SERVING))"
  by (auto simp: monitor_round_def auth_GetServerState_def GetServerState_def vc_GetServerState_def
      SetServingStatus_def health_Check_def Let_def)

theorem health_report_witness:
  "\<exists>h'. monitor_round True sample_control NewFullHealthServer = Ret h' \<and> health_Check ''auth'' h' = SERVING \<and>
     health_Check ''control'' h' = SERVICE_UNKNOWN"
  using health_report [of sample_control NewFullHealthServer]
  by (auto simp: NewFullHealthServer_def mode_defs)

text \<open>
  Life cycle of the control server. A start from new either runs the server with the services'
  tables empty, or reports the failed listen and leaves the mutex locked, so that asking whether it
  runs, stopping and starting again hang; on a control node without a certificate it panics. A
  running server refuses a second start, and a stop is final: no stop after it does anything.
\<close>

theorem control_server_life_cycle:
  "\<exists>pcs ss. initializePluginClients N (cs_settings cs) = Ret (pcs, ss) \<and>
   (case StartControl N l1 l2 cert NewControlServer cs of
      Blocks \<Rightarrow> False
    | Panics \<Rightarrow> l1 \<and> l2 \<and> \<not> cert \<and> cs_mode cs = DistributionModeControl
    | Ret (None, k, cs') \<Rightarrow>
        IsRunning k = Ret True \<and> cs_state cs' = cs_state cs \<and> pluginClients (cs_auth cs') = pcs \<and>
        authenticatingClients (cs_auth cs') = Map.empty \<and> \<not> a_locked (cs_auth cs') \<and> cs_streams cs' = {} \<and>
        StartControl N l1 l2 cert k cs' = Ret (Some AlreadyRunning, k, cs') \<and>
        (\<exists>k'. StopControl k = Ret k' \<and> IsRunning k' = Ret False \<and> \<not> k_clientGrpcServer k' \<and>
           \<not> k_controlGrpcServer k' \<and> StopControl k' = Ret k')
    | Ret (Some e, k, cs') \<Rightarrow>
        (if l1 then \<not> l2 \<and> cs_mode cs = DistributionModeControl else True) \<and> cs' = cs \<and>
        IsRunning k = Blocks \<and> StopControl k = Blocks \<and> StartControl N l1 l2 cert k cs' = Blocks)"
proof -
  obtain pcs ss where p: "initializePluginClients N (cs_settings cs) = Ret (pcs, ss)"
    using plugin_rounds_spec [of N "GetAllPluginNames (cs_settings cs)" Map.empty "cs_settings cs"]
    by (auto simp: initializePluginClients_def)
  have "NewAuthServer N (cs_settings cs) =
      Ret (\<lparr>a_locked = False, authenticatingClients = Map.empty, pluginClients = pcs\<rparr>, ss)"
    by (simp add: NewAuthServer_def p)
  with p show ?thesis
    by (auto simp: StartControl_def StopControl_def IsRunning_def NewControlServer_def initControlServer_def Let_def)
qed

end
