(* ===== verification/AppAdmin.thy ===== *)
theory AppAdmin
  imports ControlServer BanFile
begin

text \<open>
  What the administrator does through the GUI: \<^verbatim>\<open>app/clients.go\<close>, \<^verbatim>\<open>app/settings.go\<close> and the
  Wails services of \<^verbatim>\<open>services/\<close>. The state is that of the control server with the files and the
  events sent directly to the GUI; notifications go to the event bus.
\<close>

subsection \<open>State\<close>

record app_state =
  ap_control :: control_state
  ap_fs :: file_system
  ap_gui :: "event list"

text \<open>The libraries, and the identifier of the notification an operation creates.\<close>

record admin_env =
  ad_uuid :: uuid_lib
  ad_json :: json_lib
  ad_yaml :: yaml_lib
  ad_nid :: string

definition upd_control :: "(control_state \<Rightarrow> control_state) \<Rightarrow> app_state \<Rightarrow> app_state" where
  "upd_control f a = a\<lparr>ap_control := f (ap_control a)\<rparr>"

definition upd_server :: "(server_state \<Rightarrow> server_state) \<Rightarrow> app_state \<Rightarrow> app_state" where
  "upd_server f = upd_control (\<lambda>cs. cs\<lparr>cs_state := f (cs_state cs)\<rparr>)"

definition upd_settings :: "(settings_state \<Rightarrow> settings_state) \<Rightarrow> app_state \<Rightarrow> app_state" where
  "upd_settings f = upd_control (\<lambda>cs. cs\<lparr>cs_settings := f (cs_settings cs)\<rparr>)"

abbreviation app_server :: "app_state \<Rightarrow> server_state" where
  "app_server a \<equiv> cs_state (ap_control a)"

abbreviation app_settings :: "app_state \<Rightarrow> settings_state" where
  "app_settings a \<equiv> cs_settings (ap_control a)"

definition EmitEvent :: "event \<Rightarrow> app_state \<Rightarrow> app_state" where
  "EmitEvent e = upd_control (publish_event e)"

definition Notify :: "admin_env \<Rightarrow> string \<Rightarrow> string \<Rightarrow> string \<Rightarrow> app_state \<Rightarrow> app_state" where
  "Notify V title message level =
     EmitEvent (NewEvent NotificationEvent (NotificationData (NewNotification (ad_nid V) title message level)))"

subsection \<open>Clients\<close>

text \<open>The maps handed to the GUI; two keys never have the same text.\<close>

definition GetClients :: "uuid_lib \<Rightarrow> uuid list \<Rightarrow> app_state \<Rightarrow> string \<rightharpoonup> client_state" where
  "GetClients L order a = map_of (rev (map (\<lambda>(g, c). (uuid_string L g, c)) (GetAllClients order (app_server a))))"

definition GetRadioClients :: "uuid_lib \<Rightarrow> uuid list \<Rightarrow> app_state \<Rightarrow> string \<rightharpoonup> radio_state" where
  "GetRadioClients L order a = map_of (rev (map (\<lambda>(g, r). (uuid_string L g, r)) (GetAllRadios order (app_server a))))"

definition GetBannedClients :: "app_state \<Rightarrow> banned_client list" where
  "GetBannedClients a = BannedClients (BannedSt (app_server a))"

definition set_banned :: "banned_client list \<Rightarrow> server_state \<Rightarrow> server_state" where
  "set_banned bs st = st\<lparr>BannedSt := (BannedSt st)\<lparr>BannedClients := bs\<rparr>\<rparr>"

definition save_bans :: "admin_env \<Rightarrow> app_state \<Rightarrow> os_error option \<times> app_state" where
  "save_bans V a =
     (let (err, fs) = SaveBanned (ad_json V) (BannedSt (app_server a)) (ap_fs a) in (err, a\<lparr>ap_fs := fs\<rparr>))"

definition BanClient :: "admin_env \<Rightarrow> string \<Rightarrow> string \<Rightarrow> app_state \<Rightarrow> app_state" where
  "BanClient V clientId reason a =
     (case uuid_parse (ad_uuid V) clientId of
        None \<Rightarrow> Notify V ''Ban failed'' ''Invalid client ID format'' ''error'' a
      | Some clientGuid \<Rightarrow>
          (case gget (Clients (app_server a)) clientGuid of
             None \<Rightarrow> Notify V ''Ban failed'' ''Client not found'' ''error'' a
           | Some client \<Rightarrow>
               let a1 = upd_server (\<lambda>st. set_banned (BannedClients (BannedSt st) @
                          [\<lparr>b_ID = clientId, b_Name = c_Name client, b_IPAddress = ''0.0.0.0'', b_Reason = reason\<rparr>]) st) a;
                   (err, a2) = save_bans V a1
               in if err \<noteq> None then Notify V ''Ban failed'' ''Failed to save banned clients'' ''error'' a2
                  else Notify V ''Ban succeeded'' ''Client banned successfully'' ''success''
                    (EmitEvent (NewEvent BannedClientsChanged BannedRef)
                      (EmitEvent (NewEvent ClientsChanged ClientsRef)
                        (upd_server (\<lambda>st. st\<lparr>Clients := gdel (Clients st) clientGuid\<rparr>) a2)))))"

definition UnbanClient :: "admin_env \<Rightarrow> string \<Rightarrow> app_state \<Rightarrow> app_state" where
  "UnbanClient V clientId a =
     (case find (\<lambda>b. b_ID b = clientId) (GetBannedClients a) of
        None \<Rightarrow> Notify V ''Unban failed'' ''Client not found'' ''error'' a
      | Some client \<Rightarrow>
          let a1 = upd_server (\<lambda>st. set_banned (RemoveElem (BannedClients (BannedSt st)) client) st) a;
              (err, a2) = save_bans V a1
          in if err \<noteq> None then Notify V ''Unban failed'' ''Failed to save banned clients'' ''error'' a2
             else Notify V ''Unban succeeded'' ''Client successfully unbanned'' ''success''
               (EmitEvent (NewEvent BannedClientsChanged BannedRef) a2))"

definition KickClient :: "admin_env \<Rightarrow> string \<Rightarrow> string \<Rightarrow> app_state \<Rightarrow> app_state" where
  "KickClient V clientId reason a =
     (case uuid_parse (ad_uuid V) clientId of
        None \<Rightarrow> Notify V ''Kick failed'' ''Invalid client ID format'' ''error'' a
      | Some clientGuid \<Rightarrow>
          Notify V ''Kick succeeded'' ''Client kicked successfully'' ''success''
            (EmitEvent (NewEvent ClientsChanged ClientsRef)
              (upd_server (\<lambda>st. st\<lparr>Clients := gdel (Clients st) clientGuid\<rparr>) a)))"

definition set_muted :: "bool \<Rightarrow> uuid \<Rightarrow> app_state \<Rightarrow> app_state" where
  "set_muted b g = upd_server (\<lambda>st. st\<lparr>RadioClients := gadjust (RadioClients st) g (\<lambda>r. r\<lparr>Muted := b\<rparr>)\<rparr>)"

definition MuteClient :: "admin_env \<Rightarrow> string \<Rightarrow> app_state \<Rightarrow> app_state" where
  "MuteClient V clientId a =
     (case uuid_parse (ad_uuid V) clientId of
        None \<Rightarrow> Notify V ''Kick failed'' ''Invalid client ID format'' ''error'' a
      | Some clientGuid \<Rightarrow>
          if gget (RadioClients (app_server a)) clientGuid = None
          then Notify V ''Mute failed'' ''Client not found'' ''error'' a
          else Notify V ''Mute succeeded'' ''Client muted successfully'' ''success''
                 (EmitEvent (NewEvent RadioClientsChanged RadioClientsRef) (set_muted True clientGuid a)))"

definition UnmuteClient :: "admin_env \<Rightarrow> string \<Rightarrow> app_state \<Rightarrow> app_state" where
  "UnmuteClient V clientId a =
     (case uuid_parse (ad_uuid V) clientId of
        None \<Rightarrow> Notify V ''Kick failed'' ''Invalid client ID format'' ''error'' a
      | Some clientGuid \<Rightarrow>
          if gget (RadioClients (app_server a)) clientGuid = None
          then Notify V ''Unmute failed'' ''Client not found'' ''error'' a
          else Notify V ''Unmute succeeded'' ''Client unmuted successfully'' ''success''
                 (EmitEvent (NewEvent RadioClientsChanged RadioClientsRef) (set_muted False clientGuid a)))"

definition IsClientMuted :: "admin_env \<Rightarrow> string \<Rightarrow> app_state \<Rightarrow> bool \<times> app_state" where
  "IsClientMuted V clientId a =
     (let failed = Notify V ''Check Mute Status Failed'' ''Failed to check if client is muted or not'' ''error'' a in
      case uuid_parse (ad_uuid V) clientId of
        None \<Rightarrow> (False, failed)
      | Some clientGuid \<Rightarrow>
          (case gget (RadioClients (app_server a)) clientGuid of
             None \<Rightarrow> (False, failed)
           | Some client \<Rightarrow> (Muted client, a)))"

text \<open>The service's \<open>BanClient\<close> calls itself instead of the application's.\<close>

partial_function (option) ClientService_BanClient ::
    "string \<Rightarrow> string \<Rightarrow> app_state \<Rightarrow> app_state option" where
  "ClientService_BanClient clientId reason a = ClientService_BanClient clientId reason a"

definition ClientService_KickClient :: "admin_env \<Rightarrow> string \<Rightarrow> string \<Rightarrow> app_state \<Rightarrow> app_state" where
  "ClientService_KickClient V clientId reason a = KickClient V clientId reason a"

subsection \<open>Settings\<close>

text \<open>
  The pattern of all settings operations: change the settings in memory, save them; on an error
  notify, else tell who is interested and notify. The application tells the event bus, the
  services tell the GUI.
\<close>

definition save_settings :: "admin_env \<Rightarrow> app_state \<Rightarrow> settings_error option \<times> app_state" where
  "save_settings V a =
     (let (err, fs) = SaveSettings (ad_yaml V) (app_settings a) (ap_fs a) in (err, a\<lparr>ap_fs := fs\<rparr>))"

definition EmitGui :: "event \<Rightarrow> app_state \<Rightarrow> app_state" where
  "EmitGui e a = a\<lparr>ap_gui := ap_gui a @ [e]\<rparr>"

definition app_SaveGeneralSettings :: "admin_env \<Rightarrow> general_settings \<Rightarrow> app_state \<Rightarrow> app_state" where
  "app_SaveGeneralSettings V newSettings a =
     (let a1 = upd_settings (\<lambda>s. s\<lparr>General := newSettings\<rparr>) a; (err, a2) = save_settings V a1 in
      if err \<noteq> None then Notify V ''Failed to save settings'' ''Failed to save settings'' ''error'' a2
      else Notify V ''Settings saved'' ''General Settings were successfully saved'' ''info''
             (EmitEvent (NewEvent SettingsChanged SettingsRef) a2))"

definition app_SaveServerSettings :: "admin_env \<Rightarrow> server_settings \<Rightarrow> app_state \<Rightarrow> app_state" where
  "app_SaveServerSettings V newSettings a =
     (let a1 = upd_settings (\<lambda>s. s\<lparr>Servers := newSettings\<rparr>) a; (err, a2) = save_settings V a1 in
      if err \<noteq> None then Notify V ''Failed to save settings'' ''Failed to save settings'' ''error'' a2
      else Notify V ''Settings saved'' ''Server Settings were successfully saved'' ''info''
             (EmitEvent (NewEvent SettingsChanged SettingsRef) a2))"

definition app_SaveFrequencySettings :: "admin_env \<Rightarrow> frequency_settings \<Rightarrow> app_state \<Rightarrow> app_state" where
  "app_SaveFrequencySettings V newSettings a =
     (let a1 = upd_settings (\<lambda>s. s\<lparr>Frequencies := newSettings\<rparr>) a; (err, a2) = save_settings V a1 in
      if err \<noteq> None then Notify V ''Failed to save settings'' ''Failed to save settings'' ''error'' a2
      else Notify V ''Settings saved'' ''Frequency Settings were successfully saved'' ''info''
             (EmitEvent (NewEvent SettingsChanged SettingsRef) a2))"

definition svc_SaveGeneralSettings :: "admin_env \<Rightarrow> general_settings \<Rightarrow> app_state \<Rightarrow> app_state" where
  "svc_SaveGeneralSettings V newSettings a =
     (let a1 = upd_settings (\<lambda>s. s\<lparr>General := newSettings\<rparr>) a; (err, a2) = save_settings V a1 in
      if err \<noteq> None then Notify V ''Failed to save settings'' ''Failed to save settings'' ''error'' a2
      else Notify V ''Settings saved'' ''General Settings were successfully saved'' ''info''
             (EmitGui (NewEvent SettingsChanged SettingsRef) a2))"

definition svc_SaveServerSettings :: "admin_env \<Rightarrow> server_settings \<Rightarrow> app_state \<Rightarrow> app_state" where
  "svc_SaveServerSettings V newSettings a =
     (let a1 = upd_settings (\<lambda>s. s\<lparr>Servers := newSettings\<rparr>) a; (err, a2) = save_settings V a1 in
      if err \<noteq> None then Notify V ''Failed to save settings'' ''Failed to save settings'' ''error'' a2
      else Notify V ''Settings saved'' ''Server Settings were successfully saved'' ''info''
             (EmitGui (NewEvent SettingsChanged SettingsRef) a2))"

definition svc_SaveFrequencySettings :: "admin_env \<Rightarrow> frequency_settings \<Rightarrow> app_state \<Rightarrow> app_state" where
  "svc_SaveFrequencySettings V newSettings a =
     (let a1 = upd_settings (\<lambda>s. s\<lparr>Frequencies := newSettings\<rparr>) a; (err, a2) = save_settings V a1 in
      if err \<noteq> None then Notify V ''Failed to save settings'' ''Failed to save settings'' ''error'' a2
      else Notify V ''Settings saved'' ''Frequency Settings were successfully saved'' ''info''
             (EmitGui (NewEvent SettingsChanged SettingsRef) a2))"

subsection \<open>Coalitions\<close>

definition coalition_failed :: "admin_env \<Rightarrow> coalition \<Rightarrow> app_state \<Rightarrow> app_state" where
  "coalition_failed V c =
     Notify V ''Coalition failed to save'' (''Coalition '' @ co_Name c @ '' could not be saved!'') ''error''"

definition AddCoalition :: "admin_env \<Rightarrow> coalition \<Rightarrow> app_state \<Rightarrow> app_state" where
  "AddCoalition V c a =
     (let a1 = upd_settings (add_coalition c) a; (err, a2) = save_settings V a1 in
      if err \<noteq> None then coalition_failed V c a2
      else Notify V ''Coalition added'' (''Coalition '' @ co_Name c @ '' added'') ''info''
             (EmitGui (NewEvent CoalitionsChanged CoalitionsRef) a2))"

definition RemoveCoalition :: "admin_env \<Rightarrow> coalition \<Rightarrow> app_state \<Rightarrow> app_state" where
  "RemoveCoalition V c a =
     (let a1 = upd_settings (remove_coalition c) a; (err, a2) = save_settings V a1 in
      if err \<noteq> None then coalition_failed V c a2
      else Notify V ''Coalition removed'' (''Coalition '' @ co_Name c @ '' removed'') ''info''
             (EmitGui (NewEvent CoalitionsChanged CoalitionsRef) a2))"

definition UpdateCoalition :: "admin_env \<Rightarrow> coalition \<Rightarrow> app_state \<Rightarrow> app_state" where
  "UpdateCoalition V c a =
     (let a1 = upd_settings (update_coalition c) a; (err, a2) = save_settings V a1 in
      if err \<noteq> None then coalition_failed V c a2
      else Notify V ''Coalition updated'' (''Coalition '' @ co_Name c @ '' updated'') ''info''
             (EmitGui (NewEvent CoalitionsChanged CoalitionsRef) a2))"


text \<open>The settings operations by name, and what each means to do to the settings.\<close>

datatype settings_op =
    AppSaveGeneral general_settings | AppSaveServers server_settings | AppSaveFrequencies frequency_settings
  | SvcSaveGeneral general_settings | SvcSaveServers server_settings | SvcSaveFrequencies frequency_settings
  | SvcAddCoalition coalition | SvcRemoveCoalition coalition | SvcUpdateCoalition coalition

fun run_settings_op :: "settings_op \<Rightarrow> admin_env \<Rightarrow> app_state \<Rightarrow> app_state" where
  "run_settings_op (AppSaveGeneral x) V = app_SaveGeneralSettings V x"
| "run_settings_op (AppSaveServers x) V = app_SaveServerSettings V x"
| "run_settings_op (AppSaveFrequencies x) V = app_SaveFrequencySettings V x"
| "run_settings_op (SvcSaveGeneral x) V = svc_SaveGeneralSettings V x"
| "run_settings_op (SvcSaveServers x) V = svc_SaveServerSettings V x"
| "run_settings_op (SvcSaveFrequencies x) V = svc_SaveFrequencySettings V x"
| "run_settings_op (SvcAddCoalition c) V = AddCoalition V c"
| "run_settings_op (SvcRemoveCoalition c) V = RemoveCoalition V c"
| "run_settings_op (SvcUpdateCoalition c) V = UpdateCoalition V c"

fun settings_change :: "settings_op \<Rightarrow> settings_state \<Rightarrow> settings_state" where
  "settings_change (AppSaveGeneral x) s = s\<lparr>General := x\<rparr>"
| "settings_change (AppSaveServers x) s = s\<lparr>Servers := x\<rparr>"
| "settings_change (AppSaveFrequencies x) s = s\<lparr>Frequencies := x\<rparr>"
| "settings_change (SvcSaveGeneral x) s = s\<lparr>General := x\<rparr>"
| "settings_change (SvcSaveServers x) s = s\<lparr>Servers := x\<rparr>"
| "settings_change (SvcSaveFrequencies x) s = s\<lparr>Frequencies := x\<rparr>"
| "settings_change (SvcAddCoalition c) s = add_coalition c s"
| "settings_change (SvcRemoveCoalition c) s = remove_coalition c s"
| "settings_change (SvcUpdateCoalition c) s = update_coalition c s"

subsection \<open>Lemmas\<close>

named_theorems admin_simps \<open>the parts of the state an administrator's operation keeps or sets\<close>

lemma publish_event_fields [admin_simps]:
  "cs_state (publish_event e cs) = cs_state cs" "cs_settings (publish_event e cs) = cs_settings cs"
  "cs_auth (publish_event e cs) = cs_auth cs" "cs_keys (publish_event e cs) = cs_keys cs"
  "cs_mode (publish_event e cs) = cs_mode cs" "cs_streams (publish_event e cs) = cs_streams cs"
  by (simp_all add: publish_event_def)

lemma EmitEvent_fields [admin_simps]:
  "app_server (EmitEvent e a) = app_server a" "app_settings (EmitEvent e a) = app_settings a"
  "ap_fs (EmitEvent e a) = ap_fs a" "ap_gui (EmitEvent e a) = ap_gui a"
  "cs_auth (ap_control (EmitEvent e a)) = cs_auth (ap_control a)"
  by (simp_all add: EmitEvent_def upd_control_def publish_event_fields)

lemma Notify_fields [admin_simps]:
  "app_server (Notify V t m l a) = app_server a" "app_settings (Notify V t m l a) = app_settings a"
  "ap_fs (Notify V t m l a) = ap_fs a" "ap_gui (Notify V t m l a) = ap_gui a"
  "cs_auth (ap_control (Notify V t m l a)) = cs_auth (ap_control a)"
  by (simp_all add: Notify_def EmitEvent_fields)

lemma EmitGui_fields [admin_simps]:
  "ap_control (EmitGui e a) = ap_control a" "ap_fs (EmitGui e a) = ap_fs a"
  by (simp_all add: EmitGui_def)

lemma upd_fields [admin_simps]:
  "app_server (upd_server f a) = f (app_server a)" "app_settings (upd_server f a) = app_settings a"
  "app_server (upd_settings h a) = app_server a" "app_settings (upd_settings h a) = h (app_settings a)"
  "ap_fs (upd_server f a) = ap_fs a" "ap_fs (upd_settings h a) = ap_fs a"
  "cs_auth (ap_control (upd_server f a)) = cs_auth (ap_control a)"
  by (simp_all add: upd_server_def upd_settings_def upd_control_def)

lemma save_settings_eq:
  "save_settings V a = (fst (SaveSettings (ad_yaml V) (app_settings a) (ap_fs a)),
     a\<lparr>ap_fs := snd (SaveSettings (ad_yaml V) (app_settings a) (ap_fs a))\<rparr>)"
  by (simp add: save_settings_def split_beta)

lemma save_bans_eq:
  "save_bans V a = (fst (SaveBanned (ad_json V) (BannedSt (app_server a)) (ap_fs a)),
     a\<lparr>ap_fs := snd (SaveBanned (ad_json V) (BannedSt (app_server a)) (ap_fs a))\<rparr>)"
  by (simp add: save_bans_def split_beta)

lemma coalition_file:
  "settings_file (add_coalition c s) = settings_file s"
  "settings_file (remove_coalition c s) = settings_file s"
  "settings_file (update_coalition c s) = settings_file s"
  by (simp_all add: add_coalition_def remove_coalition_def update_coalition_def split: option.split)

lemma SaveSettings_failed: "SaveSettings Y s fs = (Some e, fs') \<Longrightarrow> fs' = fs"
  by (auto simp: SaveSettings_def split: option.splits sum.splits)

lemma SaveSettings_ok_iff:
  "yaml_lib_ok_for Y s \<Longrightarrow>
   fst (SaveSettings Y s fs) = None \<longleftrightarrow> settings_file s \<noteq> [] \<and> writable fs (settings_file s)"
  by (auto simp: yaml_lib_ok_for_def SaveSettings_def os_WriteFile_def split: if_splits)

lemma SaveSettings_load:
  "yaml_lib_ok_for Y s \<Longrightarrow> fst (SaveSettings Y s fs) = None \<Longrightarrow> readable fs (settings_file s) \<Longrightarrow>
   GetSettingsState Y (settings_file s) (snd (SaveSettings Y s fs)) = ((Some s, None), snd (SaveSettings Y s fs))"
  by (auto simp: yaml_lib_ok_for_def SaveSettings_def GetSettingsState_def os_WriteFile_def
      os_ReadFile_def split: if_splits)

text \<open>
  The contract of every operation on the settings: it changes them in memory and writes what it has
  then to the file; it leaves the clients alone.
\<close>

locale settings_operation =
  fixes op :: "admin_env \<Rightarrow> app_state \<Rightarrow> app_state"
    and change :: "settings_state \<Rightarrow> settings_state"
  assumes op_settings: "app_settings (op V a) = change (app_settings a)"
    and op_fs: "ap_fs (op V a) = snd (SaveSettings (ad_yaml V) (change (app_settings a)) (ap_fs a))"
    and op_server: "app_server (op V a) = app_server a"
    and change_file: "settings_file (change s) = settings_file s"
begin

lemma saved:
  "yaml_lib_ok_for (ad_yaml V) (change (app_settings a)) \<Longrightarrow>
   settings_file (app_settings a) \<noteq> [] \<Longrightarrow> writable (ap_fs a) (settings_file (app_settings a)) \<Longrightarrow>
   readable (ap_fs a) (settings_file (app_settings a)) \<Longrightarrow>
   GetSettingsState (ad_yaml V) (settings_file (app_settings a)) (ap_fs (op V a)) =
     ((Some (app_settings (op V a)), None), ap_fs (op V a))"
  using SaveSettings_load [of "ad_yaml V" "change (app_settings a)" "ap_fs a"]
  by (simp add: op_settings op_fs change_file SaveSettings_ok_iff)

lemma not_saved:
  "yaml_lib_ok_for (ad_yaml V) (change (app_settings a)) \<Longrightarrow>
   \<not> (settings_file (app_settings a) \<noteq> [] \<and> writable (ap_fs a) (settings_file (app_settings a))) \<Longrightarrow>
   ap_fs (op V a) = ap_fs a"
  using SaveSettings_ok_iff [of "ad_yaml V" "change (app_settings a)" "ap_fs a"]
  by (cases "SaveSettings (ad_yaml V) (change (app_settings a)) (ap_fs a)")
    (auto simp: op_fs change_file dest: SaveSettings_failed)

end

lemmas settings_op_defs = app_SaveGeneralSettings_def app_SaveServerSettings_def
  app_SaveFrequencySettings_def svc_SaveGeneralSettings_def svc_SaveServerSettings_def
  svc_SaveFrequencySettings_def AddCoalition_def RemoveCoalition_def UpdateCoalition_def
  coalition_failed_def

interpretation saved: settings_operation "run_settings_op op" "settings_change op" for op
proof (unfold_locales, goal_cases)
  case (1 V a)
  show ?case by (cases op) (simp_all add: settings_op_defs save_settings_eq admin_simps Let_def)
next
  case (2 V a)
  show ?case by (cases op) (simp_all add: settings_op_defs save_settings_eq admin_simps Let_def)
next
  case (3 V a)
  show ?case by (cases op) (simp_all add: settings_op_defs save_settings_eq admin_simps Let_def)
next
  case (4 s)
  show ?case by (cases op) (simp_all add: coalition_file)
qed


lemma SaveBanned_ok:
  "files fs (ban_file b) = Some c \<Longrightarrow> ban_file b \<noteq> [] \<Longrightarrow> writable fs (ban_file b) \<Longrightarrow>
   SaveBanned J b fs = (None, fs\<lparr>files := (files fs)(ban_file b \<mapsto> json_encode J (BannedClients b))\<rparr>)"
  by (simp add: SaveBanned_def getBanFile_present os_WriteFile_def)

lemma GetBannedState_present:
  "files fs p = Some (json_encode J bs) \<Longrightarrow> p \<noteq> [] \<Longrightarrow> readable fs p \<Longrightarrow> json_lib_ok J \<Longrightarrow>
   GetBannedState J p fs = (Inr \<lparr>BannedClients = bs, ban_file = p\<rparr>, fs)"
  by (simp add: GetBannedState_def getBanFile_present os_ReadFile_def json_lib_ok_def)

lemma RemoveElem_last:
  assumes "b \<notin> set bs"
  shows "RemoveElem (bs @ [b]) b = bs"
proof -
  have "indexOf b (bs @ [b]) = int (length bs)"
    using assms by (induction bs) (auto simp: Let_def)
  then show ?thesis by (simp add: RemoveElem_def Let_def list_update_append)
qed

lemma find_last: "\<forall>x \<in> set xs. \<not> P x \<Longrightarrow> P y \<Longrightarrow> find P (xs @ [y]) = Some y"
  by (induction xs) auto

definition ban_file_usable :: "app_state \<Rightarrow> bool" where
  "ban_file_usable a \<longleftrightarrow>
     (let f = ban_file (BannedSt (app_server a)) in
       f \<noteq> [] \<and> files (ap_fs a) f \<noteq> None \<and> writable (ap_fs a) f \<and> readable (ap_fs a) f)"

lemma ban_entry_def:
  assumes "uuid_parse (ad_uuid V) s = Some g" and "gget (Clients (app_server a)) g = Some c"
    and "ban_file_usable a"
  shows "app_server (BanClient V s reason a) =
     (set_banned (GetBannedClients a @ [\<lparr>b_ID = s, b_Name = c_Name c, b_IPAddress = ''0.0.0.0'', b_Reason = reason\<rparr>])
        (app_server a))\<lparr>Clients := gdel (Clients (app_server a)) g\<rparr>" (is ?st)
    and "ap_fs (BanClient V s reason a) = (ap_fs a)\<lparr>files := (files (ap_fs a))
       (ban_file (BannedSt (app_server a)) \<mapsto> json_encode (ad_json V) (GetBannedClients (BanClient V s reason a)))\<rparr>" (is ?fs)
proof -
  from assms(3) obtain x where x: "files (ap_fs a) (ban_file (BannedSt (app_server a))) = Some x"
    "ban_file (BannedSt (app_server a)) \<noteq> []" "writable (ap_fs a) (ban_file (BannedSt (app_server a)))"
    by (auto simp: ban_file_usable_def Let_def)
  note ok = SaveBanned_ok [OF _ x(2) x(3)]
  show ?st ?fs
    using assms(1,2) x
    by (simp_all add: BanClient_def Let_def save_bans_eq admin_simps set_banned_def SaveBanned_ok GetBannedClients_def)
qed

lemma ban_file_usable_ban:
  assumes "uuid_parse (ad_uuid V) s = Some g" and "gget (Clients (app_server a)) g = Some c"
    and "ban_file_usable a"
  shows "ban_file_usable (BanClient V s reason a)"
  using assms(3) by (simp add: ban_file_usable_def ban_entry_def [OF assms] Let_def set_banned_def)

lemma UnbanClient_usable:
  assumes "find (\<lambda>b. b_ID b = s) (GetBannedClients a) = Some b" and "ban_file_usable a"
  shows "app_server (UnbanClient V s a) = set_banned (RemoveElem (GetBannedClients a) b) (app_server a)" (is ?st)
    and "ap_fs (UnbanClient V s a) = (ap_fs a)\<lparr>files := (files (ap_fs a))
       (ban_file (BannedSt (app_server a)) \<mapsto> json_encode (ad_json V) (GetBannedClients (UnbanClient V s a)))\<rparr>" (is ?fs)
proof -
  from assms(2) obtain x where x: "files (ap_fs a) (ban_file (BannedSt (app_server a))) = Some x"
    "ban_file (BannedSt (app_server a)) \<noteq> []" "writable (ap_fs a) (ban_file (BannedSt (app_server a)))"
    by (auto simp: ban_file_usable_def Let_def)
  show ?st ?fs
    using assms(1) x
    by (simp_all add: UnbanClient_def Let_def save_bans_eq admin_simps set_banned_def SaveBanned_ok GetBannedClients_def)
qed


lemma service_ban_None: "ClientService_BanClient s r a = Some a' \<Longrightarrow> False"
  by (rule ClientService_BanClient.raw_induct [where P = "\<lambda>_ _ _ _. False"])

lemma KickClient_eq:
  "app_server (KickClient V s reason a) =
     (case uuid_parse (ad_uuid V) s of None \<Rightarrow> app_server a
      | Some g \<Rightarrow> (app_server a)\<lparr>Clients := gdel (Clients (app_server a)) g\<rparr>)"
  "ap_fs (KickClient V s reason a) = ap_fs a"
  by (simp_all add: KickClient_def admin_simps split: option.split)

lemma set_muted_eq:
  "app_server (set_muted b g a) =
     (app_server a)\<lparr>RadioClients := gadjust (RadioClients (app_server a)) g (\<lambda>r. r\<lparr>Muted := b\<rparr>)\<rparr>"
  by (simp add: set_muted_def admin_simps)

subsection \<open>Properties\<close>


definition sample_admin :: admin_env where
  "sample_admin = \<lparr>ad_uuid = sample_uuid_lib, ad_json = sample_json,
     ad_yaml = \<lparr>yaml_marshal = (\<lambda>_. Some ''servers:''),
       yaml_unmarshal = (\<lambda>_. Some (default_settings [] \<lparr>Coalitions :=
         [\<lparr>co_Name = ''red'', co_Description = [], co_Color = ''#f00'', co_Password = ''pw''\<rparr>]\<rparr>))\<rparr>,
     ad_nid = ''n1''\<rparr>"

definition sample_app :: app_state where
  "sample_app = \<lparr>
     ap_control = sample_control\<lparr>cs_settings := default_settings ''config.yaml'',
       cs_state := (cleanupClientState 2 sample_clients)\<lparr>BannedSt := \<lparr>BannedClients = [], ban_file = ''bans''\<rparr>\<rparr>\<rparr>,
     ap_fs = \<lparr>files = [''bans'' \<mapsto> ''[]''], readable = (\<lambda>_. True), writable = (\<lambda>_. True)\<rparr>,
     ap_gui = []\<rparr>"


text \<open>
  C19: A ban. Banning a connected client, with a usable ban file, appends one entry to the list and
  writes it, so that the next start loads the list with the new entry, and takes the client out of
  the client table; but its radio entry stays, and as it still counts there, the next
  synchronisation of any client brings the server down. The same holds after a kick.
\<close>

theorem ban_outcome:
  "json_lib_ok (ad_json V) \<Longrightarrow> ban_file_usable a \<Longrightarrow>
   uuid_parse (ad_uuid V) s = Some g \<Longrightarrow> gget (Clients (app_server a)) g = Some c \<Longrightarrow>
   gget (RadioClients (app_server a)) g = Some r \<Longrightarrow>
   iter_order order' (gget (RadioClients (app_server a))) \<Longrightarrow>
   GetBannedClients (BanClient V s reason a) = GetBannedClients a @
     [\<lparr>b_ID = s, b_Name = c_Name c, b_IPAddress = ''0.0.0.0'', b_Reason = reason\<rparr>] \<and>
   fst (GetBannedState (ad_json V) (ban_file (BannedSt (app_server a))) (ap_fs (BanClient V s reason a))) =
     Inr (BannedSt (app_server (BanClient V s reason a))) \<and>
   gget (Clients (app_server (BanClient V s reason a))) = (gget (Clients (app_server a)))(g := None) \<and>
   gget (RadioClients (app_server (BanClient V s reason a))) g = Some r \<and>
   SyncClient L order order' (ap_control (BanClient V s reason a)) = Panics \<and>
   SyncClient L order order' (ap_control (KickClient V s reason a)) = Panics"
proof -
  assume J: "json_lib_ok (ad_json V)" and u: "ban_file_usable a" and g: "uuid_parse (ad_uuid V) s = Some g"
    and c: "gget (Clients (app_server a)) g = Some c" and r: "gget (RadioClients (app_server a)) g = Some r"
    and ord: "iter_order order' (gget (RadioClients (app_server a)))"
  note ban = ban_entry_def [OF g c u]
  let ?a = "BanClient V s reason a" and ?k = "KickClient V s reason a"
  have st: "Clients (app_server ?a) = gdel (Clients (app_server a)) g"
    "RadioClients (app_server ?a) = RadioClients (app_server a)"
    "Clients (app_server ?k) = gdel (Clients (app_server a)) g"
    "RadioClients (app_server ?k) = RadioClients (app_server a)"
    "ban_file (BannedSt (app_server ?a)) = ban_file (BannedSt (app_server a))"
    by (simp_all add: ban set_banned_def KickClient_eq g)
  have saved_file: "fst (GetBannedState (ad_json V) (ban_file (BannedSt (app_server a))) (ap_fs ?a)) =
      Inr (BannedSt (app_server ?a))"
    using u J st(5) by (cases "BannedSt (app_server ?a)")
      (simp add: GetBannedState_present ban ban_file_usable_def Let_def GetBannedClients_def)
  have "g \<in> gdom (RadioClients (app_server a))" "g \<notin> gdom (gdel (Clients (app_server a)) g)"
    using r by (auto simp: gdom_iff gomap_simps)
  then have "SyncClient L order order' (ap_control ?a) = Panics" "SyncClient L order order' (ap_control ?k) = Panics"
    using ord by (intro SyncClient_Panics; auto simp: st)+
  with saved_file st r show ?thesis
    by (simp add: gomap_simps ban(1)) (simp add: GetBannedClients_def ban(1) set_banned_def)
qed

lemma sample_app_fields:
  "gget (Clients (app_server sample_app)) =
     [1 \<mapsto> \<lparr>c_Name = ''a'', c_UnitId = ''AA'', c_Coalition = ''blue'', c_Role = GuestRole, c_LastUpdate = 0\<rparr>]"
  "\<exists>r. gget (RadioClients (app_server sample_app)) = [1 \<mapsto> r]"
  "ban_file_usable sample_app" "json_lib_ok (ad_json sample_admin)"
  "uuid_parse (ad_uuid sample_admin) (uuid_string sample_uuid_lib 1) = Some 1"
  by (auto simp: sample_app_def sample_clients_def cleanupClientState_eq gdel_def ban_file_usable_def
      sample_admin_def sample_json_ok sample_parse fun_eq_iff)

theorem ban_outcome_witness:
  "SyncClient sample_uuid_lib [] [1]
     (ap_control (BanClient sample_admin (uuid_string sample_uuid_lib 1) ''spam'' sample_app)) = Panics"
proof -
  obtain r where r: "gget (RadioClients (app_server sample_app)) = [1 \<mapsto> r]" using sample_app_fields(2) by blast
  have "iter_order [1] (gget (RadioClients (app_server sample_app)))" by (simp add: r iter_order_def)
  with ban_outcome [OF sample_app_fields(4,3,5)] r show ?thesis by (simp add: sample_app_fields(1))
qed

text \<open>
  Taking a ban back. When the identifier was not banned before, unbanning right after the ban
  restores the list, in memory and in the file; the client itself stays out.
\<close>

theorem ban_unban:
  "json_lib_ok (ad_json V) \<Longrightarrow> ban_file_usable a \<Longrightarrow>
   uuid_parse (ad_uuid V) s = Some g \<Longrightarrow> gget (Clients (app_server a)) g = Some c \<Longrightarrow>
   s \<notin> b_ID ` set (GetBannedClients a) \<Longrightarrow> a' = UnbanClient V s (BanClient V s reason a) \<Longrightarrow>
   GetBannedClients a' = GetBannedClients a \<and>
   fst (GetBannedState (ad_json V) (ban_file (BannedSt (app_server a))) (ap_fs a')) = Inr (BannedSt (app_server a)) \<and>
   \<not> DoesClientExist g (app_server a')"
proof -
  assume J: "json_lib_ok (ad_json V)" and u: "ban_file_usable a" and g: "uuid_parse (ad_uuid V) s = Some g"
    and c: "gget (Clients (app_server a)) g = Some c" and s: "s \<notin> b_ID ` set (GetBannedClients a)"
    and a': "a' = UnbanClient V s (BanClient V s reason a)"
  let ?b = "\<lparr>b_ID = s, b_Name = c_Name c, b_IPAddress = ''0.0.0.0'', b_Reason = reason\<rparr>"
    and ?a1 = "BanClient V s reason a"
  note ban = ban_entry_def [OF g c u, of reason]
  have bs: "GetBannedClients ?a1 = GetBannedClients a @ [?b]"
    by (simp add: GetBannedClients_def ban(1) set_banned_def)
  have "find (\<lambda>b. b_ID b = s) (GetBannedClients a @ [?b]) = Some ?b"
    using s by (intro find_last) auto
  note un = UnbanClient_usable [where V = V, OF this [folded bs] ban_file_usable_ban [OF g c u, of reason], folded a']
  have "?b \<notin> set (GetBannedClients a)" using s by force
  then have st: "BannedSt (app_server a') = BannedSt (app_server a)"
    "Clients (app_server a') = gdel (Clients (app_server a)) g"
    by (simp_all add: un(1) bs RemoveElem_last ban(1) set_banned_def GetBannedClients_def)
  have "fst (GetBannedState (ad_json V) (ban_file (BannedSt (app_server a))) (ap_fs a')) =
      Inr (BannedSt (app_server a'))"
    using u J by (cases "BannedSt (app_server a)")
      (simp add: GetBannedState_present un(2) ban ban_file_usable_def Let_def GetBannedClients_def st set_banned_def)
  with st show ?thesis by (simp add: GetBannedClients_def DoesClientExist_def gomap_simps)
qed

theorem ban_unban_witness:
  "GetBannedClients (UnbanClient sample_admin (uuid_string sample_uuid_lib 1)
     (BanClient sample_admin (uuid_string sample_uuid_lib 1) ''spam'' sample_app)) = []"
proof -
  have "GetBannedClients sample_app = []" by (simp add: GetBannedClients_def sample_app_def)
  then show ?thesis
    using ban_unban [OF sample_app_fields(4,3,5) _ _ refl, of _ "''spam''"] by (simp add: sample_app_fields(1))
qed

text \<open>
  Muting does not mute. Muting a client with a radio entry is reported back by \<open>IsClientMuted\<close>,
  and unmuting takes it back; but it decides nothing: who hears whom is as before, for each pair and
  frequency.
\<close>

theorem mute_outcome:
  "uuid_parse (ad_uuid V) s = Some g \<Longrightarrow> gget (RadioClients (app_server a)) g = Some r \<Longrightarrow>
   fst (IsClientMuted V s (MuteClient V s a)) \<and> \<not> fst (IsClientMuted V s (UnmuteClient V s a)) \<and>
   (\<forall>u v f global. IsListeningOnFrequency u v f global (app_server (MuteClient V s a)) =
      IsListeningOnFrequency u v f global (app_server a)) \<and>
   Clients (app_server (MuteClient V s a)) = Clients (app_server a)"
  by (auto simp: MuteClient_def UnmuteClient_def IsClientMuted_def admin_simps set_muted_eq gomap_simps
      IsListening_iff)

theorem mute_outcome_witness:
  "fst (IsClientMuted sample_admin (uuid_string sample_uuid_lib 1)
     (MuteClient sample_admin (uuid_string sample_uuid_lib 1) sample_app))"
proof -
  obtain r where r: "gget (RadioClients (app_server sample_app)) 1 = Some r" using sample_app_fields(2) by auto
  from mute_outcome [OF sample_app_fields(5) r] show ?thesis by blast
qed

text \<open>
  The ban button of the GUI never answers: the service's method calls itself, so no call of it
  returns.
\<close>

theorem service_ban_never_returns:
  "ClientService_BanClient clientId reason a = None"
  by (cases "ClientService_BanClient clientId reason a") (auto dest: service_ban_None)

end
