(* ===== verification/BansIgnored.thy ===== *)
theory BansIgnored
  imports AppAdmin
begin

text \<open>
  The list of banned clients is written by the administrator and read by nobody: no request to the
  control server takes another course, or leaves another state, with another list.
\<close>

definition with_bans :: "banned_client list \<Rightarrow> control_state \<Rightarrow> control_state" where
  "with_bans bs cs = cs\<lparr>cs_state := set_banned bs (cs_state cs)\<rparr>"

abbreviation relabel :: "banned_client list \<Rightarrow> ('a \<times> control_state) outcome \<Rightarrow> ('a \<times> control_state) outcome" where
  "relabel bs \<equiv> map_ret (map_prod id (with_bans bs))"

named_theorems bans_simps \<open>an operation after a change of the ban list\<close>

lemma with_bans_fields [simp]:
  "cs_settings (with_bans bs cs) = cs_settings cs" "cs_mode (with_bans bs cs) = cs_mode cs"
  "cs_bus (with_bans bs cs) = cs_bus cs" "cs_keys (with_bans bs cs) = cs_keys cs"
  "cs_auth (with_bans bs cs) = cs_auth cs" "cs_streams (with_bans bs cs) = cs_streams cs"
  "cs_state (with_bans bs cs) = set_banned bs (cs_state cs)"
  by (simp_all add: with_bans_def)

lemma set_banned_fields [simp]:
  "Clients (set_banned bs st) = Clients st" "RadioClients (set_banned bs st) = RadioClients st"
  by (simp_all add: set_banned_def)

lemma with_bans_updates [bans_simps]:
  "(with_bans bs cs)\<lparr>cs_auth := a\<rparr> = with_bans bs (cs\<lparr>cs_auth := a\<rparr>)"
  "(with_bans bs cs)\<lparr>cs_keys := k\<rparr> = with_bans bs (cs\<lparr>cs_keys := k\<rparr>)"
  "(with_bans bs cs)\<lparr>cs_bus := b\<rparr> = with_bans bs (cs\<lparr>cs_bus := b\<rparr>)"
  "(with_bans bs cs)\<lparr>cs_streams := x\<rparr> = with_bans bs (cs\<lparr>cs_streams := x\<rparr>)"
  "(with_bans bs cs)\<lparr>cs_state := set_banned bs st\<rparr> = with_bans bs (cs\<lparr>cs_state := st\<rparr>)"
  "set_authenticating m (with_bans bs cs) = with_bans bs (set_authenticating m cs)"
  "publish_event e (with_bans bs cs) = with_bans bs (publish_event e cs)"
  by (simp_all add: with_bans_def set_authenticating_def publish_event_def)

lemma AddClient_bans [bans_simps]:
  "AddClient u c (set_banned bs st) = map_ret (set_banned bs) (AddClient u c st)"
  by (cases "Clients st"; cases "RadioClients st") (auto simp: AddClient_def gmake_def set_banned_def Let_def)

lemma bind_map_ret [bans_simps]: "bind_outcome (map_ret f m) g = bind_outcome m (\<lambda>x. g (f x))"
  by (cases m) simp_all

lemma map_ret_bind [bans_simps]: "map_ret f (bind_outcome m g) = bind_outcome m (\<lambda>x. map_ret f (g x))"
  by (cases m) simp_all

lemma issue_token_bans [bans_simps]: "issue_token E g r (with_bans bs cs) = relabel bs (issue_token E g r cs)"
  by (cases "GenerateToken (en_crypto E) (en_now E) g r (Issuer (Token (Security (cs_settings cs))))
      (Subject (Token (Security (cs_settings cs)))) (token_duration (Token (Security (cs_settings cs))))
      (PrivateKeyFile (Token (Security (cs_settings cs)))) (PublicKeyFile (Token (Security (cs_settings cs)))) (cs_keys cs)")
    (simp_all add: issue_token_def Let_def split_beta bans_simps)

lemma expired_bans [bans_simps]:
  "removeExpiredAuthenticatingClients E (with_bans bs cs) =
     map_ret (with_bans bs) (removeExpiredAuthenticatingClients E cs)"
  by (simp add: removeExpiredAuthenticatingClients_def bans_simps)

lemma lock_mu_bans [bans_simps]:
  "lock_mu (with_bans bs cs) f = lock_mu cs f" "map_ret h (lock_mu cs f) = lock_mu cs (map_ret h f)"
  by (simp_all add: lock_mu_def)

lemma bind_cong: "(\<And>x. m = Ret x \<Longrightarrow> f x = g x) \<Longrightarrow> bind_outcome m f = bind_outcome m g"
  by (cases m) auto

lemma case_relabel [bans_simps]:
  "map_ret h (case x of None \<Rightarrow> u | Some y \<Rightarrow> v y) = (case x of None \<Rightarrow> map_ret h u | Some y \<Rightarrow> map_ret h (v y))"
  "map_ret h (case z of Inl a \<Rightarrow> p a | Inr b \<Rightarrow> q b) = (case z of Inl a \<Rightarrow> map_ret h (p a) | Inr b \<Rightarrow> map_ret h (q b))"
  "map_ret h (if c then r else t) = (if c then map_ret h r else map_ret h t)"
  "map_ret h (case w of PluginResult d \<Rightarrow> k d | PluginErrorMessage e \<Rightarrow> l e) =
     (case w of PluginResult d \<Rightarrow> map_ret h (k d) | PluginErrorMessage e \<Rightarrow> map_ret h (l e))"
  "map_ret h (case ys of [] \<Rightarrow> n0 | y # ys \<Rightarrow> n1 y ys) = (case ys of [] \<Rightarrow> map_ret h n0 | y # ys \<Rightarrow> map_ret h (n1 y ys))"
  "map_ret h (case pq of (i, j) \<Rightarrow> o2 i j) = (case pq of (i, j) \<Rightarrow> map_ret h (o2 i j))"
  by (simp_all split: option.split sum.split login_oneof.split list.split prod.split)

lemma InitAuth_bans: "InitAuth E caps (with_bans bs cs) = relabel bs (InitAuth E caps cs)"
  by (simp add: InitAuth_def bans_simps Let_def split_beta cong: if_cong option.case_cong sum.case_cong)

lemma GuestLogin_bans: "GuestLogin E rq (with_bans bs cs) = relabel bs (GuestLogin E rq cs)"
  by (simp add: GuestLogin_def bans_simps Let_def split_beta cong: if_cong option.case_cong sum.case_cong)

lemma UnitSelect_bans: "UnitSelect E rq (with_bans bs cs) = relabel bs (UnitSelect E rq cs)"
  by (simp add: UnitSelect_def bans_simps Let_def split_beta cong: if_cong option.case_cong sum.case_cong)

lemma Login_bans: "Login E rq (with_bans bs cs) = relabel bs (Login E rq cs)"
  by (simp add: Login_def bans_simps Let_def split_beta
      cong: if_cong option.case_cong sum.case_cong login_oneof.case_cong)

lemma set_banned_updates [bans_simps]:
  "(set_banned bs st)\<lparr>Clients := cl\<rparr> = set_banned bs (st\<lparr>Clients := cl\<rparr>)"
  "(set_banned bs st)\<lparr>RadioClients := ra\<rparr> = set_banned bs (st\<lparr>RadioClients := ra\<rparr>)"
  "cleanupClientState g (set_banned bs st) = set_banned bs (cleanupClientState g st)"
  by (simp_all add: set_banned_def cleanupClientState_def)

lemma reads_bans [bans_simps]:
  "GetAllClients order (set_banned bs st) = GetAllClients order st"
  "GetAllRadios order (set_banned bs st) = GetAllRadios order st"
  by (simp_all add: GetAllClients_def GetAllRadios_def)

lemma sync_radios_bans [bans_simps]: "sync_radios L (set_banned bs st) rs m = sync_radios L st rs m"
  by (induction L st rs m rule: sync_radios.induct) (simp_all split: option.split)

lemma with_client_bans [bans_simps]:
  assumes "\<And>g. f' g = map_prod id (with_bans bs) (f g)"
  shows "with_client L cid (with_bans bs cs) f' = relabel bs (with_client L cid cs f)"
  by (simp add: with_client_def assms split: option.split)

lemma srs_bans:
  "SyncClient L order order' (with_bans bs cs) = relabel bs (SyncClient L order order' cs)"
  "UpdateClientInfo L now cid req (with_bans bs cs) = relabel bs (UpdateClientInfo L now cid req cs)"
  "UpdateRadioInfo L cid rad (with_bans bs cs) = relabel bs (UpdateRadioInfo L cid rad cs)"
  "Disconnect L cid (with_bans bs cs) = relabel bs (Disconnect L cid cs)"
proof -
  show "SyncClient L order order' (with_bans bs cs) = relabel bs (SyncClient L order order' cs)"
    by (simp add: SyncClient_def bans_simps Let_def)
  show "UpdateClientInfo L now cid req (with_bans bs cs) = relabel bs (UpdateClientInfo L now cid req cs)"
    unfolding UpdateClientInfo_def
    by (rule with_client_bans) (simp add: bans_simps Let_def split_beta split: option.split)
  show "UpdateRadioInfo L cid rad (with_bans bs cs) = relabel bs (UpdateRadioInfo L cid rad cs)"
    unfolding UpdateRadioInfo_def by (rule with_client_bans) (simp add: bans_simps Let_def)
  show "Disconnect L cid (with_bans bs cs) = relabel bs (Disconnect L cid cs)"
    unfolding Disconnect_def by (rule with_client_bans) (simp add: bans_simps Let_def)
qed

lemma interceptor_bans: "authInterceptor E m md (with_bans bs cs) = relabel bs (authInterceptor E m md cs)"
  by (simp add: authInterceptor_def bans_simps Let_def
      cong: if_cong option.case_cong sum.case_cong list.case_cong)

lemma map_ret_compose: "map_ret f (map_ret g m) = map_ret (f \<circ> g) m"
  by (cases m) simp_all

lemma map_ret_reply:
  "map_ret (\<lambda>(r, s). (h r, s)) (relabel bs m) = relabel bs (map_ret (\<lambda>(r, s). (h r, s)) m)"
  by (simp add: map_ret_compose comp_def split_beta)

lemma handler_bans: "run_handler_for E cid rq (with_bans bs cs) = relabel bs (run_handler_for E cid rq cs)"
  by (cases rq)
    (simp_all add: InitAuth_bans GuestLogin_bans Login_bans UnitSelect_bans srs_bans map_ret_reply GetServerSettings_def)

subsection \<open>Property\<close>

text \<open>
  C18: Bans are not enforced. Every request, logins included, has the same outcome and the same
  reply whatever the list of banned clients is, and leaves the same state but for the list: no
  client is ever turned away because it is banned.
\<close>

theorem bans_never_enforced:
  "serve_unary E md rq (cs\<lparr>cs_state := set_banned bs (cs_state cs)\<rparr>) =
     map_ret (\<lambda>(reply, cs'). (reply, cs'\<lparr>cs_state := set_banned bs (cs_state cs')\<rparr>)) (serve_unary E md rq cs)"
proof -
  have "serve_unary E md rq (with_bans bs cs) = relabel bs (serve_unary E md rq cs)"
    by (auto simp: serve_unary_def interceptor_bans handler_bans bans_simps split_beta
        intro!: bind_cong split: intercepted.split)
  then show ?thesis by (simp add: with_bans_def [abs_def] map_prod_def)
qed

end
