(* ===== verification/AppControl.thy ===== *)
theory AppControl
  imports AppAdmin VoiceServer
begin

text \<open>
  The application object and its three servers: \<^verbatim>\<open>app/app.go\<close>, \<^verbatim>\<open>app/server_control.go\<close>,
  \<^verbatim>\<open>state/admin.go\<close> and \<^verbatim>\<open>services/server_control.go\<close>. Starting a server leaves its work to
  goroutines; the model keeps the goroutines that still run as a list, so that what happens between
  a call and the goroutine it starts can be stated.
\<close>

subsection \<open>State\<close>

record service_status =
  ss_IsRunning :: bool
  ss_IsNeeded :: bool
  ss_Error :: string

record admin_state =
  HTTPStatus :: service_status
  VoiceStatus :: service_status
  ControlStatus :: service_status

definition RuntimeModeHeadless :: u8 where "RuntimeModeHeadless = 0"
definition RuntimeModeGUI :: u8 where "RuntimeModeGUI = 1"

text \<open>
  Goroutines, named by what they do next: create the HTTP server and serve; serve with the HTTP
  server of this number; create the voice server for this stop channel; call \<open>Listen\<close> on the
  application's voice server; receive with the voice server of this number; wait for the stop
  channel to stop the control server of this number. \<open>Starter\<close> is a call of
  \<open>StartStandaloneServer\<close> with the steps it has left.
\<close>

datatype start_step = GrpcCheck | GrpcBody | VoiceEnter | HttpCheck | HttpBody

datatype goroutine =
    HttpStarts | HttpServes nat | VoiceStarts nat | VoiceListens nat | VoiceLoop nat nat
  | ControlShutdown nat nat | Starter "start_step list"

text \<open>
  Servers and stop channels are objects: the lists hold all that were ever made (of an HTTP server
  whether it was shut down, of a channel whether it is closed), the application holds the number
  of its current ones.
\<close>

record vcs_app =
  va :: app_state
  va_admin :: admin_state
  va_runtime :: u8
  va_autoStart :: bool
  va_https :: "bool list"
  va_http :: "nat option"
  va_voices :: "voice_server list"
  va_voice :: "nat option"
  va_controls :: "control_server list"
  va_control :: "nat option"
  va_chans :: "bool list"
  va_signals :: "string \<rightharpoonup> nat"
  va_threads :: "goroutine list"

record life_env =
  le_admin :: admin_env
  le_plugins :: plugin_net

text \<open>What the network answers to a start of the control server, and the text of an error.\<close>

record listen_env =
  li_client :: bool
  li_control :: bool
  li_cert :: bool
  li_error :: string

subsection \<open>Small steps\<close>

definition emit :: "event \<Rightarrow> vcs_app \<Rightarrow> vcs_app" where
  "emit e a = a\<lparr>va := EmitEvent e (va a)\<rparr>"

definition notify :: "life_env \<Rightarrow> string \<Rightarrow> string \<Rightarrow> string \<Rightarrow> vcs_app \<Rightarrow> vcs_app" where
  "notify E title message level a = a\<lparr>va := Notify (le_admin E) title message level (va a)\<rparr>"

definition admin_changed :: "vcs_app \<Rightarrow> vcs_app" where
  "admin_changed = emit (NewEvent AdminChanged AdminRef)"

definition set_status :: "bool \<Rightarrow> string \<Rightarrow> service_status \<Rightarrow> service_status" where
  "set_status running err s = s\<lparr>ss_IsRunning := running, ss_Error := err\<rparr>"

definition upd_admin :: "(admin_state \<Rightarrow> admin_state) \<Rightarrow> vcs_app \<Rightarrow> vcs_app" where
  "upd_admin f a = a\<lparr>va_admin := f (va_admin a)\<rparr>"

definition http_status :: "(service_status \<Rightarrow> service_status) \<Rightarrow> vcs_app \<Rightarrow> vcs_app" where
  "http_status f = upd_admin (\<lambda>s. s\<lparr>HTTPStatus := f (HTTPStatus s)\<rparr>)"

definition voice_status :: "(service_status \<Rightarrow> service_status) \<Rightarrow> vcs_app \<Rightarrow> vcs_app" where
  "voice_status f = upd_admin (\<lambda>s. s\<lparr>VoiceStatus := f (VoiceStatus s)\<rparr>)"

definition control_status :: "(service_status \<Rightarrow> service_status) \<Rightarrow> vcs_app \<Rightarrow> vcs_app" where
  "control_status f = upd_admin (\<lambda>s. s\<lparr>ControlStatus := f (ControlStatus s)\<rparr>)"

definition http_running :: "vcs_app \<Rightarrow> bool" where
  "http_running a = ss_IsRunning (HTTPStatus (va_admin a))"

definition voice_running :: "vcs_app \<Rightarrow> bool" where
  "voice_running a = ss_IsRunning (VoiceStatus (va_admin a))"

definition control_running :: "vcs_app \<Rightarrow> bool" where
  "control_running a = ss_IsRunning (ControlStatus (va_admin a))"

definition spawn :: "goroutine \<Rightarrow> vcs_app \<Rightarrow> vcs_app" where
  "spawn t a = a\<lparr>va_threads := va_threads a @ [t]\<rparr>"

text \<open>A new stop channel, stored under the server's name in place of the one there.\<close>

definition make_signal :: "string \<Rightarrow> vcs_app \<Rightarrow> vcs_app" where
  "make_signal nm a = a\<lparr>va_chans := va_chans a @ [False],
     va_signals := (va_signals a)(nm \<mapsto> length (va_chans a))\<rparr>"

text \<open>Closing a closed channel panics.\<close>

definition close_signal :: "string \<Rightarrow> vcs_app \<Rightarrow> vcs_app outcome" where
  "close_signal nm a =
     (case va_signals a nm of
        None \<Rightarrow> Ret a
      | Some c \<Rightarrow> if va_chans a ! c then Panics
                  else Ret (a\<lparr>va_chans := (va_chans a)[c := True], va_signals := (va_signals a)(nm := None)\<rparr>))"

subsection \<open>HTTP server\<close>

definition http_enter :: "life_env \<Rightarrow> vcs_app \<Rightarrow> bool \<times> vcs_app" where
  "http_enter E a =
     (if http_running a
      then (False, notify E ''HTTP server already running'' ''HTTP server is already running'' ''warning'' a)
      else (True, a))"

definition http_spawn :: "vcs_app \<Rightarrow> vcs_app" where
  "http_spawn a = admin_changed (spawn HttpStarts (make_signal ''http'' a))"

definition startHTTPServer :: "life_env \<Rightarrow> vcs_app \<Rightarrow> vcs_app" where
  "startHTTPServer E a = (let (go, a1) = http_enter E a in if go then http_spawn a1 else a1)"

text \<open>The goroutine: it creates the server and serves, until the server is shut down or fails.\<close>

definition http_run :: "vcs_app \<Rightarrow> vcs_app" where
  "http_run a = spawn (HttpServes (length (va_https a)))
     (http_status (set_status True [])
       (a\<lparr>va_https := va_https a @ [False], va_http := Some (length (va_https a))\<rparr>))"

definition http_serve_failed :: "life_env \<Rightarrow> string \<Rightarrow> vcs_app \<Rightarrow> vcs_app" where
  "http_serve_failed E err a = http_status (set_status False err)
     (notify E ''HTTP server error'' ''Could not start HTTP Server.'' ''error'' a)"

text \<open>\<open>Shutdown\<close> marks the server as shut down before it waits; \<open>err\<close> is its result.\<close>

definition stopHTTPServer :: "life_env \<Rightarrow> string option \<Rightarrow> vcs_app \<Rightarrow> vcs_app outcome" where
  "stopHTTPServer E err a =
     (if \<not> http_running a
      then Ret (notify E ''HTTP server error'' ''HTTP server is not running'' ''warning'' a)
      else bind_outcome (close_signal ''http'' a) (\<lambda>a1.
        case va_http a1 of
          None \<Rightarrow> Panics
        | Some n \<Rightarrow>
            let a2 = a1\<lparr>va_https := (va_https a1)[n := True]\<rparr>
            in case err of
                 Some e \<Rightarrow> Ret (notify E ''HTTP server error'' ''Could not stop HTTP Server.'' ''error''
                             (admin_changed (http_status (\<lambda>s. s\<lparr>ss_Error := e\<rparr>) a2)))
               | None \<Rightarrow> Ret (admin_changed (http_status (set_status False []) a2))))"

subsection \<open>Voice server\<close>

definition startVoiceServer :: "life_env \<Rightarrow> vcs_app \<Rightarrow> vcs_app" where
  "startVoiceServer E a =
     (if voice_running a
      then notify E ''Voice server error'' ''voice server is already running'' ''warning'' a
      else admin_changed (spawn (VoiceStarts (length (va_chans a))) (make_signal ''voice'' a)))"

text \<open>The goroutine: a new server becomes the application's and counts as running before it listens.\<close>

definition voice_run :: "nat \<Rightarrow> vcs_app \<Rightarrow> vcs_app" where
  "voice_run stopChan a = spawn (VoiceListens stopChan)
     (voice_status (set_status True [])
       (a\<lparr>va_voices := va_voices a @ [NewVoiceServer], va_voice := Some (length (va_voices a))\<rparr>))"

text \<open>\<open>Listen\<close> binds the socket of what is the application's voice server by then.\<close>

definition voice_listen :: "nat \<Rightarrow> vcs_app \<Rightarrow> vcs_app outcome" where
  "voice_listen stopChan a =
     (case va_voice a of
        None \<Rightarrow> Panics
      | Some i \<Rightarrow> Ret (spawn (VoiceLoop i stopChan)
                    (a\<lparr>va_voices := (va_voices a)[i := voice_bind (va_voices a ! i)]\<rparr>)))"

definition voice_listen_failed :: "life_env \<Rightarrow> string \<Rightarrow> vcs_app \<Rightarrow> vcs_app" where
  "voice_listen_failed E err a =
     notify E ''voice server error'' ''Could not start Voice server'' ''error''
       (voice_status (set_status False err) a)"

text \<open>\<open>err\<close>: the error, if any, of closing the socket.\<close>

definition stopVoiceServer :: "life_env \<Rightarrow> string option \<Rightarrow> vcs_app \<Rightarrow> vcs_app outcome" where
  "stopVoiceServer E err a =
     (if \<not> voice_running a
      then Ret (notify E ''Voice server error'' ''Voice server is not running'' ''warning'' a)
      else bind_outcome (close_signal ''voice'' a) (\<lambda>a1.
        case va_voice a1 of
          None \<Rightarrow> Panics
        | Some i \<Rightarrow>
            bind_outcome (StopVoice (err \<noteq> None) (va_voices a1 ! i)) (\<lambda>(ok, v).
              let a2 = a1\<lparr>va_voices := (va_voices a1)[i := v]\<rparr>
              in if \<not> ok
                 then Ret (notify E ''Voice server error'' ''Could stop start Voice server'' ''error''
                        (voice_status (\<lambda>s. s\<lparr>ss_Error := the err\<rparr>) a2))
                 else Ret (admin_changed (voice_status (set_status False []) a2)))))"

subsection \<open>Control server\<close>

definition grpc_enter :: "life_env \<Rightarrow> vcs_app \<Rightarrow> bool \<times> vcs_app" where
  "grpc_enter E a =
     (if control_running a
      then (False, notify E ''Control server error'' ''Control server is already running'' ''warning'' a)
      else (True, a))"

definition grpc_body :: "life_env \<Rightarrow> listen_env \<Rightarrow> vcs_app \<Rightarrow> vcs_app outcome" where
  "grpc_body E li a =
     (let c = length (va_chans a); k = length (va_controls a);
          a1 = (make_signal ''control'' a)\<lparr>va_controls := va_controls a @ [NewControlServer], va_control := Some k\<rparr>
      in bind_outcome
           (StartControl (le_plugins E) (li_client li) (li_control li) (li_cert li) NewControlServer (ap_control (va a1)))
           (\<lambda>(err, srv, cs).
              let a2 = a1\<lparr>va_controls := (va_controls a1)[k := srv], va := (va a1)\<lparr>ap_control := cs\<rparr>\<rparr>
              in if err \<noteq> None
                 then Ret (notify E ''Control server error'' ''Could not start Control server'' ''error''
                        (control_status (set_status False (li_error li)) a2))
                 else Ret (admin_changed (control_status (set_status True []) (spawn (ControlShutdown k c) a2)))))"

definition startGrpcServer :: "life_env \<Rightarrow> listen_env \<Rightarrow> vcs_app \<Rightarrow> vcs_app outcome" where
  "startGrpcServer E li a = (let (go, a1) = grpc_enter E a in if go then grpc_body E li a1 else Ret a1)"

definition stopControlServer :: "life_env \<Rightarrow> vcs_app \<Rightarrow> vcs_app outcome" where
  "stopControlServer E a =
     (if \<not> control_running a
      then Ret (notify E ''Control server error'' ''Control server is not running'' ''warning'' a)
      else bind_outcome (close_signal ''control'' a) (\<lambda>a1.
        bind_outcome
          (case va_control a1 of
             None \<Rightarrow> Ret a1
           | Some k \<Rightarrow> map_ret (\<lambda>srv. a1\<lparr>va_controls := (va_controls a1)[k := srv]\<rparr>)
                         (StopControl (va_controls a1 ! k))) (\<lambda>a2.
        Ret (admin_changed (control_status (set_status False []) a2)))))"

text \<open>The goroutine that waits for the stop channel.\<close>

definition handleShutdown :: "nat \<Rightarrow> vcs_app \<Rightarrow> vcs_app outcome" where
  "handleShutdown k a =
     map_ret (\<lambda>srv. a\<lparr>va_controls := (va_controls a)[k := srv]\<rparr>) (StopControl (va_controls a ! k))"

subsection \<open>The application\<close>

definition any_running :: "vcs_app \<Rightarrow> bool" where
  "any_running a \<longleftrightarrow> http_running a \<or> voice_running a \<or> control_running a"

definition StartStandaloneServer :: "life_env \<Rightarrow> listen_env \<Rightarrow> vcs_app \<Rightarrow> vcs_app outcome" where
  "StartStandaloneServer E li a =
     (if any_running a then Ret a
      else map_ret (\<lambda>a1. startHTTPServer E (startVoiceServer E a1)) (startGrpcServer E li a))"

definition StartControlServer :: "life_env \<Rightarrow> listen_env \<Rightarrow> vcs_app \<Rightarrow> vcs_app outcome" where
  "StartControlServer E li a =
     (if control_running a then Ret a else map_ret (startHTTPServer E) (startGrpcServer E li a))"

definition StartVoiceServer :: "life_env \<Rightarrow> vcs_app \<Rightarrow> vcs_app" where
  "StartVoiceServer E a = (if voice_running a then a else startVoiceServer E a)"

definition va_mode :: "vcs_app \<Rightarrow> u8" where
  "va_mode a = cs_mode (ap_control (va a))"

definition StopServer :: "life_env \<Rightarrow> string option \<Rightarrow> string option \<Rightarrow> vcs_app \<Rightarrow> vcs_app outcome" where
  "StopServer E http_err voice_err a =
     (if \<not> any_running a then Ret a
      else
        bind_outcome
          (if va_mode a = DistributionModeVoice \<or> va_mode a = DistributionModeStandalone
           then stopVoiceServer E voice_err a else Ret a) (\<lambda>a1.
        if va_mode a1 = DistributionModeControl \<or> va_mode a1 = DistributionModeStandalone
        then bind_outcome (stopHTTPServer E http_err a1) (stopControlServer E)
        else Ret a1))"

definition GetServerStatus :: "vcs_app \<Rightarrow> admin_state" where
  "GetServerStatus = va_admin"

definition GetServerVersion :: string where
  "GetServerVersion = ''v0.1.0''"

text \<open>One step of a start that runs beside other goroutines; the list is what the call still does.\<close>

fun starter_step :: "life_env \<Rightarrow> listen_env \<Rightarrow> start_step list \<Rightarrow> vcs_app \<Rightarrow> (start_step list \<times> vcs_app) outcome" where
  "starter_step E li [] a = Ret ([], a)"
| "starter_step E li (GrpcCheck # r) a = (let (go, a1) = grpc_enter E a in Ret (if go then GrpcBody # r else r, a1))"
| "starter_step E li (GrpcBody # r) a = map_ret (Pair r) (grpc_body E li a)"
| "starter_step E li (VoiceEnter # r) a = Ret (r, startVoiceServer E a)"
| "starter_step E li (HttpCheck # r) a = (let (go, a1) = http_enter E a in Ret (if go then HttpBody # r else r, a1))"
| "starter_step E li (HttpBody # r) a = Ret (r, http_spawn a)"

subsection \<open>Start of the program\<close>

definition zero_setting :: server_setting where
  "zero_setting = \<lparr>Host = [], Port = 0\<rparr>"

definition zero_settings :: settings_state where
  "zero_settings = \<lparr>
     Servers = \<lparr>HTTP = zero_setting, Voice = zero_setting, Control = zero_setting\<rparr>,
     Coalitions = [], Frequencies = \<lparr>TestFrequencies = [], GlobalFrequencies = []\<rparr>,
     General = \<lparr>MaxRadiosPerUser = 0\<rparr>,
     Security = \<lparr>Plugins = [], EnablePluginAuth = False, EnableGuestAuth = False,
       Token = \<lparr>Expiration = 0, PrivateKeyFile = [], PublicKeyFile = [], Issuer = [], Subject = []\<rparr>\<rparr>,
     VoiceControl = \<lparr>vc_Port = 0, vc_RemoteHost = [], vc_ListenHost = [], vc_CertificateFile = [],
       vc_PrivateKeyFile = []\<rparr>,
     settings_file = []\<rparr>"

definition zero_status :: service_status where
  "zero_status = \<lparr>ss_IsRunning = False, ss_IsNeeded = False, ss_Error = []\<rparr>"

definition needed_status :: "bool \<Rightarrow> service_status" where
  "needed_status b = \<lparr>ss_IsRunning = False, ss_IsNeeded = b, ss_Error = []\<rparr>"

text \<open>
  \<open>New\<close>: all states are zero values, so the runtime mode reads as headless until the start. The
  files and the token keys are those of the process. Channel 0 of the bus carries notifications,
  channel 1 all events.
\<close>

definition NewApplication :: "file_system \<Rightarrow> key_store \<Rightarrow> vcs_app" where
  "NewApplication fs ks = \<lparr>
     va = \<lparr>ap_control = \<lparr>
         cs_state = \<lparr>Clients = None, RadioClients = None, BannedSt = \<lparr>BannedClients = [], ban_file = []\<rparr>\<rparr>,
         cs_settings = zero_settings, cs_mode = DistributionModeStandalone,
         cs_bus = fst (Subscribe ''*'' (fst (Subscribe NotificationEvent NewEventBus))), cs_keys = ks,
         cs_auth = \<lparr>a_locked = False, authenticatingClients = Map.empty, pluginClients = Map.empty\<rparr>,
         cs_streams = {}\<rparr>,
       ap_fs = fs, ap_gui = []\<rparr>,
     va_admin = \<lparr>HTTPStatus = zero_status, VoiceStatus = zero_status, ControlStatus = zero_status\<rparr>,
     va_runtime = RuntimeModeHeadless, va_autoStart = False,
     va_https = [], va_http = None, va_voices = [], va_voice = None, va_controls = [], va_control = None,
     va_chans = [], va_signals = Map.empty, va_threads = []\<rparr>"

text \<open>
  The two files, and the panics of the two starts: settings that do not load, and a list of bans
  that neither loads nor can be initialised.
\<close>

definition load_bans :: "json_lib \<Rightarrow> string \<Rightarrow> file_system \<Rightarrow> (banned_state \<times> file_system) outcome" where
  "load_bans J file fs =
     (case GetBannedState J file fs of
        (Inr b, fs1) \<Rightarrow> Ret (b, fs1)
      | (Inl _, fs1) \<Rightarrow>
          let b = \<lparr>BannedClients = [], ban_file = []\<rparr>
          in (case SaveBanned J b fs1 of
                (Some _, _) \<Rightarrow> Panics
              | (None, fs2) \<Rightarrow> Ret (b, fs2)))"

definition load_states ::
    "admin_env \<Rightarrow> string \<Rightarrow> string \<Rightarrow> u8 \<Rightarrow> vcs_app \<Rightarrow> vcs_app outcome" where
  "load_states V configFilePath bannedFilePath mode a =
     (case GetSettingsState (ad_yaml V) configFilePath (ap_fs (va a)) of
        ((Some settings, None), fs1) \<Rightarrow>
          map_ret (\<lambda>(bans, fs2). a\<lparr>va := (va a)\<lparr>ap_fs := fs2,
              ap_control := (ap_control (va a))\<lparr>
                cs_state := \<lparr>Clients = gmake, RadioClients = gmake, BannedSt = bans\<rparr>,
                cs_settings := settings, cs_mode := mode\<rparr>\<rparr>\<rparr>)
            (load_bans (ad_json V) bannedFilePath fs1)
      | _ \<Rightarrow> Panics)"

definition StartUp ::
    "life_env \<Rightarrow> listen_env \<Rightarrow> string \<Rightarrow> string \<Rightarrow> bool \<Rightarrow> vcs_app \<Rightarrow> vcs_app outcome" where
  "StartUp E li configFilePath bannedFilePath autoStartServers a =
     bind_outcome (load_states (le_admin E) configFilePath bannedFilePath DistributionModeStandalone a) (\<lambda>a1.
       let a2 = a1\<lparr>va_admin := \<lparr>HTTPStatus = needed_status True, VoiceStatus = needed_status True,
                     ControlStatus = needed_status True\<rparr>,
                   va_runtime := RuntimeModeGUI, va_autoStart := autoStartServers\<rparr>
       in if autoStartServers then StartStandaloneServer E li a2 else Ret a2)"

definition HeadlessStartup ::
    "life_env \<Rightarrow> listen_env \<Rightarrow> string \<Rightarrow> string \<Rightarrow> u8 \<Rightarrow> vcs_app \<Rightarrow> vcs_app outcome" where
  "HeadlessStartup E li configFilePath bannedFilePath mode a =
     bind_outcome (load_states (le_admin E) configFilePath bannedFilePath mode a) (\<lambda>a1.
       let control = (mode = DistributionModeStandalone \<or> mode = DistributionModeControl);
           voice = (mode = DistributionModeStandalone \<or> mode = DistributionModeVoice);
           a2 = a1\<lparr>va_admin := \<lparr>HTTPStatus = needed_status control, VoiceStatus = needed_status voice,
                     ControlStatus = needed_status control\<rparr>,
                   va_runtime := RuntimeModeHeadless, va_autoStart := True\<rparr>
       in if mode = DistributionModeStandalone then StartStandaloneServer E li a2
          else if mode = DistributionModeControl then StartControlServer E li a2
          else if mode = DistributionModeVoice then Ret (StartVoiceServer E a2)
          else Ret a2)"

text \<open>
  The two goroutines of \<open>New\<close> that forward events to the GUI. The first looks at the mode for each
  event; the second looks once, when it is first scheduled, and ends if the mode is not GUI.
\<close>

fun handleNotificationEvent :: "u8 \<Rightarrow> event list \<Rightarrow> event list" where
  "handleNotificationEvent runtime [] = []"
| "handleNotificationEvent runtime (e # es) =
     (if e_Name e = NotificationEvent then
        (case e_Data e of
           NotificationData n \<Rightarrow>
             (if runtime = RuntimeModeGUI then e # handleNotificationEvent runtime es
              else handleNotificationEvent runtime es)
         | _ \<Rightarrow> handleNotificationEvent runtime es)
      else handleNotificationEvent runtime es)"

definition handleFrontendEmits :: "u8 \<Rightarrow> event list \<Rightarrow> event list" where
  "handleFrontendEmits runtime_then es = (if runtime_then = RuntimeModeGUI then es else [])"

subsection \<open>Steps\<close>

definition ends :: "goroutine \<Rightarrow> vcs_app \<Rightarrow> vcs_app" where
  "ends t a = a\<lparr>va_threads := remove1 t (va_threads a)\<rparr>"

abbreviation alive :: "goroutine \<Rightarrow> vcs_app \<Rightarrow> bool" where
  "alive t a \<equiv> t \<in> set (va_threads a)"

definition start_programs :: "start_step list set" where
  "start_programs = {[GrpcCheck, VoiceEnter, HttpCheck], [GrpcCheck, HttpCheck], [VoiceEnter]}"

text \<open>
  What can happen to the servers: calls of start and stop, each step of a goroutine, a failing
  listener, and any change of the rest of the application (\<open>other\<close>). The socket is assumed to close
  without an error (see \<open>voice_stop\<close> for what happens when it does not).
\<close>

inductive life_step :: "life_env \<Rightarrow> vcs_app \<Rightarrow> vcs_app \<Rightarrow> bool" for E where
  call_start: "\<not> any_running a \<Longrightarrow> p \<in> start_programs \<Longrightarrow> life_step E a (spawn (Starter p) a)"
| call_stop: "StopServer E http_err None a = Ret a' \<Longrightarrow> life_step E a a'"
| starter: "alive (Starter (s # r)) a \<Longrightarrow>
    starter_step E li (s # r) (ends (Starter (s # r)) a) = Ret (r', a') \<Longrightarrow>
    life_step E a (spawn (Starter r') a')"
| http_runs: "alive HttpStarts a \<Longrightarrow> life_step E a (http_run (ends HttpStarts a))"
| http_fails: "alive (HttpServes n) a \<Longrightarrow> life_step E a (http_serve_failed E err (ends (HttpServes n) a))"
| http_closes: "alive (HttpServes n) a \<Longrightarrow> va_https a ! n \<Longrightarrow> life_step E a (ends (HttpServes n) a)"
| voice_runs: "alive (VoiceStarts c) a \<Longrightarrow> life_step E a (voice_run c (ends (VoiceStarts c) a))"
| voice_binds: "alive (VoiceListens c) a \<Longrightarrow> voice_listen c (ends (VoiceListens c) a) = Ret a' \<Longrightarrow> life_step E a a'"
| voice_fails: "alive (VoiceListens c) a \<Longrightarrow>
    life_step E a (voice_listen_failed E err (ends (VoiceListens c) a))"
| voice_ends: "alive (VoiceLoop i c) a \<Longrightarrow> va_chans a ! c \<Longrightarrow> life_step E a (ends (VoiceLoop i c) a)"
| voice_dies: "alive (VoiceLoop i c) a \<Longrightarrow> \<not> v_running (va_voices a ! i) \<Longrightarrow>
    life_step E a (voice_listen_failed E err (ends (VoiceLoop i c) a))"
| shutdown: "alive (ControlShutdown k c) a \<Longrightarrow> va_chans a ! c \<Longrightarrow>
    handleShutdown k (ends (ControlShutdown k c) a) = Ret a' \<Longrightarrow> life_step E a a'"
| serve_fails: "k < length (va_controls a) \<Longrightarrow> serve_failed (va_controls a ! k) = Ret srv \<Longrightarrow>
    life_step E a (a\<lparr>va_controls := (va_controls a)[k := srv]\<rparr>)"
| other: "cs_mode (ap_control x) = va_mode a \<Longrightarrow> life_step E a (a\<lparr>va := x\<rparr>)"

text \<open>Idle: as the start of the program leaves the servers when it does not start them itself.\<close>

definition idle :: "vcs_app \<Rightarrow> bool" where
  "idle a \<longleftrightarrow> \<not> any_running a \<and> va_chans a = [] \<and> va_signals a = Map.empty \<and> va_threads a = [] \<and>
     va_https a = [] \<and> va_http a = None \<and> va_voices a = [] \<and> va_voice a = None \<and>
     va_controls a = [] \<and> va_control a = None"

inductive life_reach :: "life_env \<Rightarrow> vcs_app \<Rightarrow> bool" for E where
  start: "idle a \<Longrightarrow> life_reach E a"
| step: "life_reach E a \<Longrightarrow> life_step E a a' \<Longrightarrow> life_reach E a'"

subsection \<open>Invariant\<close>

definition signals_ok :: "bool list \<Rightarrow> (string \<rightharpoonup> nat) \<Rightarrow> bool" where
  "signals_ok ch sg \<longleftrightarrow> (\<forall>nm c. sg nm = Some c \<longrightarrow> c < length ch \<and> \<not> ch ! c) \<and> inj_on sg (dom sg)"

definition good_control :: "control_server \<Rightarrow> bool" where
  "good_control k \<longleftrightarrow> \<not> k_locked k \<and> (k_stopOnce k \<longrightarrow> \<not> k_isRunning k)"

definition life_inv :: "vcs_app \<Rightarrow> bool" where
  "life_inv a \<longleftrightarrow>
     signals_ok (va_chans a) (va_signals a) \<and>
     (\<forall>n. va_http a = Some n \<longrightarrow> n < length (va_https a)) \<and>
     (http_running a \<longrightarrow> va_http a \<noteq> None) \<and>
     (\<forall>i. va_voice a = Some i \<longrightarrow> i < length (va_voices a)) \<and>
     (voice_running a \<longrightarrow> (\<exists>i. va_voice a = Some i \<and> \<not> v_stopClosed (va_voices a ! i))) \<and>
     (\<forall>k. va_control a = Some k \<longrightarrow> k < length (va_controls a)) \<and>
     (control_running a \<longrightarrow> (\<exists>k. va_control a = Some k \<and> good_control (va_controls a ! k))) \<and>
     (\<forall>c. alive (VoiceListens c) a \<longrightarrow> va_voice a \<noteq> None) \<and>
     (\<forall>k c. alive (ControlShutdown k c) a \<longrightarrow> k < length (va_controls a) \<and> good_control (va_controls a ! k))"

lemma signals_make:
  assumes "signals_ok ch sg"
  shows "signals_ok (ch @ [False]) (sg(nm \<mapsto> length ch))"
proof -
  have lt: "sg n = Some c \<Longrightarrow> c < length ch \<and> \<not> ch ! c" for n c using assms by (auto simp: signals_ok_def)
  have "c < length (ch @ [False]) \<and> \<not> (ch @ [False]) ! c" if "(sg(nm \<mapsto> length ch)) n = Some c" for n c
    using that lt [of n c] by (auto simp: nth_append split: if_splits)
  moreover have "inj_on (sg(nm \<mapsto> length ch)) (dom (sg(nm \<mapsto> length ch)))"
    using assms lt by (fastforce simp: signals_ok_def inj_on_def dom_def)
  ultimately show ?thesis by (simp add: signals_ok_def)
qed

lemma signals_close:
  assumes "signals_ok ch sg" and "sg nm = Some c"
  shows "signals_ok (ch[c := True]) (sg(nm := None))"
proof -
  have "d \<noteq> c" if "sg n = Some d" "n \<noteq> nm" for n d
    using assms that by (auto simp: signals_ok_def inj_on_def dom_def)
  then show ?thesis
    using assms by (auto simp: signals_ok_def inj_on_def dom_def nth_list_update split: if_splits)
qed

lemmas plain_defs = emit_def notify_def admin_changed_def set_status_def upd_admin_def http_status_def
  voice_status_def control_status_def http_running_def voice_running_def control_running_def spawn_def ends_def
  make_signal_def

lemma life_invD:
  "life_inv a \<Longrightarrow> http_running a \<Longrightarrow> \<exists>n. va_http a = Some n \<and> n < length (va_https a)"
  "life_inv a \<Longrightarrow> voice_running a \<Longrightarrow> \<exists>i. va_voice a = Some i \<and> i < length (va_voices a) \<and> \<not> v_stopClosed (va_voices a ! i)"
  "life_inv a \<Longrightarrow> control_running a \<Longrightarrow> \<exists>k. va_control a = Some k \<and> k < length (va_controls a) \<and> good_control (va_controls a ! k)"
  "life_inv a \<Longrightarrow> alive (VoiceListens c) a \<Longrightarrow> \<exists>i. va_voice a = Some i"
  "life_inv a \<Longrightarrow> alive (ControlShutdown k c) a \<Longrightarrow> good_control (va_controls a ! k)"
  by (auto simp: life_inv_def)

lemma spawn_inv:
  "life_inv a \<Longrightarrow> (\<And>c. t = VoiceListens c \<Longrightarrow> va_voice a \<noteq> None) \<Longrightarrow>
   (\<And>k c. t = ControlShutdown k c \<Longrightarrow> k < length (va_controls a) \<and> good_control (va_controls a ! k)) \<Longrightarrow>
   life_inv (spawn t a)"
  by (auto simp: life_inv_def plain_defs)

lemma ends_inv: "life_inv a \<Longrightarrow> life_inv (ends t a)"
  using set_remove1_subset [of t "va_threads a"]
  by (simp add: life_inv_def plain_defs) blast

lemma va_inv [simp]: "life_inv (a\<lparr>va := x\<rparr>) = life_inv a"
  by (simp add: life_inv_def plain_defs)

lemma emit_inv [simp]:
  "life_inv (emit e a) = life_inv a" "life_inv (notify E t m l a) = life_inv a"
  "life_inv (admin_changed a) = life_inv a"
  by (simp_all add: emit_def notify_def admin_changed_def)

lemma va_mode_simps [simp]:
  "va_mode (emit e a) = va_mode a" "va_mode (notify E t m l a) = va_mode a"
  "va_mode (admin_changed a) = va_mode a" "va_mode (http_status f a) = va_mode a"
  "va_mode (voice_status f a) = va_mode a" "va_mode (control_status f a) = va_mode a"
  "va_mode (spawn th a) = va_mode a" "va_mode (make_signal nm a) = va_mode a" "va_mode (ends th a) = va_mode a"
  by (simp_all add: va_mode_def plain_defs EmitEvent_def Notify_def upd_control_def publish_event_def)

lemma make_signal_inv: "life_inv a \<Longrightarrow> life_inv (make_signal nm a)"
  by (auto simp: life_inv_def plain_defs signals_make)

lemma close_signal_inv:
  assumes "life_inv a"
  shows "\<exists>ch sg. close_signal nm a = Ret (a\<lparr>va_chans := ch, va_signals := sg\<rparr>) \<and>
     life_inv (a\<lparr>va_chans := ch, va_signals := sg\<rparr>)"
proof (cases "va_signals a nm")
  case None
  then have "close_signal nm a = Ret (a\<lparr>va_chans := va_chans a, va_signals := va_signals a\<rparr>)"
    by (simp add: close_signal_def)
  with assms show ?thesis by (intro exI conjI) (assumption, simp)
next
  case (Some c)
  then have "\<not> va_chans a ! c" using assms by (auto simp: life_inv_def signals_ok_def)
  with Some have "close_signal nm a =
      Ret (a\<lparr>va_chans := (va_chans a)[c := True], va_signals := (va_signals a)(nm := None)\<rparr>)"
    by (simp add: close_signal_def)
  moreover have "life_inv (a\<lparr>va_chans := (va_chans a)[c := True], va_signals := (va_signals a)(nm := None)\<rparr>)"
    using assms Some signals_close by (simp add: life_inv_def plain_defs)
  ultimately show ?thesis by blast
qed

lemma status_inv:
  "life_inv a \<Longrightarrow> life_inv (http_status (set_status False err) a)"
  "life_inv a \<Longrightarrow> life_inv (voice_status (set_status False err) a)"
  "life_inv a \<Longrightarrow> life_inv (control_status (set_status False err) a)"
  "life_inv a \<Longrightarrow> life_inv (http_status (\<lambda>s. s\<lparr>ss_Error := err\<rparr>) a)"
  by (auto simp: life_inv_def plain_defs)

lemma stopHTTPServer_inv:
  assumes "life_inv a"
  shows "\<exists>a'. stopHTTPServer E err a = Ret a' \<and> life_inv a' \<and> va_mode a' = va_mode a"
proof (cases "http_running a")
  case False
  then show ?thesis using assms by (simp add: stopHTTPServer_def)
next
  case True
  obtain ch sg where c: "close_signal ''http'' a = Ret (a\<lparr>va_chans := ch, va_signals := sg\<rparr>)"
    "life_inv (a\<lparr>va_chans := ch, va_signals := sg\<rparr>)" using close_signal_inv [OF assms] by blast
  obtain n where n: "va_http a = Some n" using life_invD(1) [OF assms True] by blast
  have "life_inv (a\<lparr>va_chans := ch, va_signals := sg, va_https := (va_https a)[n := True]\<rparr>)"
    using c(2) by (simp add: life_inv_def plain_defs)
  then show ?thesis
    using True c n by (cases err) (simp_all add: stopHTTPServer_def Let_def status_inv, simp_all add: va_mode_def)
qed

lemma StopVoice_open:
  "\<not> v_stopClosed v \<Longrightarrow> \<exists>v'. StopVoice False v = Ret (True, v')"
  by (simp add: StopVoice_def Let_def)

lemma stopVoiceServer_inv:
  assumes "life_inv a"
  shows "\<exists>a'. stopVoiceServer E None a = Ret a' \<and> life_inv a' \<and> va_mode a' = va_mode a"
proof (cases "voice_running a")
  case False
  then show ?thesis using assms by (simp add: stopVoiceServer_def)
next
  case True
  obtain ch sg where c: "close_signal ''voice'' a = Ret (a\<lparr>va_chans := ch, va_signals := sg\<rparr>)"
    "life_inv (a\<lparr>va_chans := ch, va_signals := sg\<rparr>)" using close_signal_inv [OF assms] by blast
  obtain i v where i: "va_voice a = Some i" "StopVoice False (va_voices a ! i) = Ret (True, v)"
    using life_invD(2) [OF assms True] StopVoice_open by blast
  have "life_inv (voice_status (set_status False []) (a\<lparr>va_chans := ch, va_signals := sg, va_voices := (va_voices a)[i := v]\<rparr>))"
    using c(2) by (simp add: life_inv_def plain_defs)
  then show ?thesis
    using True c i by (simp add: stopVoiceServer_def Let_def) (simp add: va_mode_def)
qed

lemma StopControl_good:
  "good_control k \<Longrightarrow> \<exists>k'. StopControl k = Ret k' \<and> good_control k' \<and> \<not> k_isRunning k'"
  by (simp add: StopControl_def IsRunning_def good_control_def)

lemma good_update:
  "good_control (xs ! j) \<Longrightarrow> good_control srv \<Longrightarrow> good_control (xs[k := srv] ! j)"
  by (cases "k < length xs") (auto simp: nth_list_update not_less list_update_beyond)

lemma control_update_inv:
  assumes "life_inv a" and "good_control srv"
  shows "life_inv (a\<lparr>va_controls := (va_controls a)[k := srv]\<rparr>)"
  using assms by (auto simp: life_inv_def plain_defs good_update)

lemma stopControlServer_inv:
  assumes "life_inv a"
  shows "\<exists>a'. stopControlServer E a = Ret a' \<and> life_inv a' \<and> va_mode a' = va_mode a"
proof (cases "control_running a")
  case False
  then show ?thesis using assms by (simp add: stopControlServer_def)
next
  case True
  obtain ch sg where c: "close_signal ''control'' a = Ret (a\<lparr>va_chans := ch, va_signals := sg\<rparr>)"
    "life_inv (a\<lparr>va_chans := ch, va_signals := sg\<rparr>)" using close_signal_inv [OF assms] by blast
  obtain k srv where k: "va_control a = Some k" "StopControl (va_controls a ! k) = Ret srv" "good_control srv"
    using life_invD(3) [OF assms True] StopControl_good by blast
  from control_update_inv [OF c(2) k(3), of k] k True c(1) show ?thesis
    by (simp add: stopControlServer_def status_inv) (simp add: va_mode_def)
qed

lemma StopServer_inv:
  assumes "life_inv a"
  shows "\<exists>a'. StopServer E http_err None a = Ret a' \<and> life_inv a'"
proof -
  obtain a1 where a1: "stopVoiceServer E None a = Ret a1" "life_inv a1" "va_mode a1 = va_mode a"
    using stopVoiceServer_inv [OF assms] by blast
  have rest: "\<exists>a'. bind_outcome (stopHTTPServer E http_err b) (stopControlServer E) = Ret a' \<and> life_inv a'"
    if inv: "life_inv b" for b
  proof -
    obtain b1 where "stopHTTPServer E http_err b = Ret b1" "life_inv b1"
      using stopHTTPServer_inv [OF inv] by blast
    with stopControlServer_inv [of b1 E] show ?thesis by auto
  qed
  show ?thesis
    using a1 assms rest [OF assms] rest [OF a1(2)] by (auto simp: StopServer_def)
qed

lemma startVoiceServer_inv: "life_inv a \<Longrightarrow> life_inv (startVoiceServer E a)"
  by (auto simp: startVoiceServer_def intro!: spawn_inv make_signal_inv)

lemma http_spawn_inv: "life_inv a \<Longrightarrow> life_inv (http_spawn a)"
  by (auto simp: http_spawn_def intro!: spawn_inv make_signal_inv)

lemma StartControl_new:
  "StartControl N l1 l2 cert NewControlServer cs = Ret (err, srv, cs') \<Longrightarrow>
   (good_control srv \<longleftrightarrow> err = None) \<and> cs_mode cs' = cs_mode cs"
  by (auto simp: StartControl_def good_control_def NewControlServer_def IsRunning_def initControlServer_def Let_def branch_iffs
      split: if_splits prod.splits)

lemma grpc_body_inv:
  assumes inv: "life_inv a" and idle: "grpc_body E li a = Ret a'"
  shows "life_inv a' \<and> va_mode a' = va_mode a"
proof -
  let ?k = "length (va_controls a)"
  obtain err srv cs where s: "StartControl (le_plugins E) (li_client li) (li_control li) (li_cert li)
      NewControlServer (ap_control (va a)) = Ret (err, srv, cs)"
    using idle by (cases "StartControl (le_plugins E) (li_client li) (li_control li) (li_cert li)
      NewControlServer (ap_control (va a))") (auto simp: grpc_body_def Let_def plain_defs)
  define b where "b = (make_signal ''control'' a)\<lparr>va_control := Some ?k, va_controls := va_controls a @ [srv],
     va := (va a)\<lparr>ap_control := cs\<rparr>\<rparr>"
  note new = StartControl_new [OF s]
  have m: "life_inv (make_signal ''control'' a)" using inv by (rule make_signal_inv)
  have b_off: "life_inv (control_status (set_status False e) b)" for e
    using m by (auto simp: b_def life_inv_def plain_defs nth_append)
  have b_on: "life_inv (control_status (set_status True []) (spawn (ControlShutdown ?k c) b))" if "err = None" for c
    using m new that by (auto simp: b_def life_inv_def plain_defs nth_append)
  have md: "va_mode b = va_mode a" using new by (simp add: b_def va_mode_def)
  have "a' = (if err \<noteq> None
      then notify E ''Control server error'' ''Could not start Control server'' ''error''
             (control_status (set_status False (li_error li)) b)
      else admin_changed (control_status (set_status True []) (spawn (ControlShutdown ?k (length (va_chans a))) b)))"
    using idle s by (simp add: grpc_body_def Let_def b_def make_signal_def split: if_splits)
  then show ?thesis using b_off b_on md by simp
qed

lemma starter_step_inv:
  "life_inv a \<Longrightarrow> starter_step E li p a = Ret (r, a') \<Longrightarrow> life_inv a'"
  by (induction E li p a rule: starter_step.induct)
    (auto simp: grpc_enter_def http_enter_def startVoiceServer_inv http_spawn_inv Let_def
      bind_outcome_eq_Ret map_ret_eq grpc_body_inv split: if_splits)

lemma http_run_inv: "life_inv a \<Longrightarrow> life_inv (http_run a)"
  by (auto simp: http_run_def life_inv_def plain_defs)

lemma voice_run_inv: "life_inv a \<Longrightarrow> life_inv (voice_run c a)"
  by (auto simp: voice_run_def life_inv_def plain_defs nth_append NewVoiceServer_def)

lemma stopClosed_bind: "v_stopClosed (voice_bind v) = v_stopClosed v"
  by (simp add: voice_bind_def)

lemma voice_listen_inv:
  assumes "life_inv a" and "voice_listen c a = Ret a'"
  shows "life_inv a'"
proof -
  obtain i where i: "va_voice a = Some i" using assms(2) by (cases "va_voice a") (auto simp: voice_listen_def)
  then have "i < length (va_voices a)" using assms(1) by (simp add: life_inv_def)
  then have "life_inv (a\<lparr>va_voices := (va_voices a)[i := voice_bind (va_voices a ! i)]\<rparr>)"
    using assms(1) i by (simp add: life_inv_def plain_defs stopClosed_bind)
  then show ?thesis using assms(2) i by (auto simp: voice_listen_def intro!: spawn_inv)
qed

lemma serve_failed_good: "serve_failed k = Ret srv \<Longrightarrow> good_control srv"
  by (auto simp: serve_failed_def good_control_def split: if_splits)

lemma voice_listen_failed_inv: "life_inv a \<Longrightarrow> life_inv (voice_listen_failed E err a)"
  and http_serve_failed_inv: "life_inv a \<Longrightarrow> life_inv (http_serve_failed E err a)"
  by (simp_all add: voice_listen_failed_def http_serve_failed_def status_inv)

lemma handleShutdown_inv:
  assumes "life_inv a" and "good_control (va_controls a ! k)" and "handleShutdown k a = Ret a'"
  shows "life_inv a'"
proof -
  obtain srv where "StopControl (va_controls a ! k) = Ret srv" "good_control srv"
    using StopControl_good [OF assms(2)] by blast
  with assms(1,3) show ?thesis by (auto simp: handleShutdown_def control_update_inv)
qed

lemma life_step_inv: "life_step E a a' \<Longrightarrow> life_inv a \<Longrightarrow> life_inv a'"
proof (induction rule: life_step.induct)
  case (call_stop http_err a a')
  then show ?case using StopServer_inv [of a E http_err] by auto
next
  case (starter s r a li r' a')
  then have "life_inv a'" using starter_step_inv ends_inv by blast
  then show ?case by (rule spawn_inv) simp_all
next
  case (voice_binds c a a')
  then show ?case using voice_listen_inv ends_inv by blast
next
  case (shutdown k c a a')
  then have "good_control (va_controls (ends (ControlShutdown k c) a) ! k)"
    using life_invD(5) by (simp add: ends_def)
  with shutdown show ?case using handleShutdown_inv ends_inv by blast
next
  case (serve_fails k a srv)
  then show ?case by (simp add: control_update_inv serve_failed_good)
qed (auto simp: ends_inv http_run_inv voice_run_inv voice_listen_failed_inv http_serve_failed_inv intro!: spawn_inv)

lemma idle_inv: "idle a \<Longrightarrow> life_inv a"
  by (simp add: idle_def life_inv_def signals_ok_def any_running_def)

lemma life_reach_inv: "life_reach E a \<Longrightarrow> life_inv a"
  by (induction rule: life_reach.induct) (auto intro: idle_inv life_step_inv)

subsection \<open>What a stop does\<close>

lemma close_signal_fields:
  "close_signal nm a = Ret a' \<Longrightarrow> \<exists>ch sg. a' = a\<lparr>va_chans := ch, va_signals := sg\<rparr>"
proof -
  assume "close_signal nm a = Ret a'"
  then have "a' = a\<lparr>va_chans := va_chans a', va_signals := va_signals a'\<rparr>"
    by (auto simp: close_signal_def split: option.splits if_splits)
  then show ?thesis by blast
qed

lemma stopVoiceServer_stops:
  assumes "stopVoiceServer E None a = Ret a'" and "life_inv a"
  shows "\<not> voice_running a' \<and> http_running a' = http_running a \<and> control_running a' = control_running a \<and>
     va_https a' = va_https a \<and> va_http a' = va_http a \<and> va_controls a' = va_controls a \<and> va_control a' = va_control a \<and>
     (voice_running a \<longrightarrow> (\<exists>i. va_voice a' = Some i \<and> i < length (va_voices a') \<and> \<not> v_running (va_voices a' ! i)))"
proof (cases "voice_running a")
  case True
  obtain i v where i: "va_voice a = Some i" "StopVoice False (va_voices a ! i) = Ret (True, v)" "i < length (va_voices a)"
    using life_invD(2) [OF assms(2) True] StopVoice_open by blast
  have "\<not> v_running v" using i(2) by (auto simp: StopVoice_def Let_def split: if_splits)
  with i assms(1) True show ?thesis
    by (auto simp: stopVoiceServer_def bind_outcome_eq_Ret plain_defs Let_def dest!: close_signal_fields)
qed (use assms(1) in \<open>auto simp: stopVoiceServer_def plain_defs\<close>)

lemma stopHTTPServer_stops:
  assumes "stopHTTPServer E None a = Ret a'" and "life_inv a"
  shows "\<not> http_running a' \<and> voice_running a' = voice_running a \<and> control_running a' = control_running a \<and>
     va_voices a' = va_voices a \<and> va_voice a' = va_voice a \<and> va_controls a' = va_controls a \<and> va_control a' = va_control a \<and>
     (http_running a \<longrightarrow> (\<exists>n. va_http a' = Some n \<and> n < length (va_https a') \<and> va_https a' ! n))"
proof (cases "http_running a")
  case True
  obtain n where n: "va_http a = Some n" "n < length (va_https a)" using life_invD(1) [OF assms(2) True] by blast
  with assms(1) True show ?thesis
    by (auto simp: stopHTTPServer_def bind_outcome_eq_Ret plain_defs Let_def dest!: close_signal_fields)
qed (use assms(1) in \<open>auto simp: stopHTTPServer_def plain_defs\<close>)

lemma stopControlServer_stops:
  assumes "stopControlServer E a = Ret a'" and "life_inv a"
  shows "\<not> control_running a' \<and> http_running a' = http_running a \<and> voice_running a' = voice_running a \<and>
     va_voices a' = va_voices a \<and> va_voice a' = va_voice a \<and> va_https a' = va_https a \<and> va_http a' = va_http a \<and>
     (control_running a \<longrightarrow> (\<exists>k. va_control a' = Some k \<and> k < length (va_controls a') \<and>
        \<not> k_isRunning (va_controls a' ! k)))"
proof (cases "control_running a")
  case True
  obtain k srv where k: "va_control a = Some k" "k < length (va_controls a)"
    "StopControl (va_controls a ! k) = Ret srv" "\<not> k_isRunning srv"
    using life_invD(3) [OF assms(2) True] StopControl_good by blast
  with assms(1) True show ?thesis
    by (auto simp: stopControlServer_def bind_outcome_eq_Ret plain_defs Let_def dest!: close_signal_fields)
qed (use assms(1) in \<open>auto simp: stopControlServer_def plain_defs\<close>)

lemma StopServer_stops:
  assumes inv: "life_inv a" and mode: "va_mode a = DistributionModeStandalone"
  shows "\<exists>a'. StopServer E None None a = Ret a' \<and> \<not> any_running a' \<and>
     (voice_running a \<longrightarrow> (\<exists>i. va_voice a' = Some i \<and> \<not> v_running (va_voices a' ! i))) \<and>
     (http_running a \<longrightarrow> (\<exists>n. va_http a' = Some n \<and> va_https a' ! n)) \<and>
     (control_running a \<longrightarrow> (\<exists>k. va_control a' = Some k \<and> \<not> k_isRunning (va_controls a' ! k)))"
proof (cases "any_running a")
  case True
  obtain b where b: "stopVoiceServer E None a = Ret b" "life_inv b" "va_mode b = va_mode a"
    using stopVoiceServer_inv [OF inv] by blast
  obtain c where c: "stopHTTPServer E None b = Ret c" "life_inv c" using stopHTTPServer_inv [OF b(2)] by blast
  obtain d where d: "stopControlServer E c = Ret d" using stopControlServer_inv [OF c(2)] by blast
  note facts = stopVoiceServer_stops [OF b(1) inv] stopHTTPServer_stops [OF c(1) b(2)]
    stopControlServer_stops [OF d c(2)]
  have "StopServer E None None a = Ret d"
    using True b c d mode by (simp add: StopServer_def)
  with facts show ?thesis by (auto simp: any_running_def)
qed (simp add: StopServer_def any_running_def)

lemma StopServer_threads:
  "StopServer E ht vt a = Ret a' \<Longrightarrow> va_threads a' = va_threads a"
proof -
  have v: "stopVoiceServer E vt a = Ret b \<Longrightarrow> va_threads b = va_threads a" for a b
    by (auto simp: stopVoiceServer_def branch_iffs plain_defs Let_def dest!: close_signal_fields
        split: if_splits prod.splits)
  have h: "stopHTTPServer E ht a = Ret b \<Longrightarrow> va_threads b = va_threads a" for a b
    by (auto simp: stopHTTPServer_def branch_iffs plain_defs Let_def dest!: close_signal_fields split: if_splits)
  have c: "stopControlServer E a = Ret b \<Longrightarrow> va_threads b = va_threads a" for a b
    by (auto simp: stopControlServer_def branch_iffs map_ret_eq plain_defs Let_def dest!: close_signal_fields
        split: if_splits)
  show "StopServer E ht vt a = Ret a' \<Longrightarrow> va_threads a' = va_threads a"
    by (auto simp: StopServer_def bind_outcome_eq_Ret dest!: v h c split: if_splits)
qed

lemma grpc_body_keeps:
  assumes "grpc_body E li a = Ret a'"
  shows "http_running a' = http_running a \<and> voice_running a' = voice_running a \<and>
     set (va_threads a) \<subseteq> set (va_threads a')"
  using assms by (auto simp: grpc_body_def bind_outcome_eq_Ret Let_def plain_defs split: if_splits prod.splits)

subsection \<open>Properties\<close>

text \<open>The ban list that replaces one that did not load has no file, so saving it fails.\<close>

lemma load_bans_eq:
  "load_bans J p fs = (case GetBannedState J p fs of (Inr b, fs1) \<Rightarrow> Ret (b, fs1) | (Inl _, _) \<Rightarrow> Panics)"
proof (cases "GetBannedState J p fs")
  case (Pair r fs1)
  obtain e fs2 where "SaveBanned J \<lparr>BannedClients = [], ban_file = []\<rparr> fs1 = (Some e, fs2)"
    using SaveBanned_missing [of fs1 "\<lparr>BannedClients = [], ban_file = []\<rparr>" J]
    by (metis banned_state.select_convs(2) prod.collapse)
  with Pair show ?thesis by (cases r) (simp_all add: load_bans_def Let_def)
qed



definition sample_life :: life_env where
  "sample_life = \<lparr>le_admin = sample_admin,
     le_plugins = \<lparr>pn_dial = (\<lambda>_. False), pn_configure = (\<lambda>_ _. ConfigRpcError), pn_login = (\<lambda>_ _. LoginRpcError)\<rparr>\<rparr>"

definition sample_listen :: listen_env where
  "sample_listen = \<lparr>li_client = True, li_control = True, li_cert = True, li_error = []\<rparr>"

definition sample_idle :: vcs_app where
  "sample_idle = NewApplication no_files fresh_store"

lemma sample_idle: "idle sample_idle" "va_mode sample_idle = DistributionModeStandalone"
  by (simp_all add: sample_idle_def NewApplication_def idle_def any_running_def plain_defs zero_status_def va_mode_def)

lemma sample_grpc: "\<exists>c. grpc_body sample_life sample_listen sample_idle = Ret c \<and> control_running c"
  by (simp add: grpc_body_def Let_def sample_listen_def StartControl_def NewControlServer_def IsRunning_def
      NewAuthServer_def initializePluginClients_def GetAllPluginNames_def plain_defs sample_idle_def NewApplication_def
      zero_settings_def mode_defs)

lemma sample_start: "\<exists>a1. StartStandaloneServer sample_life sample_listen sample_idle = Ret a1"
  using sample_idle(1) sample_grpc
  by (auto simp: StartStandaloneServer_def idle_def startGrpcServer_def grpc_enter_def any_running_def)

lemma StartStandaloneServer_inv:
  "life_inv a \<Longrightarrow> StartStandaloneServer E li a = Ret a1 \<Longrightarrow> life_inv a1"
  by (auto simp: StartStandaloneServer_def startGrpcServer_def grpc_enter_def startHTTPServer_def http_enter_def
      map_ret_eq Let_def intro!: http_spawn_inv startVoiceServer_inv dest: grpc_body_inv split: if_splits)

lemma voice_run_mode: "va_mode (voice_run c a) = va_mode a"
  by (simp add: voice_run_def plain_defs va_mode_def)

lemma reach_voice:
  "\<exists>a. life_reach sample_life a \<and> voice_running a \<and> va_mode a = DistributionModeStandalone"
proof -
  let ?E = sample_life and ?p = "Starter [VoiceEnter]"
  let ?a1 = "spawn ?p sample_idle"
  let ?b = "startVoiceServer ?E (ends ?p ?a1)"
  let ?a2 = "spawn (Starter []) ?b"
  let ?a3 = "voice_run 0 (ends (VoiceStarts 0) ?a2)"
  have "life_reach ?E ?a1"
    using life_reach.start [OF sample_idle(1)] sample_idle(1)
    by (intro life_reach.step [OF _ life_step.call_start]) (auto simp: idle_def start_programs_def)
  then have "life_reach ?E ?a2"
    by (rule life_reach.step [OF _ life_step.starter [where s = VoiceEnter and r = "[]"]]) (simp_all add: plain_defs)
  moreover have alive: "alive (VoiceStarts 0) ?a2"
    using sample_idle(1) by (simp add: idle_def any_running_def startVoiceServer_def plain_defs)
  ultimately have "life_reach ?E ?a3"
    by (blast intro: life_reach.step life_step.voice_runs)
  moreover have "voice_running ?a3" by (simp add: voice_run_def plain_defs)
  moreover have "va_mode (startVoiceServer ?E a) = va_mode a" for a by (simp add: startVoiceServer_def)
  then have "va_mode ?a3 = DistributionModeStandalone"
    using sample_idle(2) by (simp add: voice_run_mode)
  ultimately show ?thesis by blast
qed


text \<open>
  A stop that comes too early is lost. If \<open>StopServer\<close> is called after \<open>StartStandaloneServer\<close>
  returned but before its goroutines ran, it closes the control server only: the goroutines then
  bring the HTTP server and the voice server up, and both count as running, after the stop.
\<close>

theorem stop_before_goroutines:
  "idle a \<Longrightarrow> va_mode a = DistributionModeStandalone \<Longrightarrow> StartStandaloneServer E li a = Ret a1 \<Longrightarrow>
   StopServer E None None a1 = Ret a2 \<Longrightarrow>
   \<not> any_running a2 \<and> alive HttpStarts a2 \<and> (\<exists>c. alive (VoiceStarts c) a2 \<and>
     (let a3 = http_run (ends HttpStarts a2); a4 = voice_run c (ends (VoiceStarts c) a3) in
        alive (VoiceStarts c) a3 \<and> http_running a4 \<and> voice_running a4))"
proof -
  assume idle: "idle a" and mode: "va_mode a = DistributionModeStandalone"
    and start: "StartStandaloneServer E li a = Ret a1" and stop: "StopServer E None None a1 = Ret a2"
  have off: "\<not> control_running a" "\<not> http_running a" "\<not> voice_running a"
    using idle by (auto simp: idle_def any_running_def)
  obtain b where b: "grpc_body E li a = Ret b" "a1 = startHTTPServer E (startVoiceServer E b)"
    using start off by (auto simp: StartStandaloneServer_def startGrpcServer_def grpc_enter_def any_running_def map_ret_eq)
  note keep = grpc_body_keeps [OF b(1)]
  have inv: "life_inv b" "va_mode b = va_mode a" using grpc_body_inv [OF idle_inv [OF idle] b(1)] by auto
  have a1: "a1 = http_spawn (startVoiceServer E b)"
    using b(2) keep off by (simp add: startHTTPServer_def http_enter_def startVoiceServer_def plain_defs)
  have "life_inv a1" "va_mode a1 = DistributionModeStandalone"
    using inv mode by (simp_all add: a1 http_spawn_inv startVoiceServer_inv) (simp add: http_spawn_def startVoiceServer_def)
  with StopServer_stops [of a1 E] stop have "\<not> any_running a2" by auto
  moreover have "alive HttpStarts a1" "\<exists>c. alive (VoiceStarts c) a1"
    using keep off by (auto simp: a1 http_spawn_def startVoiceServer_def plain_defs)
  ultimately show ?thesis
    unfolding StopServer_threads [OF stop, symmetric]
    by (auto simp: http_run_def voice_run_def plain_defs Let_def)
qed

theorem stop_before_goroutines_witness:
  "\<exists>a1 a2. StartStandaloneServer sample_life sample_listen sample_idle = Ret a1 \<and>
     StopServer sample_life None None a1 = Ret a2 \<and> \<not> any_running a2 \<and> alive HttpStarts a2"
proof -
  obtain a1 where a1: "StartStandaloneServer sample_life sample_listen sample_idle = Ret a1"
    using sample_start by blast
  from this have "life_inv a1"
    by (rule StartStandaloneServer_inv [OF idle_inv [OF sample_idle(1)]])
  then obtain a2 where a2: "StopServer sample_life None None a1 = Ret a2" using StopServer_inv by blast
  from stop_before_goroutines [OF sample_idle a1 a2] a1 a2 show ?thesis by blast
qed

text \<open>
  C35: Two starts at once can lose a server. Two calls of a start may both find no server running;
  when the first then starts the control server and the second fails to listen on the same port,
  the application counts the control server as stopped and has forgotten the one that runs: no
  later \<open>StopServer\<close> does anything about it.
\<close>

theorem concurrent_starts_orphan:
  "idle a \<Longrightarrow> starter_step E li [GrpcCheck] a = Ret (p, b) \<Longrightarrow> starter_step E li' [GrpcCheck] b = Ret (p', b') \<Longrightarrow>
   starter_step E li p b' = Ret (q, c) \<Longrightarrow> control_running c \<Longrightarrow>
   \<not> li_client li' \<Longrightarrow>
   \<exists>q' d. starter_step E li' p' c = Ret (q', d) \<and> \<not> any_running d \<and>
     (\<exists>k < length (va_controls d). k_isRunning (va_controls d ! k) \<and> va_control d \<noteq> Some k) \<and>
     (\<forall>x y. StopServer E x y d = Ret d)"
proof -
  assume idle: "idle a" and p: "starter_step E li [GrpcCheck] a = Ret (p, b)"
    and p': "starter_step E li' [GrpcCheck] b = Ret (p', b')" and q: "starter_step E li p b' = Ret (q, c)"
    and run: "control_running c" and fails: "\<not> li_client li'"
  have off: "\<not> control_running a" "\<not> http_running a" "\<not> voice_running a" "va_controls a = []"
    using idle by (auto simp: idle_def any_running_def)
  have eqs: "p = [GrpcBody]" "b = a" "p' = [GrpcBody]" "b' = a"
    using p p' off by (auto simp: grpc_enter_def)
  with q have c: "grpc_body E li a = Ret c" by (auto simp: map_ret_eq)
  have srv: "length (va_controls c) = 1 \<and> k_isRunning (va_controls c ! 0) \<and> va_control c = Some 0"
    using c off run
    by (auto simp: grpc_body_def bind_outcome_eq_Ret Let_def plain_defs StartControl_def NewControlServer_def
        IsRunning_def split: if_splits prod.splits)
  have "\<exists>d. grpc_body E li' c = Ret d \<and> \<not> control_running d \<and> va_controls d = va_controls c @ [va_controls d ! 1] \<and>
      va_control d = Some 1"
    using fails srv
    by (simp add: grpc_body_def StartControl_def NewControlServer_def IsRunning_def Let_def plain_defs nth_append
        list_update_append)
  then obtain d where d: "grpc_body E li' c = Ret d" "\<not> control_running d"
    "va_controls d = va_controls c @ [va_controls d ! 1]" "va_control d = Some 1"
    by blast
  have "\<not> any_running d" using grpc_body_keeps [OF c] grpc_body_keeps [OF d(1)] off d(2) by (simp add: any_running_def)
  moreover have "k_isRunning (va_controls d ! 0)" using srv by (subst d(3)) (simp add: nth_append)
  ultimately show ?thesis
    using d srv by (intro exI [of _ "[]"] exI [of _ d]) (auto simp: eqs StopServer_def intro!: exI [of _ 0])
qed

theorem concurrent_starts_orphan_witness:
  "\<exists>c d. starter_step sample_life sample_listen [GrpcBody] sample_idle = Ret ([], c) \<and>
     starter_step sample_life (sample_listen\<lparr>li_client := False\<rparr>) [GrpcBody] c = Ret ([], d) \<and> \<not> any_running d \<and>
     (\<exists>k < length (va_controls d). k_isRunning (va_controls d ! k))"
proof -
  obtain c where c: "starter_step sample_life sample_listen [GrpcBody] sample_idle = Ret ([], c)" "control_running c"
    using sample_grpc by auto
  have check: "starter_step sample_life li [GrpcCheck] sample_idle = Ret ([GrpcBody], sample_idle)" for li
    using sample_idle(1) by (simp add: idle_def any_running_def grpc_enter_def)
  from concurrent_starts_orphan [OF sample_idle(1) check check c, of "sample_listen\<lparr>li_client := False\<rparr>"] c
  show ?thesis by (fastforce simp: map_ret_eq)
qed

text \<open>
  A stop while the voice server is between its creation and its bind leaves the socket open.
  The server is not running yet, so it is not closed; then it binds, and its receive loop ends at
  once because the stop channel is closed. The socket stays bound, no server counts as running, and
  no later \<open>StopServer\<close> closes it.
\<close>

theorem stop_before_bind:
  "idle a \<Longrightarrow> va_mode a = DistributionModeStandalone \<Longrightarrow>
   StopServer E None None (voice_run 0 (ends (VoiceStarts 0) (startVoiceServer E a))) = Ret b \<Longrightarrow>
   voice_listen 0 (ends (VoiceListens 0) b) = Ret c \<Longrightarrow>
   \<exists>i. v_running (va_voices c ! i) \<and> alive (VoiceLoop i 0) c \<and> va_chans c ! 0 \<and> \<not> any_running c \<and>
     (\<forall>x y. StopServer E x y c = Ret c)"
proof -
  assume idle: "idle a" and mode: "va_mode a = DistributionModeStandalone"
    and stop: "StopServer E None None (voice_run 0 (ends (VoiceStarts 0) (startVoiceServer E a))) = Ret b"
    and bind: "voice_listen 0 (ends (VoiceListens 0) b) = Ret c"
  have b: "va_voices b = [NewVoiceServer]" "va_voice b = Some 0" "va_chans b = [True]" "\<not> any_running b"
    using stop idle mode
    by (auto simp: idle_def any_running_def startVoiceServer_def voice_run_def plain_defs StopServer_def va_mode_def
        EmitEvent_def Notify_def upd_control_def publish_event_def stopVoiceServer_def stopHTTPServer_def
        stopControlServer_def close_signal_def StopVoice_def NewVoiceServer_def)
  then show ?thesis
    using bind
    by (intro exI [of _ 0]) (auto simp: voice_listen_def plain_defs voice_bind_def StopServer_def any_running_def)
qed

theorem stop_before_bind_witness:
  "\<exists>b c i. StopServer sample_life None None
       (voice_run 0 (ends (VoiceStarts 0) (startVoiceServer sample_life sample_idle))) = Ret b \<and>
     voice_listen 0 (ends (VoiceListens 0) b) = Ret c \<and> v_running (va_voices c ! i)"
proof -
  let ?a = "voice_run 0 (ends (VoiceStarts 0) (startVoiceServer sample_life sample_idle))"
  have "life_inv ?a"
    by (intro voice_run_inv ends_inv startVoiceServer_inv idle_inv sample_idle(1))
  then obtain b where b: "StopServer sample_life None None ?a = Ret b" "life_inv b" using StopServer_inv by blast
  have "va_threads b = [VoiceListens 0]"
    using StopServer_threads [OF b(1)] sample_idle(1)
    by (simp add: idle_def any_running_def startVoiceServer_def voice_run_def plain_defs)
  then obtain i where "va_voice b = Some i" using life_invD(4) [OF b(2), of 0] by auto
  then obtain c where c: "voice_listen 0 (ends (VoiceListens 0) b) = Ret c" by (simp add: voice_listen_def ends_def)
  from stop_before_bind [OF sample_idle b(1) c] b(1) c show ?thesis by blast
qed

text \<open>
  C37: When closing the voice socket fails, the stop reports it and leaves the server marked as
  running, with its stop channel closed: the next stop of the voice server panics.
\<close>

theorem stop_after_failed_close:
  "voice_running a \<Longrightarrow> va_voice a = Some i \<Longrightarrow> i < length (va_voices a) \<Longrightarrow> v_running (va_voices a ! i) \<Longrightarrow>
   v_conn (va_voices a ! i) \<Longrightarrow> stopVoiceServer E (Some e) a = Ret b \<Longrightarrow>
   voice_running b \<and> ss_Error (VoiceStatus (va_admin b)) = e \<and> stopVoiceServer E err b = Panics"
proof -
  assume run: "voice_running a" and i: "va_voice a = Some i" "i < length (va_voices a)"
    and v: "v_running (va_voices a ! i)" "v_conn (va_voices a ! i)" and stop: "stopVoiceServer E (Some e) a = Ret b"
  obtain a1 where a1: "close_signal ''voice'' a = Ret a1"
    using run stop by (cases "close_signal ''voice'' a") (auto simp: stopVoiceServer_def)
  then obtain ch sg where f: "a1 = a\<lparr>va_chans := ch, va_signals := sg\<rparr>" using close_signal_fields by blast
  have sg: "sg ''voice'' = None" using a1 by (auto simp: f close_signal_def split: option.splits if_splits dest!: arg_cong [where f = va_signals])
  have "\<not> v_stopClosed (va_voices a ! i)" using run stop i v by (auto simp: stopVoiceServer_def a1 f StopVoice_def)
  then have b: "b = notify E ''Voice server error'' ''Could stop start Voice server'' ''error''
      (voice_status (\<lambda>s. s\<lparr>ss_Error := e\<rparr>) (a1\<lparr>va_voices := (va_voices a)[i := (va_voices a ! i)\<lparr>v_stopClosed := True\<rparr>]\<rparr>))"
    using run stop i v by (simp add: stopVoiceServer_def a1 f StopVoice_def Let_def)
  have run_b: "voice_running b" "ss_Error (VoiceStatus (va_admin b)) = e"
    using run by (simp_all add: b f plain_defs)
  moreover have "close_signal ''voice'' b = Ret b" using sg by (simp add: b f plain_defs close_signal_def)
  moreover have "va_voice b = Some i" "v_running (va_voices b ! i) \<and> v_stopClosed (va_voices b ! i)"
    using i v by (simp_all add: b f plain_defs)
  ultimately show ?thesis by (simp add: stopVoiceServer_def StopVoice_def)
qed

theorem stop_after_failed_close_witness:
  "\<exists>a b. stopVoiceServer sample_life (Some ''close'') a = Ret b \<and> stopVoiceServer sample_life None b = Panics"
proof -
  let ?a = "voice_status (set_status True []) (sample_idle\<lparr>va_voices := [voice_bind NewVoiceServer], va_voice := Some 0\<rparr>)"
  have f: "voice_running ?a" "va_voice ?a = Some 0" "0 < length (va_voices ?a)" "v_running (va_voices ?a ! 0)"
    "v_conn (va_voices ?a ! 0)" "va_signals ?a = Map.empty"
    using sample_idle(1) by (simp_all add: plain_defs voice_bind_def idle_def)
  obtain b where "stopVoiceServer sample_life (Some ''close'') ?a = Ret b"
    using f by (simp add: stopVoiceServer_def close_signal_def StopVoice_def)
      (simp add: plain_defs voice_bind_def NewVoiceServer_def)
  with stop_after_failed_close [OF f(1-5) this] show ?thesis by blast
qed

end
