(* ===== verification/Flags.thy ===== *)
theory Flags
  imports Prelude
begin

text \<open>
  The command line, \<^verbatim>\<open>shared.go\<close>: the flags the program defines, the loop of Go's \<^verbatim>\<open>flag\<close> package
  that reads the arguments, and the log file that is opened afterwards. Directories and the log file
  are a parameter; what is logged is left out.
\<close>

subsection \<open>Flags\<close>

record program_flags =
  pf_configFilepath :: string
  pf_bannedFilePath :: string
  pf_distributionMode :: string
  pf_autoStartServers :: bool
  pf_logFolder :: string
  pf_fileLogEnabled :: bool

text \<open>Without the flag \<^verbatim>\<open>mode\<close> its variable keeps the zero value.\<close>

definition flag_defaults :: "bool \<Rightarrow> program_flags" where
  "flag_defaults isHeadless = \<lparr>pf_configFilepath = ''config.yaml'', pf_bannedFilePath = ''banned_clients.json'',
     pf_distributionMode = (if isHeadless then ''standalone'' else []), pf_autoStartServers = False,
     pf_logFolder = ''log'', pf_fileLogEnabled = True\<rparr>"

datatype flag_kind = StringFlag | BoolFlag

definition formal :: "bool \<Rightarrow> string \<Rightarrow> flag_kind option" where
  "formal isHeadless name =
     (if name \<in> {''config'', ''banned'', ''log-folder''} then Some StringFlag
      else if name \<in> {''autostart'', ''file-log''} then Some BoolFlag
      else if isHeadless \<and> name = ''mode'' then Some StringFlag
      else None)"

definition ParseBool :: "string \<Rightarrow> bool option" where
  "ParseBool s =
     (if s \<in> {''1'', ''t'', ''T'', ''true'', ''TRUE'', ''True''} then Some True
      else if s \<in> {''0'', ''f'', ''F'', ''false'', ''FALSE'', ''False''} then Some False
      else None)"

definition set_string :: "string \<Rightarrow> string \<Rightarrow> program_flags \<Rightarrow> program_flags" where
  "set_string name v p =
     (if name = ''config'' then p\<lparr>pf_configFilepath := v\<rparr>
      else if name = ''banned'' then p\<lparr>pf_bannedFilePath := v\<rparr>
      else if name = ''log-folder'' then p\<lparr>pf_logFolder := v\<rparr>
      else if name = ''mode'' then p\<lparr>pf_distributionMode := v\<rparr>
      else p)"

definition set_bool :: "string \<Rightarrow> bool \<Rightarrow> program_flags \<Rightarrow> program_flags" where
  "set_bool name b p =
     (if name = ''autostart'' then p\<lparr>pf_autoStartServers := b\<rparr>
      else if name = ''file-log'' then p\<lparr>pf_fileLogEnabled := b\<rparr>
      else p)"

subsection \<open>Reading the arguments\<close>

datatype flag_error = FlagHelp | FlagMisuse

text \<open>
  One argument, without its dashes: the name, and the value behind the first equals sign. A boolean
  flag takes no other value; a string flag without one takes the next argument.
\<close>

definition split_flag :: "string \<Rightarrow> string \<times> string option" where
  "split_flag s =
     (takeWhile (\<lambda>c. c \<noteq> CHR ''='') s,
      case dropWhile (\<lambda>c. c \<noteq> CHR ''='') s of [] \<Rightarrow> None | _ # v \<Rightarrow> Some v)"

definition take_flag ::
    "bool \<Rightarrow> string \<Rightarrow> string list \<Rightarrow> program_flags \<Rightarrow> flag_error + string list \<times> program_flags" where
  "take_flag isHeadless s args p =
     (if s = [] \<or> hd s = CHR ''-'' \<or> hd s = CHR ''='' then Inl FlagMisuse
      else let (name, val) = split_flag s
           in case formal isHeadless name of
                None \<Rightarrow> Inl (if name = ''help'' \<or> name = ''h'' then FlagHelp else FlagMisuse)
              | Some BoolFlag \<Rightarrow>
                  (case ParseBool (case val of None \<Rightarrow> ''true'' | Some v \<Rightarrow> v) of
                     None \<Rightarrow> Inl FlagMisuse
                   | Some b \<Rightarrow> Inr (args, set_bool name b p))
              | Some StringFlag \<Rightarrow>
                  (case val of
                     Some v \<Rightarrow> Inr (args, set_string name v p)
                   | None \<Rightarrow> (case args of [] \<Rightarrow> Inl FlagMisuse
                             | v # args' \<Rightarrow> Inr (args', set_string name v p))))"

text \<open>
  One round of the loop: \<open>Inr None\<close> at the first argument that is no flag, which a lone dash is not
  and two dashes are not either.
\<close>

definition parse_one ::
    "bool \<Rightarrow> string list \<Rightarrow> program_flags \<Rightarrow> flag_error + (string list \<times> program_flags) option" where
  "parse_one isHeadless args p =
     (case args of
        [] \<Rightarrow> Inr None
      | s # rest \<Rightarrow>
          if length s < 2 \<or> hd s \<noteq> CHR ''-'' \<or> s = ''--'' then Inr None
          else map_sum id Some
                 (take_flag isHeadless (if s ! 1 = CHR ''-'' then drop 2 s else drop 1 s) rest p))"

lemma take_flag_shorter: "take_flag h s args p = Inr (args', p') \<Longrightarrow> length args' \<le> length args"
  by (auto simp: take_flag_def Let_def split: if_splits prod.splits option.splits flag_kind.splits list.splits)

lemma parse_one_shorter: "parse_one h args p = Inr (Some (args', p')) \<Longrightarrow> length args' < length args"
proof (induction args)
  case (Cons s rest)
  then obtain t where "take_flag h t rest p = Inr (args', p')"
    by (auto simp: parse_one_def map_sum_def split: if_splits sum.splits)
  from take_flag_shorter [OF this] show ?case by simp
qed (simp add: parse_one_def)

function Parse :: "bool \<Rightarrow> string list \<Rightarrow> program_flags \<Rightarrow> flag_error + program_flags" where
  "Parse isHeadless args p =
     (case parse_one isHeadless args p of
        Inl err \<Rightarrow> Inl err
      | Inr None \<Rightarrow> Inr p
      | Inr (Some (args', p')) \<Rightarrow> Parse isHeadless args' p')"
  by pat_completeness auto

termination
  by (relation "measure (\<lambda>(h, args, p). length args)") (auto dest: parse_one_shorter)

declare Parse.simps [simp del]

subsection \<open>The log file\<close>

text \<open>Whether a folder is missing, can be made, and whether the log file in it can be opened.\<close>

record log_env =
  lo_missing :: "string \<Rightarrow> bool"
  lo_mkdir :: "string \<Rightarrow> bool"
  lo_open :: "string \<Rightarrow> bool"

definition open_log :: "log_env \<Rightarrow> program_flags \<Rightarrow> bool" where
  "open_log L p \<longleftrightarrow>
     (if pf_fileLogEnabled p
      then (\<not> lo_missing L (pf_logFolder p) \<or> lo_mkdir L (pf_logFolder p)) \<and> lo_open L (pf_logFolder p)
      else True)"

text \<open>\<open>Inl\<close> is the exit code: 0 after the help text, 2 after a misuse, 1 without a log file.\<close>

definition parseFlags :: "bool \<Rightarrow> log_env \<Rightarrow> string list \<Rightarrow> nat + program_flags" where
  "parseFlags isHeadless L args =
     (case Parse isHeadless args (flag_defaults isHeadless) of
        Inl FlagHelp \<Rightarrow> Inl 0
      | Inl FlagMisuse \<Rightarrow> Inl 2
      | Inr p \<Rightarrow> if open_log L p then Inr p else Inl 1)"

subsection \<open>Command lines that set flags\<close>

text \<open>
  What a user may write: a flag and its value, with one dash or two, the value behind an equals sign
  or as an argument of its own. A boolean may be left at its name when it is true.
\<close>

datatype flag_setting =
    SetConfig string | SetBanned string | SetLogFolder string | SetMode string
  | SetAutostart bool | SetFileLog bool

record spelling =
  two_dashes :: bool
  with_equals :: bool

fun flag_name :: "flag_setting \<Rightarrow> string" where
  "flag_name (SetConfig _) = ''config''"
| "flag_name (SetBanned _) = ''banned''"
| "flag_name (SetLogFolder _) = ''log-folder''"
| "flag_name (SetMode _) = ''mode''"
| "flag_name (SetAutostart _) = ''autostart''"
| "flag_name (SetFileLog _) = ''file-log''"

fun flag_value :: "flag_setting \<Rightarrow> string + bool" where
  "flag_value (SetConfig v) = Inl v"
| "flag_value (SetBanned v) = Inl v"
| "flag_value (SetLogFolder v) = Inl v"
| "flag_value (SetMode v) = Inl v"
| "flag_value (SetAutostart b) = Inr b"
| "flag_value (SetFileLog b) = Inr b"

definition write_flag :: "spelling \<times> flag_setting \<Rightarrow> string list" where
  "write_flag sx =
     (let (sp, x) = sx;
          flag = (if two_dashes sp then ''--'' else ''-'') @ flag_name x
      in case flag_value x of
           Inl v \<Rightarrow> if with_equals sp then [flag @ ''='' @ v] else [flag, v]
         | Inr b \<Rightarrow> if b \<and> \<not> with_equals sp then [flag]
                    else [flag @ ''='' @ (if b then ''true'' else ''false'')])"

fun apply_setting :: "flag_setting \<Rightarrow> program_flags \<Rightarrow> program_flags" where
  "apply_setting (SetConfig v) p = p\<lparr>pf_configFilepath := v\<rparr>"
| "apply_setting (SetBanned v) p = p\<lparr>pf_bannedFilePath := v\<rparr>"
| "apply_setting (SetLogFolder v) p = p\<lparr>pf_logFolder := v\<rparr>"
| "apply_setting (SetMode v) p = p\<lparr>pf_distributionMode := v\<rparr>"
| "apply_setting (SetAutostart b) p = p\<lparr>pf_autoStartServers := b\<rparr>"
| "apply_setting (SetFileLog b) p = p\<lparr>pf_fileLogEnabled := b\<rparr>"

definition known_flag :: "bool \<Rightarrow> flag_setting \<Rightarrow> bool" where
  "known_flag isHeadless x \<longleftrightarrow> isHeadless \<or> (\<forall>v. x \<noteq> SetMode v)"

lemma split_flag_eq: "CHR ''='' \<notin> set nm \<Longrightarrow> split_flag (nm @ CHR ''='' # v) = (nm, Some v)"
  by (auto simp: split_flag_def takeWhile_append dropWhile_append)

lemma split_flag_plain: "CHR ''='' \<notin> set nm \<Longrightarrow> split_flag nm = (nm, None)"
proof -
  assume "CHR ''='' \<notin> set nm"
  then have "takeWhile (\<lambda>c. c \<noteq> CHR ''='') nm = nm" "dropWhile (\<lambda>c. c \<noteq> CHR ''='') nm = []"
    by (auto simp: takeWhile_eq_all_conv dropWhile_eq_Nil_conv)
  then show ?thesis by (simp only: split_flag_def list.case)
qed

lemma flag_name_chars: "CHR ''='' \<notin> set (flag_name x)" "flag_name x \<noteq> []" "hd (flag_name x) \<noteq> CHR ''-''"
    "hd (flag_name x) \<noteq> CHR ''=''"
  by (cases x; simp)+

lemma take_string:
  assumes "formal h (flag_name x) = Some StringFlag"
  shows "take_flag h (flag_name x @ CHR ''='' # v) args p = Inr (args, set_string (flag_name x) v p)"
    and "take_flag h (flag_name x) (v # args) p = Inr (args, set_string (flag_name x) v p)"
  using assms flag_name_chars [of x] by (simp_all add: take_flag_def split_flag_eq split_flag_plain)

lemma take_bool:
  assumes "formal h (flag_name x) = Some BoolFlag"
  shows "ParseBool v = Some b \<Longrightarrow>
      take_flag h (flag_name x @ CHR ''='' # v) args p = Inr (args, set_bool (flag_name x) b p)"
    and "take_flag h (flag_name x) args p = Inr (args, set_bool (flag_name x) True p)"
  using assms flag_name_chars [of x]
  by (simp_all add: take_flag_def split_flag_eq split_flag_plain ParseBool_def [of "''true''"])

lemma parse_one_dashed:
  "parse_one h (((if two then ''--'' else ''-'') @ flag_name x @ s) # rest) p =
     map_sum id Some (take_flag h (flag_name x @ s) rest p)"
  using flag_name_chars [of x] by (cases "flag_name x") (simp_all add: parse_one_def)

lemma setting_cases:
  "known_flag h x \<Longrightarrow> flag_value x = Inl v \<Longrightarrow>
     formal h (flag_name x) = Some StringFlag \<and> set_string (flag_name x) v p = apply_setting x p"
  "known_flag h x \<Longrightarrow> flag_value x = Inr b \<Longrightarrow>
     formal h (flag_name x) = Some BoolFlag \<and> set_bool (flag_name x) b p = apply_setting x p"
  by (auto simp: formal_def set_string_def set_bool_def known_flag_def elim!: flag_value.elims)

lemma Parse_flag:
  assumes "known_flag h x"
  shows "Parse h (write_flag (sp, x) @ rest) p = Parse h rest (apply_setting x p)"
proof -
  note one = parse_one_dashed [of _ _ x] parse_one_dashed [of _ _ x "[]", simplified]
  have "parse_one h (write_flag (sp, x) @ rest) p = Inr (Some (rest, apply_setting x p))"
  proof (cases "flag_value x")
    case (Inl v)
    then show ?thesis
      using setting_cases(1) [OF assms Inl, of p] by (simp add: write_flag_def Let_def one take_string)
  next
    case (Inr b)
    then show ?thesis
      using setting_cases(2) [OF assms Inr, of p]
      by (cases b) (simp_all add: write_flag_def Let_def one take_bool ParseBool_def)
  qed
  then show ?thesis by (subst Parse.simps) simp
qed

lemma Parse_flags:
  "\<forall>sx\<in>set ss. known_flag h (snd sx) \<Longrightarrow>
   Parse h (concat (map write_flag ss) @ rest) p = Parse h rest (fold apply_setting (map snd ss) p)"
  by (induction ss arbitrary: p) (auto simp: Parse_flag)

lemma Parse_end [simp]: "Parse h [] p = Inr p"
  by (subst Parse.simps) (simp add: parse_one_def)

lemma Parse_operand: "length s < 2 \<or> hd s \<noteq> CHR ''-'' \<or> s = ''--'' \<Longrightarrow> Parse h (s # rest) p = Inr p"
  by (subst Parse.simps) (auto simp: parse_one_def)

text \<open>The flag \<^verbatim>\<open>autostart\<close> stands alone: nothing else a command line sets depends on it.\<close>

definition but_autostart :: "program_flags \<Rightarrow> program_flags" where
  "but_autostart p = p\<lparr>pf_autoStartServers := False\<rparr>"

lemma but_autostart_eq:
  "but_autostart p = but_autostart q \<longleftrightarrow>
     pf_configFilepath p = pf_configFilepath q \<and> pf_bannedFilePath p = pf_bannedFilePath q \<and>
     pf_distributionMode p = pf_distributionMode q \<and> pf_logFolder p = pf_logFolder q \<and> pf_fileLogEnabled p = pf_fileLogEnabled q"
  by (cases p; cases q) (auto simp: but_autostart_def)

lemma take_flag_but:
  "but_autostart p = but_autostart q \<Longrightarrow>
   map_sum id (map_prod id but_autostart) (take_flag h s args p) =
   map_sum id (map_prod id but_autostart) (take_flag h s args q)"
  by (auto simp: take_flag_def but_autostart_eq set_string_def set_bool_def
      split: prod.split option.split flag_kind.split list.split)

lemma map_sum_Some:
  "map_sum id f X = map_sum id f Y \<Longrightarrow>
   map_sum id (map_option f) (map_sum id Some X) = map_sum id (map_option f) (map_sum id Some Y)"
  by (cases X; cases Y) auto

lemma Parse_but:
  "but_autostart p = but_autostart q \<Longrightarrow>
   map_sum id but_autostart (Parse h args p) = map_sum id but_autostart (Parse h args q)"
proof (induction args arbitrary: p q rule: length_induct)
  case (1 args)
  have one: "map_sum id (map_option (map_prod id but_autostart)) (parse_one h args p) =
      map_sum id (map_option (map_prod id but_autostart)) (parse_one h args q)"
    by (auto simp: parse_one_def intro!: map_sum_Some take_flag_but "1.prems" split: list.split)
  show ?case
  proof (cases "parse_one h args p")
    case (Inl e)
    with one have "parse_one h args q = Inl e" by (cases "parse_one h args q") auto
    with Inl show ?thesis by (simp add: Parse.simps [of h args])
  next
    case (Inr o1)
    with one obtain o2 where q: "parse_one h args q = Inr o2"
      and o: "map_option (map_prod id but_autostart) o1 = map_option (map_prod id but_autostart) o2"
      by (cases "parse_one h args q") auto
    show ?thesis
    proof (cases o1)
      case None
      with o "1.prems" Inr q show ?thesis by (simp add: Parse.simps [of h args])
    next
      case (Some r1)
      then obtain a1 p1 where r1: "o1 = Some (a1, p1)" by (cases r1) auto
      with o obtain p2 where r2: "o2 = Some (a1, p2)" "but_autostart p1 = but_autostart p2"
        by (cases o2) auto
      from parse_one_shorter Inr r1 have "length a1 < length args" by simp
      with "1.IH" r2(2) have "map_sum id but_autostart (Parse h a1 p1) = map_sum id but_autostart (Parse h a1 p2)"
        by blast
      with Inr q r1 r2(1) show ?thesis by (simp add: Parse.simps [of h args] id_def)
    qed
  qed
qed

lemma open_log_but: "but_autostart p = but_autostart q \<Longrightarrow> open_log L p = open_log L q"
  by (simp add: but_autostart_eq open_log_def)

lemma parseFlags_autostart:
  "map_sum id but_autostart (parseFlags h L (write_flag (sp, SetAutostart b) @ args)) =
   map_sum id but_autostart (parseFlags h L args)"
proof -
  have "but_autostart (apply_setting (SetAutostart b) (flag_defaults h)) = but_autostart (flag_defaults h)"
    by (simp add: but_autostart_def)
  from Parse_but [OF this, of h args] show ?thesis
    by (auto simp: parseFlags_def Parse_flag known_flag_def map_sum_def
        split: sum.splits flag_error.splits dest: open_log_but)
qed

end
