(* ===== verification/Entry.thy ===== *)
theory Entry
  imports AppControl Flags
begin

text \<open>
  The entry points around the application: \<^verbatim>\<open>main.go\<close> and \<^verbatim>\<open>headless.go\<close> from the command line to
  the running servers, and the Wails services of \<^verbatim>\<open>services/\<close> that read the state or forward a call. The services that
  change settings, and the one that calls itself, are in \<^verbatim>\<open>AppAdmin\<close>.
\<close>

subsection \<open>The two programs\<close>

definition headless_mode :: "string \<Rightarrow> u8 option" where
  "headless_mode flag =
     (if flag = ''standalone'' then Some DistributionModeStandalone
      else if flag = ''control'' then Some DistributionModeControl
      else if flag = ''voice'' then Some DistributionModeVoice
      else None)"

text \<open>
  The program after the flags are parsed: it ends on an unknown mode, exits with a failure when the
  start panics, and otherwise blocks with the servers running.
\<close>

datatype program_end = FlagsExit nat | ModeRefused | ExitFailure | RunsOn vcs_app | Stuck

definition headless_main ::
    "life_env \<Rightarrow> listen_env \<Rightarrow> string \<Rightarrow> string \<Rightarrow> string \<Rightarrow> file_system \<Rightarrow> key_store \<Rightarrow> program_end" where
  "headless_main E li configFilepath bannedFilePath distributionModeFlag fs ks =
     (case headless_mode distributionModeFlag of
        None \<Rightarrow> ModeRefused
      | Some mode \<Rightarrow>
          (case HeadlessStartup E li configFilepath bannedFilePath mode (NewApplication fs ks) of
             Ret a \<Rightarrow> RunsOn a
           | Panics \<Rightarrow> ExitFailure
           | Blocks \<Rightarrow> Stuck))"

definition headless_program ::
    "life_env \<Rightarrow> listen_env \<Rightarrow> log_env \<Rightarrow> string list \<Rightarrow> file_system \<Rightarrow> key_store \<Rightarrow> program_end" where
  "headless_program E li L args fs ks =
     (case parseFlags True L args of
        Inl code \<Rightarrow> FlagsExit code
      | Inr p \<Rightarrow> headless_main E li (pf_configFilepath p) (pf_bannedFilePath p) (pf_distributionMode p) fs ks)"

text \<open>With the GUI the window is opened on the application that \<open>StartUp\<close> leaves.\<close>

definition gui_program ::
    "life_env \<Rightarrow> listen_env \<Rightarrow> log_env \<Rightarrow> string list \<Rightarrow> file_system \<Rightarrow> key_store \<Rightarrow> program_end" where
  "gui_program E li L args fs ks =
     (case parseFlags False L args of
        Inl code \<Rightarrow> FlagsExit code
      | Inr p \<Rightarrow>
          (case StartUp E li (pf_configFilepath p) (pf_bannedFilePath p) (pf_autoStartServers p) (NewApplication fs ks) of
             Ret a \<Rightarrow> RunsOn a
           | Panics \<Rightarrow> ExitFailure
           | Blocks \<Rightarrow> Stuck))"

subsection \<open>Services\<close>

definition NotificationService_Notify :: "notification \<Rightarrow> app_state \<Rightarrow> app_state" where
  "NotificationService_Notify n a = EmitEvent (NewEvent NotificationEvent (NotificationData n)) a"

definition GetCoalitions :: "app_state \<Rightarrow> coalition list" where
  "GetCoalitions a = Coalitions (app_settings a)"

definition GetSettings :: "app_state \<Rightarrow> settings_state" where
  "GetSettings a = app_settings a"

definition ClientService_UnbanClient :: "admin_env \<Rightarrow> string \<Rightarrow> app_state \<Rightarrow> app_state" where
  "ClientService_UnbanClient V clientId a = UnbanClient V clientId a"

definition ClientService_MuteClient :: "admin_env \<Rightarrow> string \<Rightarrow> app_state \<Rightarrow> app_state" where
  "ClientService_MuteClient V clientId a = MuteClient V clientId a"

definition ClientService_UnmuteClient :: "admin_env \<Rightarrow> string \<Rightarrow> app_state \<Rightarrow> app_state" where
  "ClientService_UnmuteClient V clientId a = UnmuteClient V clientId a"

definition ClientService_IsClientMuted :: "admin_env \<Rightarrow> string \<Rightarrow> app_state \<Rightarrow> bool \<times> app_state" where
  "ClientService_IsClientMuted V clientId a = IsClientMuted V clientId a"

definition ControlService_StartServer :: "life_env \<Rightarrow> listen_env \<Rightarrow> vcs_app \<Rightarrow> vcs_app outcome" where
  "ControlService_StartServer E li a = StartStandaloneServer E li a"

definition ControlService_StopServer ::
    "life_env \<Rightarrow> string option \<Rightarrow> string option \<Rightarrow> vcs_app \<Rightarrow> vcs_app outcome" where
  "ControlService_StopServer E http_err voice_err a = StopServer E http_err voice_err a"

definition ControlService_GetServerStatus :: "vcs_app \<Rightarrow> admin_state" where
  "ControlService_GetServerStatus a = GetServerStatus a"

subsection \<open>Lemmas\<close>

lemma find_append: "find P (xs @ ys) = (case find P xs of None \<Rightarrow> find P ys | Some x \<Rightarrow> Some x)"
  by (induction xs) auto

lemma coalition_settings:
  "app_settings (AddCoalition V c a) = add_coalition c (app_settings a)"
  "app_settings (UpdateCoalition V c a) = update_coalition c (app_settings a)"
  using saved.op_settings [of "SvcAddCoalition c" V a] saved.op_settings [of "SvcUpdateCoalition c" V a] by simp_all

lemma update_coalition_row:
  "coal.row nm (update_coalition c s) =
     (if nm = co_Name c then map_option (\<lambda>_. c) (coal.row nm s) else coal.row nm s)"
proof (cases "DoesCoalitionExist (co_Name c) s")
  case True
  let ?s = "update_coalition c s"
  have "(if DoesCoalitionExist (co_Name c) s then Some (update_coalition (c\<lparr>co_Name := co_Name c\<rparr>) s) else None) = Some ?s"
    using True by simp
  from coal.row_modified [OF this] coal.row_other [OF this] show ?thesis
    by (auto simp: option.map_comp comp_def intro!: option.map_cong)
next
  case False
  then have "update_first (\<lambda>d. co_Name d = co_Name c) (\<lambda>_. c) (Coalitions s) = None" "coal.row (co_Name c) s = None"
    by (auto simp: update_first_None DoesCoalitionExist_def find_None_iff list_ex_iff coal.row_def)
  then show ?thesis by (simp add: update_coalition_def)
qed

lemma length_update_first: "update_first P h xs = Some ys \<Longrightarrow> length ys = length xs"
  by (induction xs arbitrary: ys) (auto split: if_splits)

lemma length_update_coalition: "length (Coalitions (update_coalition c s)) = length (Coalitions s)"
  by (auto simp: update_coalition_def length_update_first split: option.split)

subsection \<open>Properties\<close>

text \<open>
  Looking up coalitions after a change. The first coalition of a name counts: adding one under a
  name in use leaves the old one in force, with its password; updating replaces exactly the one of
  the name and adds none; other names are looked up as before.
\<close>

theorem coalition_lookup:
  "GetCoalitionByName nm (app_settings (AddCoalition V c a)) =
     (case GetCoalitionByName nm (app_settings a) of Some old \<Rightarrow> Some old | None \<Rightarrow> if nm = co_Name c then Some c else None) \<and>
   GetCoalitionByName nm (app_settings (UpdateCoalition V c a)) =
     (case GetCoalitionByName nm (app_settings a) of Some old \<Rightarrow> Some (if nm = co_Name c then c else old) | None \<Rightarrow> None) \<and>
   length (GetCoalitions (UpdateCoalition V c a)) = length (GetCoalitions a)"
proof -
  have "coal.row nm (add_coalition c s) = (case coal.row nm s of Some old \<Rightarrow> Some old
      | None \<Rightarrow> if nm = co_Name c then Some c else None)" for s
    by (auto simp: coal.row_def add_coalition_def find_append split: option.split)
  then show ?thesis
    by (auto simp: GetCoalitionByName_row coalition_settings update_coalition_row GetCoalitions_def
        length_update_coalition split: option.split)
qed



text \<open>
  The flag \<^verbatim>\<open>autostart\<close> has no effect on the headless program: with any value of it, and any other
  arguments, the program ends or runs in the same state. In the standalone mode it has started its
  servers even with \<^verbatim>\<open>--autostart=false\<close>.
\<close>

theorem headless_ignores_autostart:
  "headless_program E li L (write_flag (sp, SetAutostart b) @ args) fs ks = headless_program E li L args fs ks"
proof -
  have "map_sum id but_autostart (parseFlags True L (write_flag (sp, SetAutostart b) @ args)) =
      map_sum id but_autostart (parseFlags True L args)" by (rule parseFlags_autostart)
  then show ?thesis
    by (auto simp: headless_program_def but_autostart_eq map_sum_def split: sum.splits)
qed

end
