(* ===== verification/VoiceControl.thy ===== *)
theory VoiceControl
  imports ControlServer BanFile
begin

text \<open>
  The link between a voice node and its control node, \<^verbatim>\<open>voiceontrol/client.go\<close> and
  \<^verbatim>\<open>voiceontrol/utils.go\<close>: the self-signed certificate the two share through files, the
  registration, the control stream with its receiving goroutine, and reconnection. TLS, X.509 and
  PEM are a parameter, the answers of the control node are arguments.
\<close>

subsection \<open>Key and certificate\<close>

record tls_certificate =
  tc_Certificate :: string
  tc_PrivateKey :: private_key

text \<open>
  The functions of \<^verbatim>\<open>crypto\<close>: a new certificate for a key (DER), the PKCS1 form of a key, PEM
  blocks, and the loading of a pair from its two PEM texts.
\<close>

record rsa_lib =
  x509_create :: "private_key \<Rightarrow> string option"
  x509_marshal_key :: "private_key \<Rightarrow> string"
  x509_parse_key :: "string \<Rightarrow> private_key option"
  x509_parse_cert :: "string \<Rightarrow> string option"
  rsa_pem_encode :: "string \<Rightarrow> string \<Rightarrow> string"
  rsa_pem_decode :: "string \<Rightarrow> string option"
  tls_pair :: "string \<Rightarrow> string \<Rightarrow> tls_certificate option"

definition rsa_lib_ok :: "rsa_lib \<Rightarrow> bool" where
  "rsa_lib_ok R \<longleftrightarrow>
     (\<forall>t b. rsa_pem_decode R (rsa_pem_encode R t b) = Some b) \<and>
     (\<forall>k. x509_parse_key R (x509_marshal_key R k) = Some k) \<and>
     (\<forall>k der. x509_create R k = Some der \<longrightarrow>
        x509_parse_cert R der = Some der \<and>
        tls_pair R (rsa_pem_encode R ''CERTIFICATE'' der) (rsa_pem_encode R ''RSA PRIVATE KEY'' (x509_marshal_key R k)) =
          Some \<lparr>tc_Certificate = der, tc_PrivateKey = k\<rparr>)"

datatype cert_error = CertOS os_error | CertRandom | CertCreate | CertPair | CertPem | CertParse

definition certFileName :: string where "certFileName = ''voicecontrol-cert.pem''"
definition privateKeyFileName :: string where "privateKeyFileName = ''voicecontrol-private-key.pem''"

text \<open>\<open>fresh\<close>: the key the random source gives, if it does.\<close>

definition generateSelfSignedCert ::
    "rsa_lib \<Rightarrow> private_key option \<Rightarrow> cert_error + (tls_certificate \<times> private_key)" where
  "generateSelfSignedCert R fresh =
     (case fresh of
        None \<Rightarrow> Inl CertRandom
      | Some privateKey \<Rightarrow>
          (case x509_create R privateKey of
             None \<Rightarrow> Inl CertCreate
           | Some der \<Rightarrow> Inr (\<lparr>tc_Certificate = der, tc_PrivateKey = privateKey\<rparr>, privateKey)))"

definition encode_pair :: "rsa_lib \<Rightarrow> tls_certificate \<Rightarrow> private_key \<Rightarrow> string \<times> string" where
  "encode_pair R cert privateKey =
     (rsa_pem_encode R ''RSA PRIVATE KEY'' (x509_marshal_key R privateKey),
      rsa_pem_encode R ''CERTIFICATE'' (tc_Certificate cert))"

text \<open>\<open>tls.LoadX509KeyPair\<close> reads the two files itself.\<close>

definition LoadX509KeyPair :: "rsa_lib \<Rightarrow> file_system \<Rightarrow> cert_error + tls_certificate" where
  "LoadX509KeyPair R fs =
     (case os_ReadFile certFileName fs of
        Inl e \<Rightarrow> Inl (CertOS e)
      | Inr c \<Rightarrow>
          (case os_ReadFile privateKeyFileName fs of
             Inl e \<Rightarrow> Inl (CertOS e)
           | Inr k \<Rightarrow> (case tls_pair R c k of None \<Rightarrow> Inl CertPair | Some cert \<Rightarrow> Inr cert)))"

definition LoadOrGenerateKeyPair ::
    "rsa_lib \<Rightarrow> private_key option \<Rightarrow> file_system \<Rightarrow>
     (cert_error + (tls_certificate \<times> private_key)) \<times> file_system" where
  "LoadOrGenerateKeyPair R fresh fs =
     (if os_Stat privateKeyFileName fs = Some ErrNotExist then
        (case generateSelfSignedCert R fresh of
           Inl e \<Rightarrow> (Inl e, fs)
         | Inr (cert, privateKey) \<Rightarrow>
             let (encodedKey, encodedCert) = encode_pair R cert privateKey in
             (case os_WriteFile certFileName encodedCert fs of
                Inl e \<Rightarrow> (Inl (CertOS e), fs)
              | Inr fs1 \<Rightarrow>
                  (case os_WriteFile privateKeyFileName encodedKey fs1 of
                     Inl e \<Rightarrow> (Inl (CertOS e), fs1)
                   | Inr fs2 \<Rightarrow> (Inr (cert, privateKey), fs2))))
      else
        (case LoadX509KeyPair R fs of
           Inl e \<Rightarrow> (Inl e, fs)
         | Inr cert \<Rightarrow>
             (case os_ReadFile privateKeyFileName fs of
                Inl e \<Rightarrow> (Inl (CertOS e), fs)
              | Inr keyData \<Rightarrow>
                  (case rsa_pem_decode R keyData of
                     None \<Rightarrow> (Inl CertPem, fs)
                   | Some block \<Rightarrow>
                       (case x509_parse_key R block of
                          None \<Rightarrow> (Inl CertParse, fs)
                        | Some privateKey \<Rightarrow> (Inr (cert, privateKey), fs))))))"

definition LoadCertificateOnly :: "rsa_lib \<Rightarrow> file_system \<Rightarrow> cert_error + string" where
  "LoadCertificateOnly R fs =
     (case os_ReadFile certFileName fs of
        Inl e \<Rightarrow> Inl (CertOS e)
      | Inr certData \<Rightarrow>
          (case rsa_pem_decode R certData of
             None \<Rightarrow> Inl CertPem
           | Some block \<Rightarrow> (case x509_parse_cert R block of None \<Rightarrow> Inl CertParse | Some cert \<Rightarrow> Inr cert)))"

record tls_config =
  RootCAs :: "string list"
  InsecureSkipVerify :: bool

definition CreateClientTLSConfig :: "string \<Rightarrow> tls_config" where
  "CreateClientTLSConfig cert = \<lparr>RootCAs = [cert], InsecureSkipVerify = False\<rparr>"

subsection \<open>The client\<close>

definition DefaultVoiceControlPort :: nat where "DefaultVoiceControlPort = 14448"

datatype register_result = RegisterRpcError | RegisterReply bool "(int \<times> int) list"
datatype stream_result = StreamOk | StreamUnavailable | StreamError
datatype recv_result = RecvMessage | RecvEOF | RecvError

text \<open>
  \<open>vc_conn\<close>, \<open>vc_stopc\<close>: \<open>None\<close> when \<open>nil\<close>, else whether closed. \<open>vc_stream\<close>: the stream is not \<open>nil\<close>.
  The last three count goroutines: the watchers of the connection state and the reconnection loops
  started so far, and the receivers of the stream that are running.
\<close>

record vc_client =
  vc_serverId :: string
  vc_conn :: "bool option"
  vc_assigned :: "(int \<times> int) list"
  vc_stream :: bool
  vc_stopc :: "bool option"
  vc_connectionFailed :: bool
  vc_watchers :: nat
  vc_receivers :: nat
  vc_reconnects :: nat

definition NewVoiceControlClient :: "string \<Rightarrow> vc_client" where
  "NewVoiceControlClient serverId = \<lparr>vc_serverId = serverId, vc_conn = None, vc_assigned = [],
     vc_stream = False, vc_stopc = None, vc_connectionFailed = False, vc_watchers = 0, vc_receivers = 0,
     vc_reconnects = 0\<rparr>"

definition registerSelf :: "register_result \<Rightarrow> vc_client \<Rightarrow> bool \<times> vc_client" where
  "registerSelf reply v =
     (case reply of
        RegisterRpcError \<Rightarrow> (False, v)
      | RegisterReply success frequencies \<Rightarrow>
          if \<not> success then (False, v) else (True, v\<lparr>vc_assigned := frequencies\<rparr>))"

text \<open>The stream field is set before the error is looked at; on an error gRPC returns \<open>nil\<close>.\<close>

definition establishStream :: "stream_result \<Rightarrow> vc_client \<Rightarrow> bool \<times> vc_client" where
  "establishStream reply v =
     (case reply of
        StreamUnavailable \<Rightarrow> (False, v\<lparr>vc_stream := False, vc_reconnects := Suc (vc_reconnects v)\<rparr>)
      | StreamError \<Rightarrow> (False, v\<lparr>vc_stream := False\<rparr>)
      | StreamOk \<Rightarrow>
          (True, v\<lparr>vc_stream := True,
                   vc_stopc := (case vc_stopc v of None \<Rightarrow> Some False | Some c \<Rightarrow> Some c),
                   vc_receivers := Suc (vc_receivers v), vc_connectionFailed := False\<rparr>))"

definition vc_establish :: "register_result \<times> stream_result \<Rightarrow> vc_client \<Rightarrow> bool \<times> vc_client" where
  "vc_establish replies v =
     (let v1 = v\<lparr>vc_watchers := Suc (vc_watchers v)\<rparr>;
          (ok, v2) = registerSelf (fst replies) v1
      in if \<not> ok then (False, v2) else establishStream (snd replies) v2)"

text \<open>\<open>dial_ok\<close>: \<open>grpc.NewClient\<close> accepts the address. A failing registration is only logged.\<close>

definition ConnectControlServer ::
    "rsa_lib \<Rightarrow> file_system \<Rightarrow> bool \<Rightarrow> register_result \<times> stream_result \<Rightarrow> vc_client \<Rightarrow> bool \<times> vc_client" where
  "ConnectControlServer R fs dial_ok replies v =
     (case LoadCertificateOnly R fs of
        Inl _ \<Rightarrow> (False, v)
      | Inr cert \<Rightarrow>
          if \<not> dial_ok then (False, v)
          else
            let (ok, v1) = vc_establish replies (v\<lparr>vc_conn := Some False\<rparr>)
            in (True, if ok then v1 else v1\<lparr>vc_conn := map_option (\<lambda>_. True) (vc_conn v1)\<rparr>))"

definition CloseControl :: "vc_client \<Rightarrow> vc_client outcome" where
  "CloseControl v =
     (if vc_stopc v = Some True then Panics
      else Ret (v\<lparr>vc_stopc := map_option (\<lambda>_. True) (vc_stopc v), vc_conn := map_option (\<lambda>_. True) (vc_conn v)\<rparr>))"

text \<open>
  One round of the receiving goroutine; the Boolean tells whether it goes on. The \<open>break\<close> of the
  error case leaves the \<open>select\<close>, not the loop. \<open>Recv\<close> is called on whatever the stream field
  holds by then.
\<close>

definition recv_round :: "recv_result \<Rightarrow> vc_client \<Rightarrow> (bool \<times> vc_client) outcome" where
  "recv_round res v =
     (let ended = (False, v\<lparr>vc_receivers := vc_receivers v - 1\<rparr>) in
      if vc_stopc v = Some True then Ret ended
      else if \<not> vc_stream v then Panics
      else case res of
             RecvEOF \<Rightarrow> Ret ended
           | RecvError \<Rightarrow> Ret (True, v\<lparr>vc_reconnects := Suc (vc_reconnects v)\<rparr>)
           | RecvMessage \<Rightarrow> Ret (True, v))"

fun recv_rounds :: "recv_result list \<Rightarrow> vc_client \<Rightarrow> (bool \<times> vc_client) outcome" where
  "recv_rounds [] v = Ret (True, v)"
| "recv_rounds (r # rs) v =
     bind_outcome (recv_round r v) (\<lambda>(go, v1). if go then recv_rounds rs v1 else Ret (False, v1))"

definition vc_watch :: "connectivity \<Rightarrow> vc_client \<Rightarrow> vc_client" where
  "vc_watch newState v = (if newState = Idle then v\<lparr>vc_reconnects := Suc (vc_reconnects v)\<rparr> else v)"

text \<open>
  The reconnection loop, run without interference: \<open>answers i\<close> is what the control node answers to
  the \<open>i\<close>-th attempt. \<open>None\<close>: the stop channel was closed.
\<close>

function vc_reconnect ::
    "(nat \<Rightarrow> register_result \<times> stream_result) \<Rightarrow> nat \<Rightarrow> nat \<Rightarrow> nat \<Rightarrow> vc_client \<Rightarrow>
     ((reconnect_result \<times> nat) option \<times> vc_client) outcome" where
  "vc_reconnect answers currentBackoff reconnectionAttempts slept v =
     (if vc_stopc v = Some True then Ret (None, v)
      else if 20 \<le> reconnectionAttempts
      then map_ret (Pair (Some (GaveUp reconnectionAttempts, slept))) (CloseControl v)
      else
        let (ok, v1) = vc_establish (answers reconnectionAttempts) v
        in if ok then Ret (Some (Reconnected (Suc reconnectionAttempts), slept), v1)
           else vc_reconnect answers
                  (if currentBackoff < 128 then currentBackoff * 2 else currentBackoff)
                  (Suc reconnectionAttempts) (slept + currentBackoff) v1)"
  by pat_completeness auto
termination
  by (relation "measure (\<lambda>(_, _, n, _, _). 20 - n)") auto

declare vc_reconnect.simps [simp del]

definition vc_handleReconnection ::
    "(nat \<Rightarrow> register_result \<times> stream_result) \<Rightarrow> vc_client \<Rightarrow>
     ((reconnect_result \<times> nat) option \<times> vc_client) outcome" where
  "vc_handleReconnection answers v = vc_reconnect answers 1 0 0 v"

subsection \<open>Lemmas\<close>

fun accepted :: "register_result \<times> stream_result \<Rightarrow> bool" where
  "accepted (RegisterReply True _, StreamOk) = True"
| "accepted _ = False"

lemma vc_establish_spec:
  "vc_establish replies v = (ok, v') \<Longrightarrow>
   ok = accepted replies \<and> vc_watchers v' = Suc (vc_watchers v) \<and> vc_conn v' = vc_conn v \<and>
   (\<not> ok \<longrightarrow> vc_stopc v' = vc_stopc v)"
  by (cases replies rule: accepted.cases)
    (auto simp: vc_establish_def registerSelf_def establishStream_def Let_def
      split: register_result.splits stream_result.splits if_splits)

fun attempts_made :: "reconnect_result \<Rightarrow> nat" where
  "attempts_made (Reconnected n) = n"
| "attempts_made (GaveUp n) = n"

lemma vc_reconnect_plugin:
  assumes "vc_stopc v \<noteq> Some True" and "n \<le> 20"
  shows "\<exists>r v'. vc_reconnect answers b n slept v = Ret (Some r, v') \<and>
     r = reconnect_loop (\<lambda>i. accepted (answers i)) b n slept \<and>
     vc_watchers v' + n = vc_watchers v + attempts_made (fst r) \<and>
     (\<forall>k. fst r = GaveUp k \<longrightarrow> vc_conn v' = map_option (\<lambda>_. True) (vc_conn v) \<and>
        vc_stopc v' = map_option (\<lambda>_. True) (vc_stopc v))"
  using assms
proof (induction "20 - n" arbitrary: b n slept v)
  case 0
  then show ?case
    by (simp add: vc_reconnect.simps reconnect_loop.simps maxReconnectionAttempts_def CloseControl_def)
next
  case (Suc d)
  obtain ok v1 where e: "vc_establish (answers n) v = (ok, v1)" by fastforce
  note spec = vc_establish_spec [OF e]
  have n: "n < 20" using Suc.hyps(2) by simp
  show ?case
  proof (cases ok)
    case True
    with spec e n Suc.prems show ?thesis
      by (simp add: vc_reconnect.simps [of answers b n] reconnect_loop.simps [of _ b n] maxReconnectionAttempts_def)
  next
    case False
    let ?b = "if b < 128 then b * 2 else b"
    have "d = 20 - Suc n" "Suc n \<le> 20" "vc_stopc v1 \<noteq> Some True" using Suc.hyps(2) Suc.prems spec False by auto
    from Suc.hyps(1) [OF this(1,3,2), of ?b "slept + b"] spec e False n Suc.prems show ?thesis
      by (simp add: vc_reconnect.simps [of answers b n] reconnect_loop.simps [of _ b n] maxReconnectionAttempts_def
          maxBackoff_def)
  qed
qed

lemma recv_rounds_errors:
  "vc_stream v \<Longrightarrow> vc_stopc v \<noteq> Some True \<Longrightarrow>
   recv_rounds (replicate n RecvError) v = Ret (True, v\<lparr>vc_reconnects := n + vc_reconnects v\<rparr>)"
  by (induction n arbitrary: v) (simp_all add: recv_round_def Let_def)

subsection \<open>Properties\<close>

text \<open>
  C32: The control node's certificate. What a start generated, or found, the next start finds again,
  without drawing a new key; and the voice node that reads the certificate file after a generation
  trusts exactly the certificate the control node presents.
\<close>

theorem control_certificate:
  "rsa_lib_ok R \<Longrightarrow> LoadOrGenerateKeyPair R fresh fs = (Inr (cert, key), fs') \<Longrightarrow>
   readable fs certFileName \<Longrightarrow> readable fs privateKeyFileName \<Longrightarrow>
   LoadOrGenerateKeyPair R fresh' fs' = (Inr (cert, key), fs') \<and>
   (files fs privateKeyFileName = None \<longrightarrow> fresh = Some key \<and>
      map_sum id CreateClientTLSConfig (LoadCertificateOnly R fs') =
        Inr \<lparr>RootCAs = [tc_Certificate cert], InsecureSkipVerify = False\<rparr>)"
proof (cases "files fs privateKeyFileName")
  case None
  assume R: "rsa_lib_ok R" and gen: "LoadOrGenerateKeyPair R fresh fs = (Inr (cert, key), fs')"
    and rd: "readable fs certFileName" "readable fs privateKeyFileName"
  have names: "certFileName \<noteq> []" "privateKeyFileName \<noteq> []" "certFileName \<noteq> privateKeyFileName"
    by (simp_all add: certFileName_def privateKeyFileName_def)
  from gen None names obtain der where der: "fresh = Some key" "x509_create R key = Some der"
      "cert = \<lparr>tc_Certificate = der, tc_PrivateKey = key\<rparr>"
    and fs': "fs' = fs\<lparr>files := (files fs)(certFileName \<mapsto> rsa_pem_encode R ''CERTIFICATE'' der,
        privateKeyFileName \<mapsto> rsa_pem_encode R ''RSA PRIVATE KEY'' (x509_marshal_key R key))\<rparr>"
    by (auto simp: LoadOrGenerateKeyPair_def generateSelfSignedCert_def os_Stat_def os_WriteFile_def encode_pair_def
        split: option.splits if_splits)
  have rsa: "rsa_pem_decode R (rsa_pem_encode R t b) = Some b" "x509_parse_key R (x509_marshal_key R key) = Some key"
    "x509_parse_cert R der = Some der"
    "tls_pair R (rsa_pem_encode R ''CERTIFICATE'' der) (rsa_pem_encode R ''RSA PRIVATE KEY'' (x509_marshal_key R key)) =
       Some \<lparr>tc_Certificate = der, tc_PrivateKey = key\<rparr>" for t b
    using R der(2) by (auto simp: rsa_lib_ok_def)
  show ?thesis
    using der rsa names rd
    by (simp add: fs' LoadOrGenerateKeyPair_def os_Stat_def LoadX509KeyPair_def os_ReadFile_def LoadCertificateOnly_def
        CreateClientTLSConfig_def)
next
  case (Some c)
  assume "LoadOrGenerateKeyPair R fresh fs = (Inr (cert, key), fs')"
  then show ?thesis
    using Some
    by (auto simp: LoadOrGenerateKeyPair_def os_Stat_def privateKeyFileName_def split: sum.splits option.splits)
qed

text \<open>A toy instance of the contract: PEM adds a prefix, a certificate names its key in unary.\<close>

definition sample_rsa :: rsa_lib where
  "sample_rsa = \<lparr>x509_create = (\<lambda>k. Some (put_nat k)), x509_marshal_key = put_nat,
     x509_parse_key = (\<lambda>s. map_option fst (get_nat s)), x509_parse_cert = Some,
     rsa_pem_encode = (\<lambda>_ b. CHR ''-'' # b),
     rsa_pem_decode = (\<lambda>s. case s of [] \<Rightarrow> None | _ # b \<Rightarrow> Some b),
     tls_pair = (\<lambda>c k. Some \<lparr>tc_Certificate = tl c, tc_PrivateKey = fst (the (get_nat (tl k)))\<rparr>)\<rparr>"

lemma sample_rsa_ok: "rsa_lib_ok sample_rsa"
  using get_put_nat [of _ "[]"] by (auto simp: rsa_lib_ok_def sample_rsa_def)

theorem control_certificate_witness:
  "let fs = \<lparr>files = Map.empty, readable = (\<lambda>_. True), writable = (\<lambda>_. True)\<rparr>;
       r = LoadOrGenerateKeyPair sample_rsa (Some 3) fs
   in fst (LoadOrGenerateKeyPair sample_rsa (Some 7) (snd r)) = fst r \<and>
      fst r = Inr (\<lparr>tc_Certificate = put_nat 3, tc_PrivateKey = 3\<rparr>, 3)"
proof -
  let ?fs = "\<lparr>files = Map.empty, readable = (\<lambda>_. True), writable = (\<lambda>_. True)\<rparr> :: file_system"
  let ?fs' = "snd (LoadOrGenerateKeyPair sample_rsa (Some 3) ?fs)"
  have gen: "LoadOrGenerateKeyPair sample_rsa (Some 3) ?fs =
      (Inr (\<lparr>tc_Certificate = put_nat 3, tc_PrivateKey = 3\<rparr>, 3), ?fs')"
    by (simp add: LoadOrGenerateKeyPair_def os_Stat_def generateSelfSignedCert_def sample_rsa_def encode_pair_def
        os_WriteFile_def certFileName_def privateKeyFileName_def)
  from gen have "fst (LoadOrGenerateKeyPair sample_rsa (Some 3) ?fs) = Inr (\<lparr>tc_Certificate = put_nat 3, tc_PrivateKey = 3\<rparr>, 3)"
    by (metis fst_conv)
  with control_certificate [OF sample_rsa_ok gen, of "Some 7"] show ?thesis by (simp add: Let_def)
qed

text \<open>
  Connecting to the control node. With a certificate and an address that dials, connecting
  always reports success; only if the control node accepted both the registration and the stream
  is there an open connection with one receiver. Otherwise the connection is closed, and the only
  later attempt comes from a reconnection loop, which exists exactly if the node was registered but
  the stream was unavailable; then a receive on the stream would panic.
\<close>

theorem connect_control_server:
  "(LoadCertificateOnly R fs = Inr cert \<longrightarrow>
     (\<exists>v. ConnectControlServer R fs True (reg, str) (NewVoiceControlClient i) = (True, v) \<and>
        (if accepted (reg, str) then vc_conn v = Some False \<and> vc_receivers v = 1 \<and> vc_stopc v = Some False \<and> vc_stream v
         else vc_conn v = Some True \<and> vc_receivers v = 0 \<and> vc_stopc v = None) \<and>
        vc_reconnects v = (case reg of RegisterReply True _ \<Rightarrow> if str = StreamUnavailable then 1 else 0 | _ \<Rightarrow> 0) \<and>
        vc_assigned v = (case reg of RegisterReply True fr \<Rightarrow> fr | _ \<Rightarrow> []))) \<and>
   ((\<exists>e. LoadCertificateOnly R fs = Inl e) \<longrightarrow>
      ConnectControlServer R fs dial (reg, str) v0 = (False, v0)) \<and>
   ConnectControlServer R fs False (reg, str) v0 = (False, v0)"
  by (auto simp: ConnectControlServer_def vc_establish_def registerSelf_def establishStream_def
      NewVoiceControlClient_def Let_def split: register_result.split stream_result.split bool.split sum.split)

theorem connect_control_server_witness:
  "\<exists>v. ConnectControlServer sample_rsa
     \<lparr>files = [certFileName \<mapsto> ''-c''], readable = (\<lambda>_. True), writable = (\<lambda>_. True)\<rparr> True
     (RegisterRpcError, StreamOk) (NewVoiceControlClient ''voice'') = (True, v) \<and> vc_conn v = Some True"
proof -
  have c: "LoadCertificateOnly sample_rsa
      \<lparr>files = [certFileName \<mapsto> ''-c''], readable = (\<lambda>_. True), writable = (\<lambda>_. True)\<rparr> = Inr ''c''"
    by (simp add: LoadCertificateOnly_def os_ReadFile_def sample_rsa_def certFileName_def)
  from connect_control_server [of sample_rsa "\<lparr>files = [certFileName \<mapsto> ''-c''], readable = (\<lambda>_. True), writable = (\<lambda>_. True)\<rparr>"
      "''c''" RegisterRpcError StreamOk "''voice''" True "NewVoiceControlClient []"] c
  show ?thesis by auto
qed

text \<open>
  C39: A broken stream. While the stop channel is open, each failing receive starts one more
  reconnection loop and the receiver goes on: after \<open>n\<close> errors there are \<open>n\<close> more loops. And once
  one of those loops registers but gets no stream, the next round of the receiver dereferences the
  missing stream and brings the server down.
\<close>

theorem broken_stream:
  "vc_stream v \<Longrightarrow> vc_stopc v = Some False \<Longrightarrow>
   recv_rounds (replicate n RecvError) v = Ret (True, v\<lparr>vc_reconnects := n + vc_reconnects v\<rparr>) \<and>
   (str \<noteq> StreamOk \<longrightarrow> recv_round res (snd (vc_establish (RegisterReply True fr, str) v)) = Panics)"
  using recv_rounds_errors [of v n]
  by (auto simp: vc_establish_def registerSelf_def establishStream_def recv_round_def Let_def split: stream_result.split)

theorem broken_stream_witness:
  "let v = (NewVoiceControlClient ''voice'')\<lparr>vc_stream := True, vc_stopc := Some False, vc_receivers := 1\<rparr>
   in recv_rounds (replicate 3 RecvError) v = Ret (True, v\<lparr>vc_reconnects := 3\<rparr>)"
  using broken_stream [of "(NewVoiceControlClient ''voice'')\<lparr>vc_stream := True, vc_stopc := Some False, vc_receivers := 1\<rparr>"
      3 StreamOk RecvEOF "[]"]
  by (simp add: NewVoiceControlClient_def)

text \<open>
  The reconnection to the control node behaves as that to a plugin: with the stop channel open
  it returns, after the same attempts and the same sleeps, so it gives up after twenty failures and
  1791 seconds; giving up closes connection and stop channel. Each attempt leaves a further
  watcher of the connection behind.
\<close>

theorem control_reconnection:
  "vc_stopc v \<noteq> Some True \<Longrightarrow>
   \<exists>v'. vc_handleReconnection answers v = Ret (Some (handleReconnection (\<lambda>i. accepted (answers i))), v') \<and>
     vc_watchers v' = vc_watchers v + attempts_made (fst (handleReconnection (\<lambda>i. accepted (answers i)))) \<and>
     (\<forall>k. fst (handleReconnection (\<lambda>i. accepted (answers i))) = GaveUp k \<longrightarrow>
        vc_conn v' = map_option (\<lambda>_. True) (vc_conn v) \<and> vc_stopc v' = map_option (\<lambda>_. True) (vc_stopc v))"
  unfolding vc_handleReconnection_def handleReconnection_def
  using vc_reconnect_plugin [of v 0 answers 1 0] by (metis add_0_right zero_le)

theorem control_reconnection_witness:
  "\<exists>v' r. vc_handleReconnection (\<lambda>_. (RegisterRpcError, StreamOk)) (NewVoiceControlClient ''voice'') = Ret (Some r, v') \<and>
     vc_watchers v' = attempts_made (fst r)"
proof -
  let ?v = "NewVoiceControlClient ''voice''" and ?ans = "\<lambda>_::nat. (RegisterRpcError, StreamOk)"
  have "vc_stopc ?v \<noteq> Some True" "vc_watchers ?v = 0" by (simp_all add: NewVoiceControlClient_def)
  with control_reconnection [of ?v ?ans] show ?thesis by (metis add_0)
qed

end
