(* ===== verification/Session.thy ===== *)
theory Session
  imports AppAdmin VoiceServer
begin

text \<open>
  The server as a whole, on one node: gRPC requests, rounds of the clean-ups, operations of the
  administrator and voice datagrams in any order, over the shared client tables. A session is a
  list of events; \<open>sys_runs\<close> runs it on the models of the parts.
\<close>

subsection \<open>Sessions\<close>

record system =
  sy_app :: app_state
  sy_voice :: voice_server

datatype sys_event =
    Rpc call_env "(string \<Rightarrow> string list) option" rpc_request
  | StaleRound time "uuid list"
  | AdminBan admin_env string string
  | AdminUnban admin_env string
  | AdminKick admin_env string string
  | AdminMute admin_env string
  | AdminUnmute admin_env string
  | AdminSettings admin_env settings_op
  | Datagram uuid_lib "uuid list" time "byte list" udp_addr
  | VoiceCleanup "uuid list" time

definition on_app :: "(app_state \<Rightarrow> app_state) \<Rightarrow> system \<Rightarrow> system" where
  "on_app f s = s\<lparr>sy_app := f (sy_app s)\<rparr>"

fun sys_step :: "sys_event \<Rightarrow> system \<Rightarrow> ((rpc_reply option \<times> voice_out list) \<times> system) outcome" where
  "sys_step (Rpc E md rq) s =
     map_ret (\<lambda>(reply, cs). ((Some reply, []), on_app (\<lambda>a. a\<lparr>ap_control := cs\<rparr>) s))
       (serve_unary E md rq (ap_control (sy_app s)))"
| "sys_step (StaleRound now gs) s = Ret ((None, []), on_app (upd_control (stale_round now gs)) s)"
| "sys_step (AdminBan V c r) s = Ret ((None, []), on_app (BanClient V c r) s)"
| "sys_step (AdminUnban V c) s = Ret ((None, []), on_app (UnbanClient V c) s)"
| "sys_step (AdminKick V c r) s = Ret ((None, []), on_app (KickClient V c r) s)"
| "sys_step (AdminMute V c) s = Ret ((None, []), on_app (MuteClient V c) s)"
| "sys_step (AdminUnmute V c) s = Ret ((None, []), on_app (UnmuteClient V c) s)"
| "sys_step (AdminSettings V op) s = Ret ((None, []), on_app (run_settings_op op V) s)"
| "sys_step (Datagram L order now d addr) s =
     (let (v, outs) = handlePacket L order now (app_settings (sy_app s)) (app_server (sy_app s)) d addr (sy_voice s)
      in Ret ((None, outs), s\<lparr>sy_voice := v\<rparr>))"
| "sys_step (VoiceCleanup order now) s = Ret ((None, []), s\<lparr>sy_voice := cleanup order now (sy_voice s)\<rparr>)"

fun sys_runs :: "sys_event list \<Rightarrow> system \<Rightarrow> ((rpc_reply option \<times> voice_out list) list \<times> system) outcome" where
  "sys_runs [] s = Ret ([], s)"
| "sys_runs (e # es) s =
     bind_outcome (sys_step e s) (\<lambda>(o1, s1). map_ret (\<lambda>(os, s2). (o1 # os, s2)) (sys_runs es s1))"

text \<open>A system nobody has connected to yet, as the start of the program leaves it.\<close>

definition fresh_system :: "system \<Rightarrow> bool" where
  "fresh_system s \<longleftrightarrow>
     gget (Clients (app_server (sy_app s))) = Map.empty \<and>
     RadioClients (app_server (sy_app s)) = gmake \<and>
     authenticatingClients (cs_auth (ap_control (sy_app s))) = Map.empty \<and>
     v_clients (sy_voice s) = Map.empty"

subsection \<open>What a session says about a client\<close>

text \<open>The identifiers the server gave out, and those a login named.\<close>

fun issues :: "sys_event \<Rightarrow> uuid set" where
  "issues (Rpc E md (CallInitAuth caps)) = {en_newUUID E}"
| "issues _ = {}"

fun logs_in :: "sys_event \<Rightarrow> uuid set" where
  "logs_in (Rpc E md (CallGuestLogin rq)) = set_option (uuid_parse (en_uuid E) (gq_ClientGuid rq))"
| "logs_in (Rpc E md (CallUnitSelect rq)) = set_option (uuid_parse (en_uuid E) (uq_ClientGuid rq))"
| "logs_in _ = {}"

text \<open>The identifiers named by a login after they were given out.\<close>

fun named :: "uuid set \<Rightarrow> sys_event list \<Rightarrow> uuid set" where
  "named I [] = {}"
| "named I (e # es) = (logs_in e \<inter> I) \<union> named (I \<union> issues e) es"

lemma named_split:
  "g \<in> named I es \<Longrightarrow> \<exists>xs e ys. es = xs @ e # ys \<and> g \<in> logs_in e \<and> (g \<in> I \<or> (\<exists>e' \<in> set xs. g \<in> issues e'))"
proof (induction es arbitrary: I)
  case (Cons e es)
  show ?case
  proof (cases "g \<in> logs_in e \<inter> I")
    case True
    then show ?thesis by (intro exI [of _ "[]"]) auto
  next
    case False
    with Cons obtain xs e1 ys where "es = xs @ e1 # ys" "g \<in> logs_in e1"
      "g \<in> I \<union> issues e \<or> (\<exists>e' \<in> set xs. g \<in> issues e')" by fastforce
    then show ?thesis by (intro exI [of _ "e # xs"] exI [of _ e1] exI [of _ ys]) auto
  qed
qed simp

text \<open>No plugin the event may ask offers a role above \<open>m\<close>.\<close>

definition plugins_offer :: "u8 \<Rightarrow> plugin_net \<Rightarrow> bool" where
  "plugins_offer m N \<longleftrightarrow>
     (\<forall>nm cr ok res. pn_login N nm cr = LoginReply ok (Some (PluginResult res)) \<longrightarrow>
        (\<forall>r \<in> set (pl_AvailableRoles res). (ucast r :: u8) \<le> m))"

fun offers :: "u8 \<Rightarrow> sys_event \<Rightarrow> bool" where
  "offers m (Rpc E md rq) = plugins_offer m (en_plugins E)"
| "offers m _ = True"

definition ctl_inv :: "u8 \<Rightarrow> uuid set \<Rightarrow> uuid set \<Rightarrow> control_state \<Rightarrow> bool" where
  "ctl_inv m I K cs \<longleftrightarrow>
     RadioClients (cs_state cs) \<noteq> None \<and>
     gdom (Clients (cs_state cs)) \<subseteq> gdom (RadioClients (cs_state cs)) \<and>
     (\<forall>g c. gget (Clients (cs_state cs)) g = Some c \<longrightarrow> c_Role c \<le> m \<and> g \<in> I \<inter> K) \<and>
     (\<forall>g e. authenticatingClients (cs_auth cs) g = Some e \<longrightarrow>
        g \<in> I \<and> (\<forall>r \<in> set (ac_AvailableRoles e). r \<le> m))"

definition sys_inv :: "u8 \<Rightarrow> uuid set \<Rightarrow> uuid set \<Rightarrow> system \<Rightarrow> bool" where
  "sys_inv m I K s \<longleftrightarrow> ctl_inv m I K (ap_control (sy_app s)) \<and>
     (\<forall>u c. v_clients (sy_voice s) u = Some c \<longrightarrow> u \<in> I \<inter> K)"

subsection \<open>The effect of each request\<close>

lemma sweep_auth_iff:
  "authenticatingClients (sweep_auth ks t a) g = Some e \<longleftrightarrow>
     authenticatingClients a g = Some e \<and> (g \<in> set ks \<longrightarrow> t \<le> ac_Expires e)"
  by (auto simp: sweep_auth_def sweep_entries_apply)

lemma InitAuth_effect:
  assumes "InitAuth E caps cs = Ret (r, cs')"
  shows "cs_state cs' = cs_state cs \<and>
    (\<forall>g e. authenticatingClients (cs_auth cs') g = Some e \<longrightarrow>
       authenticatingClients (cs_auth cs) g = Some e \<or> g = en_newUUID E \<and> ac_AvailableRoles e = [])"
  using assms
  by (auto simp: InitAuth_def branch_iffs removeExpired_eq sweep_auth_iff lock_mu_Ret Let_def
      split: if_splits)

lemma GuestLogin_effect:
  assumes "GuestLogin E rq cs = Ret (r, cs')"
  shows "(\<forall>g e. authenticatingClients (cs_auth cs') g = Some e \<longrightarrow> authenticatingClients (cs_auth cs) g = Some e) \<and>
    (cs_state cs' = cs_state cs \<or>
      (\<exists>g c e. uuid_parse (en_uuid E) (gq_ClientGuid rq) = Some g \<and> authenticatingClients (cs_auth cs) g = Some e \<and>
         c_Role c = GuestRole \<and> AddClient g c (cs_state cs) = Ret (cs_state cs')))"
  using assms
  by (auto simp: GuestLogin_def branch_iffs removeExpired_eq sweep_auth_iff lock_mu_Ret issue_token_frame
      split: if_splits dest: issue_token_frame)

definition offered_by :: "plugin_net \<Rightarrow> u8 list \<Rightarrow> bool" where
  "offered_by N roles \<longleftrightarrow> (\<exists>nm cr ok res. pn_login N nm cr = LoginReply ok (Some (PluginResult res)) \<and>
     roles = map ucast (pl_AvailableRoles res))"

lemma LoginPlugin_offered:
  "LoginPlugin N cr p = Inr (Some (PluginResult res)) \<Longrightarrow> offered_by N (map ucast (pl_AvailableRoles res))"
  by (auto simp: LoginPlugin_def offered_by_def
      split: if_splits login_reply.splits bool.splits option.splits login_oneof.splits)

lemma plugins_offer_offered: "plugins_offer m N \<Longrightarrow> offered_by N roles \<Longrightarrow> r \<in> set roles \<Longrightarrow> r \<le> m"
  by (force simp: plugins_offer_def offered_by_def)

lemma case_login_oneof_eq:
  "(case x of PluginResult res \<Rightarrow> f res | PluginErrorMessage m \<Rightarrow> g m) = y \<longleftrightarrow>
     (\<exists>res. x = PluginResult res \<and> f res = y) \<or> (\<exists>m. x = PluginErrorMessage m \<and> g m = y)"
  by (cases x) auto

lemma Login_effect:
  assumes "Login E rq cs = Ret (r, cs')"
  shows "cs_state cs' = cs_state cs \<and>
    (\<forall>g e. authenticatingClients (cs_auth cs') g = Some e \<longrightarrow>
       authenticatingClients (cs_auth cs) g = Some e \<or>
       authenticatingClients (cs_auth cs) g \<noteq> None \<and> offered_by (en_plugins E) (ac_AvailableRoles e))"
  using assms
  by (auto simp: Login_def branch_iffs case_login_oneof_eq removeExpired_eq sweep_auth_iff lock_mu_Ret Let_def
      split: if_splits dest!: LoginPlugin_offered)

lemma UnitSelect_effect:
  assumes "UnitSelect E rq cs = Ret (r, cs')"
  shows "(\<forall>g e. authenticatingClients (cs_auth cs') g = Some e \<longrightarrow> authenticatingClients (cs_auth cs) g = Some e) \<and>
    (cs_state cs' = cs_state cs \<or>
      (\<exists>g c e. uuid_parse (en_uuid E) (uq_ClientGuid rq) = Some g \<and> authenticatingClients (cs_auth cs) g = Some e \<and>
         c_Role c \<in> set (ac_AvailableRoles e) \<and> AddClient g c (cs_state cs) = Ret (cs_state cs')))"
  using assms
  by (auto simp: UnitSelect_def branch_iffs lock_mu_Ret Let_def isRoleAvailable_iff
      split: if_splits dest: issue_token_frame)

text \<open>
  The other requests and the administrator only take clients away or lower their roles, and take
  no radios away from a client that stays.
\<close>

definition demotes :: "server_state \<Rightarrow> server_state \<Rightarrow> bool" where
  "demotes st st' \<longleftrightarrow>
     (\<forall>g c'. gget (Clients st') g = Some c' \<longrightarrow> (\<exists>c. gget (Clients st) g = Some c \<and> c_Role c' \<le> c_Role c) \<and>
        (g \<in> gdom (RadioClients st) \<longrightarrow> g \<in> gdom (RadioClients st'))) \<and>
     (RadioClients st \<noteq> None \<longrightarrow> RadioClients st' \<noteq> None)"

lemma demotes_refl [simp]: "demotes st st"
  by (auto simp: demotes_def)

lemma demotes_trans: "demotes a b \<Longrightarrow> demotes b c \<Longrightarrow> demotes a c"
proof -
  assume ab: "demotes a b" and bc: "demotes b c"
  have "\<exists>x. gget (Clients a) g = Some x \<and> c_Role z \<le> c_Role x" "g \<in> gdom (RadioClients a) \<longrightarrow> g \<in> gdom (RadioClients c)"
    if z: "gget (Clients c) g = Some z" for g z
  proof -
    from bc z obtain y where y: "gget (Clients b) g = Some y" "c_Role z \<le> c_Role y"
      and 1: "g \<in> gdom (RadioClients b) \<longrightarrow> g \<in> gdom (RadioClients c)"
      unfolding demotes_def by blast
    from ab y obtain x where x: "gget (Clients a) g = Some x" "c_Role y \<le> c_Role x"
      and 2: "g \<in> gdom (RadioClients a) \<longrightarrow> g \<in> gdom (RadioClients b)"
      unfolding demotes_def by blast
    show "\<exists>x. gget (Clients a) g = Some x \<and> c_Role z \<le> c_Role x" using x y order_trans by blast
    show "g \<in> gdom (RadioClients a) \<longrightarrow> g \<in> gdom (RadioClients c)" using 1 2 by blast
  qed
  moreover have "RadioClients a \<noteq> None \<longrightarrow> RadioClients c \<noteq> None" using ab bc by (simp add: demotes_def)
  ultimately show ?thesis unfolding demotes_def by blast
qed

lemma gdel_None [simp]: "gdel m g = None \<longleftrightarrow> m = None" and gadjust_None [simp]: "gadjust m g f = None \<longleftrightarrow> m = None"
  by (auto simp: gdel_def gadjust_def)

lemma demotes_cleanup: "demotes st (cleanupClientState g st)"
  by (auto simp: demotes_def cleanupClientState_eq gomap_simps split: if_splits)

lemma demotes_kick: "demotes st (st\<lparr>Clients := gdel (Clients st) g\<rparr>)"
  by (auto simp: demotes_def gomap_simps split: if_splits)

lemma demotes_ban: "demotes st (set_banned bs st\<lparr>Clients := gdel (Clients (set_banned bs st)) g\<rparr>)"
  by (auto simp: demotes_def set_banned_def gomap_simps split: if_splits)

lemma demotes_radios: "demotes st (st\<lparr>RadioClients := gadjust (RadioClients st) g f\<rparr>)"
  by (auto simp: demotes_def gomap_simps)

lemma demotes_banned [simp]: "demotes st (set_banned bs st')  \<longleftrightarrow> demotes st st'"
  "demotes (set_banned bs st) st' \<longleftrightarrow> demotes st st'"
  by (auto simp: demotes_def set_banned_def)

lemma demotes_update:
  "gget (Clients st) g = Some c \<Longrightarrow> c_Role c' \<le> c_Role c \<Longrightarrow>
   demotes st (st\<lparr>Clients := gadjust (Clients st) g (\<lambda>_. c')\<rparr>)"
  by (auto simp: demotes_def gomap_simps split: if_splits)

lemma UpdateClientInfo_demotes:
  assumes "UpdateClientInfo L now cid u cs = Ret (r, cs')"
  shows "demotes (cs_state cs) (cs_state cs') \<and> cs_auth cs' = cs_auth cs"
proof -
  from assms consider "cs' = cs" | s g c where "cid = Some s" "uuid_parse L s = Some g" "gget (Clients (cs_state cs)) g = Some c"
    by (auto simp: UpdateClientInfo_def with_client_Ret split: option.splits)
  then show ?thesis
  proof cases
    case (2 s g c)
    let ?c = "snd (update_client (cs_settings cs) now u c)"
    have "cs_state cs' = (cs_state cs)\<lparr>Clients := gadjust (Clients (cs_state cs)) g (\<lambda>_. ?c)\<rparr> \<and> cs_auth cs' = cs_auth cs"
      using assms 2 by (simp add: UpdateClientInfo_def with_client_def split_beta Let_def split: if_splits) auto
    with demotes_update [OF 2(3) update_client_role] show ?thesis by simp
  qed simp
qed

lemma Disconnect_demotes:
  assumes "Disconnect L cid cs = Ret (r, cs')"
  shows "demotes (cs_state cs) (cs_state cs') \<and> cs_auth cs' = cs_auth cs"
proof -
  from assms consider "cs' = cs" | g where "cs_state cs' = cleanupClientState g (cs_state cs)" "cs_auth cs' = cs_auth cs"
    by (auto simp: Disconnect_def with_client_Ret Let_def split: if_splits)
  then show ?thesis by cases (simp_all add: demotes_cleanup)
qed

lemma UpdateRadioInfo_demotes:
  assumes "UpdateRadioInfo L cid ri cs = Ret (r, cs')"
  shows "demotes (cs_state cs) (cs_state cs') \<and> cs_auth cs' = cs_auth cs"
proof -
  from assms consider "cs' = cs"
    | g f where "cs_state cs' = (cs_state cs)\<lparr>RadioClients := gadjust (RadioClients (cs_state cs)) g f\<rparr>" "cs_auth cs' = cs_auth cs"
    by (auto simp: UpdateRadioInfo_def with_client_Ret split: if_splits)
  then show ?thesis by cases (simp_all add: demotes_radios)
qed

lemma SyncClient_demotes:
  assumes "SyncClient L o1 o2 cs = Ret (r, cs')"
  shows "demotes (cs_state cs) (cs_state cs') \<and> cs_auth cs' = cs_auth cs"
  using assms by (auto simp: SyncClient_def Let_def bind_outcome_eq_Ret)

lemmas srs_demotes = Disconnect_demotes UpdateClientInfo_demotes UpdateRadioInfo_demotes SyncClient_demotes

lemma handler_demotes:
  assumes "needs_token rq" and "run_handler_for E cid rq cs = Ret (reply, cs')"
  shows "demotes (cs_state cs) (cs_state cs') \<and> cs_auth cs' = cs_auth cs"
  using assms by (cases rq) (auto simp: map_ret_eq dest: srs_demotes)

lemma stale_demotes: "demotes (cs_state cs) (cs_state (stale_round now gs cs)) \<and> cs_auth (stale_round now gs cs) = cs_auth cs"
proof (induction gs arbitrary: cs)
  case (Cons g gs)
  show ?case
    using Cons [of cs] Cons [of "cs\<lparr>cs_state := cleanupClientState g (cs_state cs), cs_streams := cs_streams cs - {g}\<rparr>"]
      demotes_trans [OF demotes_cleanup [of "cs_state cs" g]] by simp
qed simp

lemma settings_auth: "cs_auth (ap_control (run_settings_op op V a)) = cs_auth (ap_control a)"
  by (cases op) (simp_all add: settings_op_defs save_settings_eq admin_simps upd_settings_def upd_control_def Let_def)

lemma admin_demotes:
  "demotes (app_server a) (app_server (BanClient V s r a)) \<and> cs_auth (ap_control (BanClient V s r a)) = cs_auth (ap_control a)"
  "demotes (app_server a) (app_server (UnbanClient V s a)) \<and> cs_auth (ap_control (UnbanClient V s a)) = cs_auth (ap_control a)"
  "demotes (app_server a) (app_server (KickClient V s r a)) \<and> cs_auth (ap_control (KickClient V s r a)) = cs_auth (ap_control a)"
  "demotes (app_server a) (app_server (MuteClient V s a)) \<and> cs_auth (ap_control (MuteClient V s a)) = cs_auth (ap_control a)"
  "demotes (app_server a) (app_server (UnmuteClient V s a)) \<and> cs_auth (ap_control (UnmuteClient V s a)) = cs_auth (ap_control a)"
  "demotes (app_server a) (app_server (run_settings_op op V a)) \<and> cs_auth (ap_control (run_settings_op op V a)) = cs_auth (ap_control a)"
  by (simp_all add: BanClient_def UnbanClient_def KickClient_def MuteClient_def UnmuteClient_def set_muted_def
      save_bans_eq Let_def admin_simps demotes_kick demotes_ban demotes_radios saved.op_server settings_auth split: option.split)

subsection \<open>The invariant of a session\<close>

lemma ctl_inv_demotes:
  assumes "ctl_inv m I K cs" and "demotes (cs_state cs) (cs_state cs')" and "cs_auth cs' = cs_auth cs"
  shows "ctl_inv m I K cs'"
  unfolding ctl_inv_def
proof (intro conjI allI impI)
  show "RadioClients (cs_state cs') \<noteq> None" using assms(1,2) by (simp add: ctl_inv_def demotes_def)
  show "gdom (Clients (cs_state cs')) \<subseteq> gdom (RadioClients (cs_state cs'))"
    using assms(1,2) by (fastforce simp: ctl_inv_def demotes_def gdom_iff subset_iff)
next
  fix g c assume "gget (Clients (cs_state cs')) g = Some c"
  with assms(2) obtain c0 where "gget (Clients (cs_state cs)) g = Some c0" "c_Role c \<le> c_Role c0"
    unfolding demotes_def by blast
  with assms(1) show "c_Role c \<le> m" "g \<in> I \<inter> K" by (auto simp: ctl_inv_def intro: order_trans)
qed (use assms(1,3) in \<open>auto simp: ctl_inv_def\<close>)

lemma ctl_inv_auth:
  assumes "ctl_inv m I K cs" and "cs_state cs' = cs_state cs"
    and "\<And>g e. authenticatingClients (cs_auth cs') g = Some e \<Longrightarrow>
      authenticatingClients (cs_auth cs) g = Some e \<or> g \<in> I' \<and> (\<forall>r \<in> set (ac_AvailableRoles e). r \<le> m)"
    and "I \<subseteq> I'" and "K \<subseteq> K'"
  shows "ctl_inv m I' K' cs'"
proof -
  from assms(1) have a: "RadioClients (cs_state cs) \<noteq> None" "gdom (Clients (cs_state cs)) \<subseteq> gdom (RadioClients (cs_state cs))"
    and c: "\<And>g c. gget (Clients (cs_state cs)) g = Some c \<Longrightarrow> c_Role c \<le> m \<and> g \<in> I \<inter> K"
    and e: "\<And>g e. authenticatingClients (cs_auth cs) g = Some e \<Longrightarrow> g \<in> I \<and> (\<forall>r \<in> set (ac_AvailableRoles e). r \<le> m)"
    by (auto simp: ctl_inv_def)
  show ?thesis
    unfolding ctl_inv_def assms(2) using a c e assms(3-) by blast
qed

lemma ctl_inv_join:
  assumes "ctl_inv m I K cs" and "AddClient g c (cs_state cs) = Ret (cs_state cs')"
    and "authenticatingClients (cs_auth cs) g = Some e" and "c_Role c \<le> m" and "g \<in> K'"
    and "\<And>g e. authenticatingClients (cs_auth cs') g = Some e \<Longrightarrow> authenticatingClients (cs_auth cs) g = Some e"
    and "I \<subseteq> I'" and "K \<subseteq> K'"
  shows "ctl_inv m I' K' cs'"
proof -
  note add = AddClient_RetD [OF assms(2)]
  from assms(1) have a: "gdom (Clients (cs_state cs)) \<subseteq> gdom (RadioClients (cs_state cs))"
    and c: "\<And>g c. gget (Clients (cs_state cs)) g = Some c \<Longrightarrow> c_Role c \<le> m \<and> g \<in> I \<inter> K"
    and e: "\<And>g e. authenticatingClients (cs_auth cs) g = Some e \<Longrightarrow> g \<in> I \<and> (\<forall>r \<in> set (ac_AvailableRoles e). r \<le> m)"
    by (auto simp: ctl_inv_def)
  have "gdom (Clients (cs_state cs')) \<subseteq> gdom (RadioClients (cs_state cs'))"
    using a add by (auto simp: gdom_def)
  moreover have "c_Role x \<le> m \<and> h \<in> I' \<inter> K'" if "gget (Clients (cs_state cs')) h = Some x" for h x
    using that add(1) c [of h x] e [OF assms(3)] assms(4,5,7,8) by (auto split: if_splits)
  moreover have "h \<in> I' \<and> (\<forall>r \<in> set (ac_AvailableRoles x). r \<le> m)"
    if "authenticatingClients (cs_auth cs') h = Some x" for h x
    using e [OF assms(6) [OF that]] assms(7) by blast
  ultimately show ?thesis unfolding ctl_inv_def using add(4) by blast
qed

lemma authInterceptor_frame:
  assumes "needs_token rq" and "authInterceptor E (full_method rq) md cs = Ret (i, cs1)"
  shows "cs_state cs1 = cs_state cs \<and> cs_auth cs1 = cs_auth cs"
  using assms(2) by (auto simp: authInterceptor_srs [OF assms(1)] case_option_eq map_ret_eq)

lemma serve_unary_demotes:
  assumes n: "needs_token rq" and s: "serve_unary E md rq cs = Ret (reply, cs')"
  shows "demotes (cs_state cs) (cs_state cs') \<and> cs_auth cs' = cs_auth cs"
proof -
  from s obtain i cs1 where i: "authInterceptor E (full_method rq) md cs = Ret (i, cs1)"
    and r: "(case i of Denied d \<Rightarrow> Ret (ReDenied d, cs1) | NoAuthentication \<Rightarrow> run_handler_for E None rq cs1
       | ClientId guid \<Rightarrow> run_handler_for E (Some guid) rq cs1) = Ret (reply, cs')"
    by (auto simp: serve_unary_def bind_outcome_eq_Ret)
  have "demotes (cs_state cs1) (cs_state cs') \<and> cs_auth cs' = cs_auth cs1"
  proof (cases i)
    case NoAuthentication
    with r show ?thesis using handler_demotes [OF n, of E None cs1] by simp
  next
    case (ClientId guid)
    with r show ?thesis using handler_demotes [OF n, of E "Some guid" cs1] by simp
  qed (use r in simp)
  then show ?thesis using authInterceptor_frame [OF n i] by simp
qed

lemma rpc_inv:
  assumes inv: "ctl_inv m I K cs" and s: "serve_unary E md rq cs = Ret (reply, cs')"
    and m: "plugins_offer m (en_plugins E)"
  shows "ctl_inv m (I \<union> issues (Rpc E md rq)) (K \<union> logs_in (Rpc E md rq) \<inter> I) cs'"
proof (cases "needs_token rq")
  case True
  then have "issues (Rpc E md rq) = {}" "logs_in (Rpc E md rq) = {}" by (cases rq; simp)+
  with ctl_inv_demotes [OF inv] serve_unary_demotes [OF True s] show ?thesis by simp
next
  case False
  with s have r: "run_handler_for E None rq cs = Ret (reply, cs')"
    by (simp add: serve_unary_def authInterceptor_auth del: full_method.simps)
  from inv have roles: "\<And>g e r. authenticatingClients (cs_auth cs) g = Some e \<Longrightarrow> r \<in> set (ac_AvailableRoles e) \<Longrightarrow> r \<le> m"
    and ids: "\<And>g e. authenticatingClients (cs_auth cs) g = Some e \<Longrightarrow> g \<in> I"
    by (auto simp: ctl_inv_def)
  show ?thesis
  proof (cases rq)
    case (CallInitAuth caps)
    with r obtain a where "InitAuth E caps cs = Ret (a, cs')" by (auto simp: map_ret_eq)
    from InitAuth_effect [OF this] show ?thesis
      by (intro ctl_inv_auth [OF inv]) (fastforce simp: CallInitAuth)+
  next
    case (CallGuestLogin q)
    with r obtain a where "GuestLogin E q cs = Ret (a, cs')" by (auto simp: map_ret_eq)
    from GuestLogin_effect [OF this] show ?thesis
      by (elim conjE disjE exE, intro ctl_inv_auth [OF inv])
        (auto simp: CallGuestLogin GuestRole_def intro: ctl_inv_join [OF inv] ids)
  next
    case (CallLogin q)
    with r obtain a where "Login E q cs = Ret (a, cs')" by (auto simp: map_ret_eq)
    from Login_effect [OF this] have st: "cs_state cs' = cs_state cs"
      and a: "\<And>g e. authenticatingClients (cs_auth cs') g = Some e \<Longrightarrow> authenticatingClients (cs_auth cs) g = Some e \<or>
        authenticatingClients (cs_auth cs) g \<noteq> None \<and> offered_by (en_plugins E) (ac_AvailableRoles e)" by blast+
    have "authenticatingClients (cs_auth cs) g = Some e \<or> g \<in> I \<and> (\<forall>r \<in> set (ac_AvailableRoles e). r \<le> m)"
      if "authenticatingClients (cs_auth cs') g = Some e" for g e
      using a [OF that] ids plugins_offer_offered [OF m] by blast
    from ctl_inv_auth [OF inv st this] show ?thesis by (simp add: CallLogin)
  next
    case (CallUnitSelect q)
    with r obtain a where "UnitSelect E q cs = Ret (a, cs')" by (auto simp: map_ret_eq)
    from UnitSelect_effect [OF this] show ?thesis
      by (elim conjE disjE exE, intro ctl_inv_auth [OF inv])
        (auto simp: CallUnitSelect intro: ctl_inv_join [OF inv] roles ids)
  qed (use False in simp_all)
qed

lemma datagram_inv:
  assumes "sys_inv m I K s"
  shows "sys_inv m I K (s\<lparr>sy_voice := fst (handlePacket L order now ss (app_server (sy_app s)) d a (sy_voice s))\<rparr>)"
  using assms
  by (auto simp: sys_inv_def ctl_inv_def DoesClientExist_def dest!: handlePacket_clients)

lemma cleanup_inv:
  "sys_inv m I K s \<Longrightarrow> sys_inv m I K (s\<lparr>sy_voice := cleanup order now (sy_voice s)\<rparr>)"
  by (auto simp: sys_inv_def cleanup_def Let_def sweep_entries_apply split: if_splits)

lemma admin_inv:
  assumes "sys_inv m I K s" and "demotes (app_server (sy_app s)) (app_server (f (sy_app s)))"
    and "cs_auth (ap_control (f (sy_app s))) = cs_auth (ap_control (sy_app s))"
  shows "sys_inv m I K (on_app f s)"
  using assms ctl_inv_demotes by (auto simp: sys_inv_def on_app_def)

lemma sys_step_inv:
  assumes "sys_inv m I K s" and "sys_step ev s = Ret (o1, s')" and "offers m ev"
  shows "sys_inv m (I \<union> issues ev) (K \<union> logs_in ev \<inter> I) s'"
proof (cases ev)
  case (Rpc E md rq)
  with assms(2) obtain reply cs' where r: "serve_unary E md rq (ap_control (sy_app s)) = Ret (reply, cs')"
    and s': "s' = on_app (\<lambda>a. a\<lparr>ap_control := cs'\<rparr>) s" by (auto simp: map_ret_eq)
  from assms(1,3) Rpc have "ctl_inv m I K (ap_control (sy_app s))" "plugins_offer m (en_plugins E)"
    by (simp_all add: sys_inv_def)
  from rpc_inv [OF this(1) r this(2)] assms(1) show ?thesis
    by (auto simp: Rpc s' sys_inv_def on_app_def)
next
  case (Datagram L order now d addr)
  with assms(2) datagram_inv [OF assms(1)] show ?thesis by (auto simp: split_beta Let_def)
qed (use assms(1,2) in \<open>auto simp: admin_demotes cleanup_inv stale_demotes upd_control_def intro!: admin_inv\<close>)

lemma sys_runs_inv:
  "sys_inv m I K s \<Longrightarrow> sys_runs es s = Ret (os, s') \<Longrightarrow> list_all (offers m) es \<Longrightarrow>
   sys_inv m (I \<union> \<Union> (issues ` set es)) (K \<union> named I es) s'"
proof (induction es arbitrary: s os I K)
  case (Cons e es)
  have K: "K \<union> logs_in e \<inter> I \<union> named (I \<union> issues e) es = K \<union> named I (e # es)" by auto
  from Cons.prems(2) obtain o1 s1 os' where 1: "sys_step e s = Ret (o1, s1)" and 2: "sys_runs es s1 = Ret (os', s')"
    by (auto simp: bind_outcome_eq_Ret map_ret_eq)
  from Cons.IH [OF sys_step_inv [OF Cons.prems(1) 1] 2] Cons.prems(3) show ?case
    by (simp only: K) (simp add: Un_assoc)
qed simp

lemma fresh_inv: "fresh_system s \<Longrightarrow> sys_inv m I K s"
  by (auto simp: fresh_system_def sys_inv_def ctl_inv_def gmake_def gdom_def)

subsection \<open>Subscriptions of a session\<close>

text \<open>No unary request and no operation of the administrator subscribes a client.\<close>

lemma auth_streams:
  "InitAuth E caps cs = Ret (r1, cs') \<Longrightarrow> cs_streams cs' = cs_streams cs"
  "GuestLogin E gq cs = Ret (r2, cs') \<Longrightarrow> cs_streams cs' = cs_streams cs"
  "Login E lq cs = Ret (r3, cs') \<Longrightarrow> cs_streams cs' = cs_streams cs"
  "UnitSelect E uq cs = Ret (r4, cs') \<Longrightarrow> cs_streams cs' = cs_streams cs"
  by (auto simp: InitAuth_def GuestLogin_def Login_def UnitSelect_def branch_iffs case_login_oneof_eq
      removeExpired_eq lock_mu_Ret Let_def split: if_splits dest: issue_token_frame)

lemma srs_streams:
  "SyncClient L o1 o2 cs = Ret (r1, cs') \<Longrightarrow> cs_streams cs' = cs_streams cs"
  "UpdateClientInfo L now cid u cs = Ret (r2, cs') \<Longrightarrow> cs_streams cs' = cs_streams cs"
  "UpdateRadioInfo L cid ri cs = Ret (r2, cs') \<Longrightarrow> cs_streams cs' = cs_streams cs"
  "Disconnect L cid cs = Ret (r2, cs') \<Longrightarrow> cs_streams cs' = cs_streams cs"
  by (auto simp: SyncClient_def UpdateClientInfo_def UpdateRadioInfo_def Disconnect_def with_client_Ret
      bind_outcome_eq_Ret split_beta Let_def split: if_splits option.splits)

lemma handler_streams: "run_handler_for E cid rq cs = Ret (reply, cs') \<Longrightarrow> cs_streams cs' = cs_streams cs"
  by (cases rq) (auto simp: map_ret_eq dest: auth_streams srs_streams)

lemma interceptor_streams:
  assumes "authInterceptor E (full_method rq) md cs = Ret (i, cs1)"
  shows "cs_streams cs1 = cs_streams cs"
proof (cases "needs_token rq")
  case True
  with assms show ?thesis by (auto simp: authInterceptor_srs case_option_eq map_ret_eq simp del: full_method.simps)
next
  case False
  with assms show ?thesis by (simp add: authInterceptor_auth del: full_method.simps)
qed

lemma serve_unary_streams:
  assumes "serve_unary E md rq cs = Ret (reply, cs')"
  shows "cs_streams cs' = cs_streams cs"
proof -
  from assms obtain i cs1 where i: "authInterceptor E (full_method rq) md cs = Ret (i, cs1)"
    and r: "(case i of Denied d \<Rightarrow> Ret (ReDenied d, cs1) | NoAuthentication \<Rightarrow> run_handler_for E None rq cs1
       | ClientId guid \<Rightarrow> run_handler_for E (Some guid) rq cs1) = Ret (reply, cs')"
    by (auto simp: serve_unary_def bind_outcome_eq_Ret)
  have "cs_streams cs' = cs_streams cs1" using r by (cases i) (auto dest: handler_streams)
  with interceptor_streams [OF i] show ?thesis by simp
qed

lemma stale_no_streams: "cs_streams cs = {} \<Longrightarrow> stale_round now gs cs = cs"
  by (induction gs) simp_all

lemma admin_streams:
  "cs_streams (ap_control (BanClient V s r a)) = cs_streams (ap_control a)"
  "cs_streams (ap_control (UnbanClient V s a)) = cs_streams (ap_control a)"
  "cs_streams (ap_control (KickClient V s r a)) = cs_streams (ap_control a)"
  "cs_streams (ap_control (MuteClient V s a)) = cs_streams (ap_control a)"
  "cs_streams (ap_control (UnmuteClient V s a)) = cs_streams (ap_control a)"
  "cs_streams (ap_control (run_settings_op op V a)) = cs_streams (ap_control a)"
proof -
  note defs = EmitEvent_def Notify_def EmitGui_def upd_control_def upd_server_def upd_settings_def save_bans_eq
    save_settings_eq set_muted_def Let_def
  show "cs_streams (ap_control (BanClient V s r a)) = cs_streams (ap_control a)"
    by (simp add: BanClient_def defs split: option.split)
  show "cs_streams (ap_control (UnbanClient V s a)) = cs_streams (ap_control a)"
    by (simp add: UnbanClient_def defs split: option.split)
  show "cs_streams (ap_control (KickClient V s r a)) = cs_streams (ap_control a)"
    by (simp add: KickClient_def defs split: option.split)
  show "cs_streams (ap_control (MuteClient V s a)) = cs_streams (ap_control a)"
    by (simp add: MuteClient_def defs split: option.split)
  show "cs_streams (ap_control (UnmuteClient V s a)) = cs_streams (ap_control a)"
    by (simp add: UnmuteClient_def defs split: option.split)
  show "cs_streams (ap_control (run_settings_op op V a)) = cs_streams (ap_control a)"
    by (cases op) (simp_all add: settings_op_defs defs)
qed

lemma sys_step_streams:
  assumes "sys_step ev s = Ret (o1, s')" and "cs_streams (ap_control (sy_app s)) = {}"
  shows "cs_streams (ap_control (sy_app s')) = {}"
  using assms
  by (cases ev) (auto simp: map_ret_eq on_app_def upd_control_def stale_no_streams admin_streams split_beta Let_def
      dest: serve_unary_streams)

lemma sys_runs_streams:
  "sys_runs es s = Ret (os, s') \<Longrightarrow> cs_streams (ap_control (sy_app s)) = {} \<Longrightarrow>
   cs_streams (ap_control (sy_app s')) = {}"
  by (induction es arbitrary: s os) (auto simp: bind_outcome_eq_Ret map_ret_eq dest: sys_step_streams)

subsection \<open>A sample session\<close>

text \<open>A client is given the identifier 2, logs in as a guest and says hello to the voice server.\<close>

definition sample_system :: system where
  "sample_system = \<lparr>sy_app = sample_app\<lparr>ap_control := set_authenticating Map.empty sample_control\<rparr>,
     sy_voice = voice_bind NewVoiceServer\<rparr>"

definition sample_guest :: guest_request where
  "sample_guest = \<lparr>gq_Name = ''Bob'', gq_Password = ''$pw'', gq_UnitId = ''AB1'',
     gq_ClientGuid = uuid_string sample_uuid_lib 2\<rparr>"

definition sample_hello :: "byte list" where
  "sample_hello = SerializePacket sample_uuid_lib ((NewVCSHelloAckPacket 2)\<lparr>PType := PacketTypeHello\<rparr>)"

definition sample_session :: "sys_event list" where
  "sample_session = [
     Rpc hash_env None (CallInitAuth (Some (''0.1.0'', [pb_STANDALONE]))),
     Rpc hash_env None (CallGuestLogin sample_guest),
     Datagram sample_uuid_lib [2] 5 sample_hello (UDPAddr ''10.0.0.1'' 4000)]"

lemma sample_fresh: "fresh_system sample_system"
  by (simp add: fresh_system_def sample_system_def sample_control_def voice_bind_def NewVoiceServer_def)

lemma sample_init:
  "\<exists>r e. InitAuth hash_env (Some (''0.1.0'', [pb_STANDALONE])) (set_authenticating Map.empty sample_control) =
     Ret (Accepted r, set_authenticating [2 \<mapsto> e] sample_control) \<and> 0 \<le> ac_Expires e"
  by (simp add: InitAuth_def removeExpiredAuthenticatingClients_def lock_mu_def hash_env_def checkVersion_def
      checkDistributionCapabilities_iff sweep_auth_def set_authenticating_def minute_def second_def)
    (rule exI, rule conjI, rule refl, simp)

lemma sample_login:
  assumes "0 \<le> ac_Expires e"
  shows "\<exists>r cs. GuestLogin hash_env sample_guest (set_authenticating [2 \<mapsto> e] sample_control) = Ret (r, cs) \<and>
     gget (Clients (cs_state cs)) 2 = Some \<lparr>c_Name = ''Bob'', c_UnitId = ''AB1'', c_Coalition = ''blue'', c_Role = 0, c_LastUpdate = 0\<rparr>"
proof -
  let ?cs = "set_authenticating [2 \<mapsto> e] sample_control"
  let ?c = "\<lparr>c_Name = ''Bob'', c_UnitId = ''AB1'', c_Coalition = ''blue'', c_Role = GuestRole, c_LastUpdate = 0\<rparr>"
  obtain st where st: "AddClient 2 ?c (cs_state sample_control) = Ret st" using sample_AddClient by blast
  obtain s where s: "issue_token hash_env (uuid_string sample_uuid_lib 2) GuestRole (?cs\<lparr>cs_state := st\<rparr>) =
      Ret (Inr s, ?cs\<lparr>cs_state := st\<rparr>)"
    unfolding hash_env_def by (atomize_elim, rule sample_issue) simp
  have sw: "?cs\<lparr>cs_auth := sweep_auth [1] 0 (cs_auth ?cs)\<rparr> = ?cs"
    by (simp add: sweep_auth_def set_authenticating_def)
  have "GuestLogin hash_env sample_guest ?cs =
      Ret (Accepted (s, ''blue''), publish_event (NewEvent ClientsChanged ClientsRef) (?cs\<lparr>cs_state := st\<rparr>))"
    using st s sw by (simp add: GuestLogin_def sample_guest_def removeExpiredAuthenticatingClients_def lock_mu_def hash_env_def
        checkUsername_def checkUnitId_def unit_char_def HashPassword_def)
  then show ?thesis using AddClient_RetD(1) [OF st] by (simp add: GuestRole_def)
qed

lemma sample_hello_parse:
  "\<exists>p. ParsePacket sample_uuid_lib sample_hello = Inr p \<and> PType p = PacketTypeHello \<and> SenderID p = 2"
proof -
  let ?p = "((NewVCSHelloAckPacket 2)\<lparr>PType := PacketTypeHello\<rparr>)"
  have "ParsePacket sample_uuid_lib sample_hello = Inr ?p"
    unfolding sample_hello_def
    by (rule ParsePacket_SerializePacket) (simp_all add: sample_uuid_lib_ok wf_packet_def NewVCSHelloAckPacket_def
        MagicVCS_def packet_type_defs)
  then show ?thesis by (simp add: NewVCSHelloAckPacket_def)
qed

lemma sample_runs:
  "\<exists>os s'. sys_runs sample_session sample_system = Ret (os, s') \<and>
     gget (Clients (app_server (sy_app s'))) 2 =
       Some \<lparr>c_Name = ''Bob'', c_UnitId = ''AB1'', c_Coalition = ''blue'', c_Role = 0, c_LastUpdate = 0\<rparr> \<and>
     v_clients (sy_voice s') 2 = Some \<lparr>v_Addr = UDPAddr ''10.0.0.1'' 4000, v_LastSeen = 5\<rparr>"
proof -
  obtain r e where i: "InitAuth hash_env (Some (''0.1.0'', [pb_STANDALONE])) (set_authenticating Map.empty sample_control) =
     Ret (Accepted r, set_authenticating [2 \<mapsto> e] sample_control)" and e: "0 \<le> ac_Expires e" using sample_init by blast
  obtain r2 cs where g: "GuestLogin hash_env sample_guest (set_authenticating [2 \<mapsto> e] sample_control) = Ret (r2, cs)"
    and c: "gget (Clients (cs_state cs)) 2 = Some \<lparr>c_Name = ''Bob'', c_UnitId = ''AB1'', c_Coalition = ''blue'', c_Role = 0, c_LastUpdate = 0\<rparr>"
    using sample_login [OF e] by blast
  obtain p where p: "ParsePacket sample_uuid_lib sample_hello = Inr p" "PType p = PacketTypeHello" "SenderID p = 2"
    using sample_hello_parse by blast
  have s1: "serve_unary hash_env None (CallInitAuth (Some (''0.1.0'', [pb_STANDALONE]))) (set_authenticating Map.empty sample_control) =
      Ret (ReInitAuth (Accepted r), set_authenticating [2 \<mapsto> e] sample_control)"
    by (simp add: serve_unary_def authInterceptor_auth i del: full_method.simps)
  have s2: "serve_unary hash_env None (CallGuestLogin sample_guest) (set_authenticating [2 \<mapsto> e] sample_control) =
      Ret (ReGuestLogin r2, cs)"
    by (simp add: serve_unary_def authInterceptor_auth g del: full_method.simps)
  show ?thesis
    using c by (simp add: sample_session_def sample_system_def on_app_def s1 s2 handle_hello_eq [OF _ p(1,2)]
        voice_bind_def handleHelloPacket_def p DoesClientExist_def)
qed

subsection \<open>Properties\<close>

text \<open>
  C1: No privilege escalation. Whatever sequence of requests, administrator's operations, clean-ups
  and datagrams a fresh server serves: as long as no plugin answers a login with a role above \<open>m\<close>,
  no connected client has a role above \<open>m\<close>. With no plugin answering, all are guests.
\<close>

theorem no_privilege_escalation:
  "fresh_system s \<Longrightarrow> sys_runs es s = Ret (os, s') \<Longrightarrow> list_all (offers m) es \<Longrightarrow>
   gget (Clients (app_server (sy_app s'))) g = Some c \<Longrightarrow> c_Role c \<le> m"
  by (drule sys_runs_inv [OF fresh_inv]) (auto simp: sys_inv_def ctl_inv_def)

theorem no_privilege_escalation_witness:
  "\<exists>os s' c. sys_runs sample_session sample_system = Ret (os, s') \<and>
     gget (Clients (app_server (sy_app s'))) 2 = Some c \<and> c_Role c \<le> 0"
proof -
  obtain os s' c where r: "sys_runs sample_session sample_system = Ret (os, s')"
    and c: "gget (Clients (app_server (sy_app s'))) 2 = Some c" using sample_runs by blast
  have "list_all (offers 0) sample_session"
    by (simp add: sample_session_def plugins_offer_def hash_env_def)
  from no_privilege_escalation [OF sample_fresh r this c] r c show ?thesis by blast
qed

text \<open>
  C2: Where clients come from. In a session from a fresh server every client in the client table,
  and every client the voice server relays to, has an identifier that the server drew in an
  initialisation and that a later guest login or unit selection named.
\<close>

theorem session_provenance:
  "fresh_system s \<Longrightarrow> sys_runs es s = Ret (os, s') \<Longrightarrow>
   DoesClientExist g (app_server (sy_app s')) \<or> v_clients (sy_voice s') g \<noteq> None \<Longrightarrow>
   \<exists>xs login ys. es = xs @ login # ys \<and> g \<in> logs_in login \<and> (\<exists>init \<in> set xs. g \<in> issues init)"
proof -
  assume f: "fresh_system s" and r: "sys_runs es s = Ret (os, s')"
    and g: "DoesClientExist g (app_server (sy_app s')) \<or> v_clients (sy_voice s') g \<noteq> None"
  have "offers (- 1) e" for e by (cases e) (simp_all add: plugins_offer_def)
  then have "list_all (offers (- 1)) es" by (simp add: list_all_iff)
  from sys_runs_inv [OF fresh_inv [OF f, of _ "{}" "{}"] r this] g have "g \<in> named {} es"
    by (auto simp: sys_inv_def ctl_inv_def DoesClientExist_def)
  then show ?thesis using named_split by blast
qed

theorem session_provenance_witness:
  "\<exists>xs login ys. sample_session = xs @ login # ys \<and> 2 \<in> logs_in login \<and> (\<exists>init \<in> set xs. 2 \<in> issues init)"
proof -
  obtain os s' where r: "sys_runs sample_session sample_system = Ret (os, s')"
    and "v_clients (sy_voice s') 2 \<noteq> None" using sample_runs by fastforce
  then show ?thesis using session_provenance [OF sample_fresh r, of 2] by blast
qed

text \<open>
  C20: The tables stay consistent. In every state of a session from a fresh server each client has an
  entry in the table of radios, and that table exists, so that neither a login's \<open>AddClient\<close> nor a
  client's update of its radios can fail for want of it.
\<close>

theorem clients_have_radios:
  "fresh_system s \<Longrightarrow> sys_runs es s = Ret (os, s') \<Longrightarrow>
   (\<exists>st. AddClient h c (app_server (sy_app s')) = Ret st) \<and>
   (if DoesClientExist g (app_server (sy_app s')) \<and> uuid_parse L cid = Some g
    then \<exists>cs'. UpdateRadioInfo L (Some cid) ri (ap_control (sy_app s')) = Ret (Done, cs') \<and>
      gget (RadioClients (cs_state cs')) g = Some (convertRadioInfo ri)
    else True)"
proof -
  assume f: "fresh_system s" and r: "sys_runs es s = Ret (os, s')"
  have "offers (- 1) e" for e by (cases e) (simp_all add: plugins_offer_def)
  then have "list_all (offers (- 1)) es" by (simp add: list_all_iff)
  from sys_runs_inv [OF fresh_inv [OF f, of _ "{}" "{}"] r this]
  have "RadioClients (app_server (sy_app s')) \<noteq> None"
    "gdom (Clients (app_server (sy_app s'))) \<subseteq> gdom (RadioClients (app_server (sy_app s')))"
    by (auto simp: sys_inv_def ctl_inv_def)
  then show ?thesis
    by (auto simp: AddClient_Ret UpdateRadioInfo_def with_client_def DoesClientExist_def gdom_iff subset_iff gomap_simps)
qed

theorem clients_have_radios_witness:
  "\<exists>os s' cs'. sys_runs sample_session sample_system = Ret (os, s') \<and>
     UpdateRadioInfo sample_uuid_lib (Some (uuid_string sample_uuid_lib 2))
       \<lparr>pri_Radios = [], pri_Muted = False, pri_LastUpdate = None\<rparr> (ap_control (sy_app s')) = Ret (Done, cs')"
proof -
  obtain os s' where r: "sys_runs sample_session sample_system = Ret (os, s')"
    and c: "DoesClientExist 2 (app_server (sy_app s'))" using sample_runs by (auto simp: DoesClientExist_def)
  from clients_have_radios [OF sample_fresh r, where L = sample_uuid_lib and cid = "uuid_string sample_uuid_lib 2" and g = 2] r c
  show ?thesis by fastforce
qed



text \<open>
  C25: Silent clients are never cleaned up. A subscription fails in every state, because the context of
  a stream carries no client; so in every session of a server that starts without subscriptions the
  table the clean-up ranges over stays empty, and no round of it changes anything, however long the
  clients have been silent.
\<close>

theorem silent_clients_stay:
  "cs_streams (ap_control (sy_app s)) = {} \<Longrightarrow> sys_runs es s = Ret (os, s') \<Longrightarrow>
   serve_subscribe E (ap_control (sy_app s')) = Panics \<and>
   (\<forall>now gs. stale_round now gs (ap_control (sy_app s')) = ap_control (sy_app s'))"
  using sys_runs_streams by (simp add: subscribe_panics stale_no_streams)

theorem silent_clients_stay_witness:
  "\<exists>os s'. sys_runs sample_session sample_system = Ret (os, s') \<and>
     DoesClientExist 2 (cs_state (stale_round (10 ^ 21) [2] (ap_control (sy_app s'))))"
proof -
  obtain os s' where r: "sys_runs sample_session sample_system = Ret (os, s')"
    and c: "DoesClientExist 2 (app_server (sy_app s'))" using sample_runs by (auto simp: DoesClientExist_def)
  have "cs_streams (ap_control (sy_app sample_system)) = {}"
    by (simp add: sample_system_def sample_control_def)
  from silent_clients_stay [OF this r, of hash_env] have
    "stale_round (10 ^ 21) [2] (ap_control (sy_app s')) = ap_control (sy_app s')" by blast
  with r c show ?thesis by metis
qed

end
