(* ===== verification/AccessControl.thy ===== *)
theory AccessControl
  imports Session
begin

text \<open>
  What the server promises about access, as a small abstract machine, and the proof that every
  session of the model is a run of it. The machine knows which identifiers may still log in and with
  which roles, who is connected in which role, and whom the voice server relays to; each of its steps
  says who may take it.
\<close>

subsection \<open>The abstract machine\<close>

record access =
  pending :: "uuid \<rightharpoonup> u8 set"
  members :: "uuid \<rightharpoonup> u8"
  relayed :: "uuid set"

text \<open>
  Who acts: an anonymous caller of the authentication service with the answers of these plugins, the
  client its token names, the administrator, the clean-up, somebody who sends datagrams; \<open>Nobody\<close> is a
  request that was refused.
\<close>

datatype actor = Anonymous plugin_net | Client uuid | Administrator | Clock | Sender | Nobody

inductive access_step :: "actor \<Rightarrow> access \<Rightarrow> access \<Rightarrow> bool" where
  draw: "access_step (Anonymous N) s (s\<lparr>pending := (pending s)(g \<mapsto> {})\<rparr>)"
| expire: "p \<subseteq>\<^sub>m pending s \<Longrightarrow> access_step (Anonymous N) s (s\<lparr>pending := p\<rparr>)"
| offer: "pending s g = Some R0 \<Longrightarrow> offered_by N roles \<Longrightarrow>
    access_step (Anonymous N) s (s\<lparr>pending := (pending s)(g \<mapsto> set roles)\<rparr>)"
| guest: "pending s g = Some R \<Longrightarrow> access_step (Anonymous N) s (s\<lparr>members := (members s)(g \<mapsto> GuestRole)\<rparr>)"
| join: "pending s g = Some R \<Longrightarrow> r \<in> R \<Longrightarrow>
    access_step (Anonymous N) s (s\<lparr>members := (members s)(g \<mapsto> r), pending := (pending s)(g := None)\<rparr>)"
| leave: "a = Client g \<or> a = Administrator \<or> a = Clock \<Longrightarrow>
    access_step a s (s\<lparr>members := (members s)(g := None)\<rparr>)"
| demote: "members s g = Some r0 \<Longrightarrow> r \<le> r0 \<Longrightarrow> r \<noteq> GuestRole \<Longrightarrow>
    access_step (Client g) s (s\<lparr>members := (members s)(g \<mapsto> r)\<rparr>)"
| hello: "members s g \<noteq> None \<Longrightarrow> access_step Sender s (s\<lparr>relayed := insert g (relayed s)\<rparr>)"
| silence: "V \<subseteq> relayed s \<Longrightarrow> a = Sender \<or> a = Clock \<Longrightarrow> access_step a s (s\<lparr>relayed := V\<rparr>)"

inductive access_run :: "actor list \<Rightarrow> access \<Rightarrow> access \<Rightarrow> bool" where
  stop: "access_run [] s s"
| act: "(access_step a)\<^sup>*\<^sup>* s t \<Longrightarrow> access_run as t u \<Longrightarrow> access_run (a # as) s u"

inductive_simps access_run_Cons: "access_run (a # as) s u"
inductive_cases access_stepE: "access_step a s t"

text \<open>Nothing happens on behalf of a refused request.\<close>

lemma nobody_acts: "access_step Nobody s t \<Longrightarrow> False"
  by (erule access_stepE) auto

lemma client_acts_for_itself:
  "access_step (Client g) s t \<Longrightarrow> pending t = pending s \<and> relayed t = relayed s \<and> (\<forall>h. h \<noteq> g \<longrightarrow> members t h = members s h)"
  by (erule access_stepE) auto

subsection \<open>Abstraction\<close>

definition pending_of :: "auth_server \<Rightarrow> uuid \<rightharpoonup> u8 set" where
  "pending_of a = (\<lambda>g. map_option (\<lambda>e. set (ac_AvailableRoles e)) (authenticatingClients a g))"

definition members_of :: "server_state \<Rightarrow> uuid \<rightharpoonup> u8" where
  "members_of st = (\<lambda>g. map_option c_Role (gget (Clients st) g))"

definition access_of :: "control_state \<Rightarrow> voice_server \<Rightarrow> access" where
  "access_of cs v = \<lparr>pending = pending_of (cs_auth cs), members = members_of (cs_state cs), relayed = dom (v_clients v)\<rparr>"

definition sys_access :: "system \<Rightarrow> access" where
  "sys_access s = access_of (ap_control (sy_app s)) (sy_voice s)"

text \<open>The client a request acts for: the one its token names, if the token verifies.\<close>

definition request_actor :: "call_env \<Rightarrow> (string \<Rightarrow> string list) option \<Rightarrow> rpc_request \<Rightarrow> control_state \<Rightarrow> actor" where
  "request_actor E md rq cs =
     (if \<not> needs_token rq then Anonymous (en_plugins E)
      else (case bearer md of
              None \<Rightarrow> Nobody
            | Some token \<Rightarrow>
                (case check_token (en_crypto E) (en_now E) token 0 cs of
                   Ret (Inr (guid, _), _) \<Rightarrow>
                     (case uuid_parse (en_uuid E) guid of None \<Rightarrow> Nobody | Some g \<Rightarrow> Client g)
                 | _ \<Rightarrow> Nobody)))"

fun event_actor :: "sys_event \<Rightarrow> system \<Rightarrow> actor" where
  "event_actor (Rpc E md rq) s = request_actor E md rq (ap_control (sy_app s))"
| "event_actor (StaleRound now gs) s = Clock"
| "event_actor (Datagram L order now d addr) s = Sender"
| "event_actor (VoiceCleanup order now) s = Clock"
| "event_actor (AdminSettings V op) s = Administrator"
| "event_actor (AdminBan V c r) s = Administrator"
| "event_actor (AdminUnban V c) s = Administrator"
| "event_actor (AdminKick V c r) s = Administrator"
| "event_actor (AdminMute V c) s = Administrator"
| "event_actor (AdminUnmute V c) s = Administrator"

fun session_actors :: "sys_event list \<Rightarrow> system \<Rightarrow> actor list" where
  "session_actors [] s = []"
| "session_actors (e # es) s = event_actor e s #
     (case sys_step e s of Ret (_, s1) \<Rightarrow> session_actors es s1 | _ \<Rightarrow> [])"

subsection \<open>Tables and their abstraction\<close>

definition pend :: "(uuid \<rightharpoonup> authenticating_client) \<Rightarrow> uuid \<rightharpoonup> u8 set" where
  "pend m = (\<lambda>g. map_option (\<lambda>e. set (ac_AvailableRoles e)) (m g))"

lemma pending_of_eq: "pending_of a = pend (authenticatingClients a)"
  by (simp add: pending_of_def pend_def)

lemma pend_upd [simp]:
  "pend (m(g \<mapsto> e)) = (pend m)(g \<mapsto> set (ac_AvailableRoles e))" "pend (m(g := None)) = (pend m)(g := None)"
  by (auto simp: pend_def)

lemma pend_Some: "m g = Some e \<Longrightarrow> pend m g = Some (set (ac_AvailableRoles e))"
  by (simp add: pend_def)

lemma pend_mono:
  assumes "\<And>g e. m g = Some e \<Longrightarrow> m' g = Some e"
  shows "pend m \<subseteq>\<^sub>m pend m'"
  using assms by (force simp: map_le_def pend_def)

lemma sweep_le: "pend (authenticatingClients (sweep_auth ks t a)) \<subseteq>\<^sub>m pend (authenticatingClients a)"
  by (rule pend_mono) (simp add: sweep_auth_iff)

lemma members_AddClient: "AddClient g c st = Ret st' \<Longrightarrow> members_of st' = (members_of st)(g \<mapsto> c_Role c)"
  by (auto simp: members_of_def AddClient_RetD(1))

lemma members_gdel: "gget (Clients st') = (gget (Clients st))(g := None) \<Longrightarrow> members_of st' = (members_of st)(g := None)"
  by (auto simp: members_of_def)

lemma members_cleanup: "members_of (cleanupClientState g st) = (members_of st)(g := None)"
  by (rule members_gdel) (simp add: cleanupClientState_eq gomap_simps)

text \<open>One or two abstract steps.\<close>

lemma access_one: "access_step a s t \<Longrightarrow> (access_step a)\<^sup>*\<^sup>* s t"
  by blast

lemma access_two: "access_step a s t \<Longrightarrow> access_step a t u \<Longrightarrow> (access_step a)\<^sup>*\<^sup>* s u"
  by (meson converse_rtranclp_into_rtranclp r_into_rtranclp)

text \<open>A request of the authentication service sweeps the table first.\<close>

abbreviation swept :: "call_env \<Rightarrow> control_state \<Rightarrow> (uuid \<rightharpoonup> authenticating_client)" where
  "swept E cs \<equiv> authenticatingClients (sweep_auth (en_order E) (en_now E) (cs_auth cs))"

lemma sweep_step:
  "access_step (Anonymous N) \<lparr>pending = pend (authenticatingClients (cs_auth cs)), members = m, relayed = V\<rparr>
     \<lparr>pending = pend (swept E cs), members = m, relayed = V\<rparr>"
  using access_step.expire [of "pend (swept E cs)" "\<lparr>pending = pend (authenticatingClients (cs_auth cs)), members = m, relayed = V\<rparr>" N]
  by (simp add: sweep_le)

text \<open>The effect of the four requests.\<close>

lemma InitAuth_exact:
  assumes "InitAuth E caps cs = Ret (r, cs')"
  shows "cs_state cs' = cs_state cs \<and>
    (authenticatingClients (cs_auth cs') = swept E cs \<or>
     (\<exists>e. authenticatingClients (cs_auth cs') = (swept E cs)(en_newUUID E \<mapsto> e) \<and> ac_AvailableRoles e = []))"
  using assms by (auto simp: InitAuth_def branch_iffs removeExpired_eq lock_mu_Ret Let_def split: if_splits)

definition new_offer :: "plugin_net \<Rightarrow> (uuid \<rightharpoonup> authenticating_client) \<Rightarrow> (uuid \<rightharpoonup> authenticating_client) \<Rightarrow> bool" where
  "new_offer N m m' \<longleftrightarrow>
     (\<exists>g e. m g \<noteq> None \<and> m' = m(g \<mapsto> e) \<and> offered_by N (ac_AvailableRoles e))"

lemma new_offerI: "m g \<noteq> None \<Longrightarrow> offered_by N (ac_AvailableRoles e) \<Longrightarrow> new_offer N m (m(g \<mapsto> e))"
  by (auto simp: new_offer_def)

lemma Login_exact:
  assumes "Login E rq cs = Ret (r, cs')"
  shows "cs_state cs' = cs_state cs \<and>
    (authenticatingClients (cs_auth cs') = authenticatingClients (cs_auth cs) \<or>
     authenticatingClients (cs_auth cs') = swept E cs \<or>
     new_offer (en_plugins E) (swept E cs) (authenticatingClients (cs_auth cs')))"
  using assms
  by (auto simp: Login_def branch_iffs case_login_oneof_eq removeExpired_eq lock_mu_Ret Let_def
      new_offerI split: if_splits dest!: LoginPlugin_offered)

lemma UnitSelect_uses:
  assumes "UnitSelect E rq cs = Ret (r, cs')"
  shows "cs_state cs' = cs_state cs \<and> cs_auth cs' = cs_auth cs \<or>
    (\<exists>g. uuid_parse (en_uuid E) (uq_ClientGuid rq) = Some g \<and>
       authenticatingClients (cs_auth cs') = (authenticatingClients (cs_auth cs))(g := None))"
  using assms
  by (auto simp: UnitSelect_def branch_iffs lock_mu_Ret Let_def split: if_splits dest: issue_token_frame)

subsection \<open>Simulation\<close>

abbreviation acc :: "(uuid \<rightharpoonup> u8 set) \<Rightarrow> (uuid \<rightharpoonup> u8) \<Rightarrow> uuid set \<Rightarrow> access" where
  "acc p m V \<equiv> \<lparr>pending = p, members = m, relayed = V\<rparr>"

lemma access_of_acc:
  "access_of cs v = acc (pend (authenticatingClients (cs_auth cs))) (members_of (cs_state cs)) (dom (v_clients v))"
  by (simp add: access_of_def pending_of_eq)

text \<open>The steps over the three fields.\<close>

lemma acc_steps:
  "access_step (Anonymous N) (acc p m V) (acc (p(g \<mapsto> {})) m V)"
  "p' \<subseteq>\<^sub>m p \<Longrightarrow> access_step (Anonymous N) (acc p m V) (acc p' m V)"
  "p g = Some R0 \<Longrightarrow> offered_by N roles \<Longrightarrow> access_step (Anonymous N) (acc p m V) (acc (p(g \<mapsto> set roles)) m V)"
  "p g = Some R \<Longrightarrow> access_step (Anonymous N) (acc p m V) (acc p (m(g \<mapsto> GuestRole)) V)"
  "p g = Some R \<Longrightarrow> r \<in> R \<Longrightarrow> access_step (Anonymous N) (acc p m V) (acc (p(g := None)) (m(g \<mapsto> r)) V)"
  "a = Client g \<or> a = Administrator \<or> a = Clock \<Longrightarrow> access_step a (acc p m V) (acc p (m(g := None)) V)"
  "m g = Some r0 \<Longrightarrow> r \<le> r0 \<Longrightarrow> r \<noteq> GuestRole \<Longrightarrow> access_step (Client g) (acc p m V) (acc p (m(g \<mapsto> r)) V)"
  "m g \<noteq> None \<Longrightarrow> access_step Sender (acc p m V) (acc p m (insert g V))"
  "V' \<subseteq> V \<Longrightarrow> a = Sender \<or> a = Clock \<Longrightarrow> access_step a (acc p m V) (acc p m V')"
  using access_step.draw [of N "acc p m V" g] access_step.expire [of p' "acc p m V" N]
    access_step.offer [of "acc p m V" g R0 N roles] access_step.guest [of "acc p m V" g R N]
    access_step.join [of "acc p m V" g R r N] access_step.leave [of a g "acc p m V"]
    access_step.demote [of "acc p m V" g r0 r] access_step.hello [of "acc p m V" g]
    access_step.silence [of V' "acc p m V" a]
  by simp_all

lemma InitAuth_sim:
  assumes "InitAuth E caps cs = Ret (r, cs')"
  shows "(access_step (Anonymous N))\<^sup>*\<^sup>* (access_of cs v) (access_of cs' v)"
proof -
  note sweep = acc_steps(2) [OF sweep_le]
  from InitAuth_exact [OF assms] show ?thesis
    by (auto simp: access_of_acc intro: access_one [OF sweep] access_two [OF sweep acc_steps(1)])
qed

lemma GuestLogin_sim:
  assumes "GuestLogin E rq cs = Ret (r, cs')"
  shows "(access_step (Anonymous N))\<^sup>*\<^sup>* (access_of cs v) (access_of cs' v)"
proof -
  note eff = GuestLogin_effect [OF assms]
  have le: "pend (authenticatingClients (cs_auth cs')) \<subseteq>\<^sub>m pend (authenticatingClients (cs_auth cs))"
    using eff by (intro pend_mono) blast
  from eff consider "cs_state cs' = cs_state cs"
    | g c e where "authenticatingClients (cs_auth cs) g = Some e" "c_Role c = GuestRole"
      "AddClient g c (cs_state cs) = Ret (cs_state cs')" by blast
  then show ?thesis
  proof cases
    case 1
    then show ?thesis by (simp add: access_of_acc access_one [OF acc_steps(2) [OF le]])
  next
    case 2
    show ?thesis
      unfolding access_of_acc members_AddClient [OF 2(3)] 2(2)
      by (rule access_two [OF acc_steps(4) acc_steps(2) [OF le]], rule pend_Some, rule 2(1))
  qed
qed

lemma Login_sim:
  assumes "Login E rq cs = Ret (r, cs')"
  shows "(access_step (Anonymous (en_plugins E)))\<^sup>*\<^sup>* (access_of cs v) (access_of cs' v)"
proof -
  note sweep = acc_steps(2) [OF sweep_le]
  from Login_exact [OF assms] show ?thesis
  proof (elim conjE disjE)
    assume st: "cs_state cs' = cs_state cs" and "new_offer (en_plugins E) (swept E cs) (authenticatingClients (cs_auth cs'))"
    then obtain g e0 e where g: "swept E cs g = Some e0" and eq: "authenticatingClients (cs_auth cs') = (swept E cs)(g \<mapsto> e)"
      and off: "offered_by (en_plugins E) (ac_AvailableRoles e)" by (auto simp: new_offer_def)
    show ?thesis
      unfolding access_of_acc st eq pend_upd
      by (rule access_two [OF sweep acc_steps(3) [OF _ off]], rule pend_Some, rule g)
  qed (auto simp: access_of_acc intro: access_one [OF sweep])
qed

lemma UnitSelect_sim:
  assumes "UnitSelect E rq cs = Ret (r, cs')"
  shows "(access_step (Anonymous N))\<^sup>*\<^sup>* (access_of cs v) (access_of cs' v)"
proof -
  have gone: "pend ((authenticatingClients (cs_auth cs))(g := None)) \<subseteq>\<^sub>m pend (authenticatingClients (cs_auth cs))" for g
    by (rule pend_mono) (simp split: if_splits)
  from UnitSelect_uses [OF assms] show ?thesis
  proof (elim disjE exE conjE)
    fix g assume g: "uuid_parse (en_uuid E) (uq_ClientGuid rq) = Some g"
      and auth: "authenticatingClients (cs_auth cs') = (authenticatingClients (cs_auth cs))(g := None)"
    from UnitSelect_effect [OF assms] consider "cs_state cs' = cs_state cs"
      | h c e where "uuid_parse (en_uuid E) (uq_ClientGuid rq) = Some h" "authenticatingClients (cs_auth cs) h = Some e"
        "c_Role c \<in> set (ac_AvailableRoles e)" "AddClient h c (cs_state cs) = Ret (cs_state cs')" by blast
    then show ?thesis
    proof cases
      case 1
      then show ?thesis by (simp only: access_of_acc auth) (rule access_one [OF acc_steps(2) [OF gone]])
    next
      case 2
      then have h: "h = g" using g by simp
      show ?thesis
        unfolding access_of_acc members_AddClient [OF 2(4)] auth pend_upd h
        by (rule access_one [OF acc_steps(5) [OF _ 2(3)]], rule pend_Some, rule 2(2) [unfolded h])
    qed
  qed (simp add: access_of_acc)
qed

text \<open>The requests of a connected client.\<close>

lemma access_same: "cs_auth cs' = cs_auth cs \<Longrightarrow> Clients (cs_state cs') = Clients (cs_state cs) \<Longrightarrow>
    access_of cs' v = access_of cs v"
  by (simp add: access_of_def members_of_def)

lemma Disconnect_sim:
  assumes "Disconnect L (Some s) cs = Ret (r, cs')"
  shows "(if uuid_parse L s = None then access_of cs' v = access_of cs v
    else (access_step (Client (the (uuid_parse L s))))\<^sup>*\<^sup>* (access_of cs v) (access_of cs' v))"
proof (cases "uuid_parse L s")
  case (Some g)
  with assms have "cs_state cs' = cleanupClientState g (cs_state cs)" "cs_auth cs' = cs_auth cs"
    by (auto simp: Disconnect_def with_client_def Let_def split: if_splits)
  with Some show ?thesis by (simp add: access_of_acc members_cleanup access_one [OF acc_steps(6)])
qed (use assms in \<open>simp add: Disconnect_def with_client_def\<close>)

lemma update_client_new_role:
  "c_Role (snd (update_client ss now u c)) = c_Role c \<or>
   c_Role (snd (update_client ss now u c)) \<le> c_Role c \<and> c_Role (snd (update_client ss now u c)) \<noteq> GuestRole"
  by (simp add: update_client_eq canSwapRoles_iff)

lemma UpdateClientInfo_sim:
  assumes "UpdateClientInfo L now (Some s) u cs = Ret (r, cs')"
  shows "(if uuid_parse L s = None then access_of cs' v = access_of cs v
    else (access_step (Client (the (uuid_parse L s))))\<^sup>*\<^sup>* (access_of cs v) (access_of cs' v))"
proof (cases "uuid_parse L s")
  case (Some g)
  show ?thesis
  proof (cases "gget (Clients (cs_state cs)) g")
    case None
    with assms Some show ?thesis by (simp add: UpdateClientInfo_def with_client_def)
  next
    case c: (Some c)
    let ?c = "snd (update_client (cs_settings cs) now u c)"
    have "cs_state cs' = (cs_state cs)\<lparr>Clients := gadjust (Clients (cs_state cs)) g (\<lambda>_. ?c)\<rparr> \<and> cs_auth cs' = cs_auth cs"
      using assms Some c by (simp add: UpdateClientInfo_def with_client_def split_beta Let_def split: if_splits) auto
    then have eq: "access_of cs' v = acc (pend (authenticatingClients (cs_auth cs)))
        ((members_of (cs_state cs))(g \<mapsto> c_Role ?c)) (dom (v_clients v))"
      using c by (auto simp: access_of_acc members_of_def gomap_simps)
    have m: "members_of (cs_state cs) g = Some (c_Role c)" by (simp add: members_of_def c)
    from update_client_new_role [of "cs_settings cs" now u c]
    have "(access_step (Client g))\<^sup>*\<^sup>* (access_of cs v) (access_of cs' v)"
    proof (elim disjE conjE)
      assume "c_Role ?c = c_Role c"
      then have "access_of cs' v = access_of cs v" using m by (simp only: eq) (simp add: access_of_acc fun_upd_idem)
      then show ?thesis by simp
    next
      assume "c_Role ?c \<le> c_Role c" "c_Role ?c \<noteq> GuestRole"
      then show ?thesis unfolding eq access_of_acc [of cs] by (rule access_one [OF acc_steps(7) [of "members_of (cs_state cs)", OF m]])
    qed
    with Some show ?thesis by simp
  qed
qed (use assms in \<open>simp add: UpdateClientInfo_def with_client_def\<close>)

lemma quiet_handlers:
  "SyncClient L o1 o2 cs = Ret (r1, cs') \<Longrightarrow> access_of cs' v = access_of cs v"
  "UpdateRadioInfo L (Some s) ri cs = Ret (r2, cs') \<Longrightarrow> access_of cs' v = access_of cs v"
proof -
  assume "SyncClient L o1 o2 cs = Ret (r1, cs')"
  then show "access_of cs' v = access_of cs v"
    by (intro access_same) (auto simp: SyncClient_def Let_def bind_outcome_eq_Ret)
next
  assume "UpdateRadioInfo L (Some s) ri cs = Ret (r2, cs')"
  then show "access_of cs' v = access_of cs v"
    by (intro access_same; auto simp: UpdateRadioInfo_def with_client_Ret split: if_splits)
qed

lemma handler_sim:
  assumes "needs_token rq" and "run_handler_for E (Some guid) rq cs = Ret (reply, cs')"
  shows "(if uuid_parse (en_uuid E) guid = None then access_of cs' v = access_of cs v
    else (access_step (Client (the (uuid_parse (en_uuid E) guid))))\<^sup>*\<^sup>* (access_of cs v) (access_of cs' v))"
proof (cases rq)
  case (CallUpdateClientInfo u)
  with assms show ?thesis by (auto simp: map_ret_eq dest!: UpdateClientInfo_sim [where v = v] split: if_splits)
next
  case CallDisconnect
  with assms show ?thesis by (auto simp: map_ret_eq dest!: Disconnect_sim [where v = v] split: if_splits)
qed (use assms in \<open>auto simp: map_ret_eq dest!: quiet_handlers [where v = v]\<close>)

lemma intercepted_iff:
  "ClientId g = (case r of Inl e \<Rightarrow> Denied (AuthenticationError e) | Inr (guid, _) \<Rightarrow> ClientId guid) \<longleftrightarrow>
     (\<exists>role. r = Inr (g, role))" (is ?client)
  "NoAuthentication \<noteq> (case r of Inl e \<Rightarrow> Denied (AuthenticationError e) | Inr (guid, _) \<Rightarrow> ClientId guid)" (is ?none)
proof -
  show ?client by (cases r) (auto split: prod.splits)
  show ?none by (cases r) (auto split: prod.splits)
qed

lemma rpc_sim:
  assumes "serve_unary E md rq cs = Ret (reply, cs')"
  shows "(access_step (request_actor E md rq cs))\<^sup>*\<^sup>* (access_of cs v) (access_of cs' v)"
proof (cases "needs_token rq")
  case False
  with assms have r: "run_handler_for E None rq cs = Ret (reply, cs')"
    by (simp add: serve_unary_def authInterceptor_auth del: full_method.simps)
  from False r show ?thesis
    by (cases rq) (auto simp: request_actor_def map_ret_eq intro: InitAuth_sim GuestLogin_sim Login_sim UnitSelect_sim)
next
  case True
  from assms obtain i cs1 where i: "authInterceptor E (full_method rq) md cs = Ret (i, cs1)"
    and r: "(case i of Denied d \<Rightarrow> Ret (ReDenied d, cs1) | NoAuthentication \<Rightarrow> run_handler_for E None rq cs1
       | ClientId guid \<Rightarrow> run_handler_for E (Some guid) rq cs1) = Ret (reply, cs')"
    by (auto simp: serve_unary_def bind_outcome_eq_Ret)
  have same: "access_of cs1 v = access_of cs v" using authInterceptor_frame [OF True i] by (intro access_same) simp_all
  show ?thesis
  proof (cases i)
    case (Denied d)
    with r same show ?thesis by simp
  next
    case NoAuthentication
    with i show ?thesis by (auto simp: authInterceptor_srs [OF True] case_option_eq map_ret_eq intercepted_iff)
  next
    case (ClientId guid)
    with i obtain token role ks where "bearer md = Some token"
      "check_token (en_crypto E) (en_now E) token 0 cs = Ret (Inr (guid, role), ks)"
      by (auto simp: authInterceptor_srs [OF True] case_option_eq map_ret_eq intercepted_iff)
    moreover from ClientId r have "run_handler_for E (Some guid) rq cs1 = Ret (reply, cs')" by simp
    note handler_sim [OF True this, of v, unfolded same]
    ultimately show ?thesis using True by (auto simp: request_actor_def split: if_splits)
  qed
qed

text \<open>The administrator, the clean-ups and the datagrams.\<close>

lemma stale_sim: "(access_step Clock)\<^sup>*\<^sup>* (access_of cs v) (access_of (stale_round now gs cs) v)"
proof (induction gs arbitrary: cs)
  case (Cons g gs)
  let ?cs = "cs\<lparr>cs_state := cleanupClientState g (cs_state cs), cs_streams := cs_streams cs - {g}\<rparr>"
  have "access_step Clock (access_of cs v) (access_of ?cs v)"
    by (simp add: access_of_acc members_cleanup acc_steps(6))
  from converse_rtranclp_into_rtranclp [of "access_step Clock", OF this Cons [of ?cs]] Cons [of cs] show ?case by simp
qed simp

lemma admin_same:
  assumes "Clients (app_server a') = Clients (app_server a)" and "cs_auth (ap_control a') = cs_auth (ap_control a)"
  shows "access_of (ap_control a') v = access_of (ap_control a) v"
  using assms by (intro access_same) simp_all

lemma admin_gone:
  assumes "Clients (app_server a') = Clients (app_server a) \<or>
      (\<exists>g. Clients (app_server a') = gdel (Clients (app_server a)) g)"
    and "cs_auth (ap_control a') = cs_auth (ap_control a)"
  shows "(access_step Administrator)\<^sup>*\<^sup>* (access_of (ap_control a) v) (access_of (ap_control a') v)"
  using assms(1)
proof (elim disjE exE)
  assume "Clients (app_server a') = Clients (app_server a)"
  from admin_same [OF this assms(2)] show ?thesis by simp
next
  fix g assume "Clients (app_server a') = gdel (Clients (app_server a)) g"
  then have "members_of (app_server a') = (members_of (app_server a))(g := None)"
    by (intro members_gdel) (simp add: gomap_simps)
  with assms(2) show ?thesis by (simp add: access_of_acc access_one [OF acc_steps(6)])
qed

lemma admin_clients:
  "Clients (app_server (BanClient V s r a)) = Clients (app_server a) \<or>
     (\<exists>g. Clients (app_server (BanClient V s r a)) = gdel (Clients (app_server a)) g)"
  "Clients (app_server (KickClient V s r a)) = Clients (app_server a) \<or>
     (\<exists>g. Clients (app_server (KickClient V s r a)) = gdel (Clients (app_server a)) g)"
  "Clients (app_server (UnbanClient V s a)) = Clients (app_server a)"
  "Clients (app_server (MuteClient V s a)) = Clients (app_server a)"
  "Clients (app_server (UnmuteClient V s a)) = Clients (app_server a)"
  by (auto simp: BanClient_def KickClient_def UnbanClient_def MuteClient_def UnmuteClient_def set_muted_def
      save_bans_eq Let_def admin_simps set_banned_def split: option.split)

lemmas admin_sim =
  admin_gone [OF admin_clients(1) admin_demotes(1) [THEN conjunct2]]
  admin_gone [OF admin_clients(2) admin_demotes(3) [THEN conjunct2]]
  admin_gone [OF disjI1, OF admin_clients(3) admin_demotes(2) [THEN conjunct2]]
  admin_gone [OF disjI1, OF admin_clients(4) admin_demotes(4) [THEN conjunct2]]
  admin_gone [OF disjI1, OF admin_clients(5) admin_demotes(5) [THEN conjunct2]]

lemma datagram_sim:
  "(access_step Sender)\<^sup>*\<^sup>* (access_of cs v)
     (access_of cs (fst (handlePacket L order now ss (cs_state cs) d addr v)))"
proof -
  let ?v = "fst (handlePacket L order now ss (cs_state cs) d addr v)"
  have "dom (v_clients ?v) \<subseteq> dom (v_clients v) \<or>
      (\<exists>g. DoesClientExist g (cs_state cs) \<and> dom (v_clients ?v) = insert g (dom (v_clients v)))"
    by (auto simp: handlePacket_def handleHelloPacket_def handleVoicePacket_def handleGoodbyePacket_def
        handleKeepalivePacket_def DisconnectClient_def Let_def split: sum.splits option.splits)
  then show ?thesis
  proof (elim disjE exE conjE)
    assume "dom (v_clients ?v) \<subseteq> dom (v_clients v)"
    then show ?thesis unfolding access_of_acc by (intro access_one acc_steps(9)) simp_all
  next
    fix g assume "DoesClientExist g (cs_state cs)" and eq: "dom (v_clients ?v) = insert g (dom (v_clients v))"
    then have "members_of (cs_state cs) g \<noteq> None" by (simp add: DoesClientExist_def members_of_def)
    then show ?thesis unfolding access_of_acc eq by (intro access_one acc_steps(8))
  qed
qed

lemma voice_cleanup_sim: "(access_step Clock)\<^sup>*\<^sup>* (access_of cs v) (access_of cs (cleanup order now v))"
proof -
  have "dom (v_clients (cleanup order now v)) \<subseteq> dom (v_clients v)"
    by (auto simp: cleanup_def Let_def sweep_entries_apply split: if_splits)
  then show ?thesis unfolding access_of_acc by (intro access_one acc_steps(9)) simp_all
qed

lemma sys_step_sim:
  assumes "sys_step ev s = Ret (o1, s')"
  shows "(access_step (event_actor ev s))\<^sup>*\<^sup>* (sys_access s) (sys_access s')"
proof (cases ev)
  case (Rpc E md rq)
  with assms show ?thesis by (auto simp: sys_access_def map_ret_eq on_app_def intro: rpc_sim)
next
  case (StaleRound now gs)
  with assms show ?thesis by (auto simp: sys_access_def on_app_def upd_control_def stale_sim)
next
  case (Datagram L order now d addr)
  with assms show ?thesis
    using datagram_sim [of "ap_control (sy_app s)" "sy_voice s"] by (auto simp: sys_access_def split_beta Let_def)
next
  case (VoiceCleanup order now)
  with assms show ?thesis by (auto simp: sys_access_def voice_cleanup_sim)
next
  case (AdminSettings V op)
  with assms show ?thesis
    using admin_same [OF _ settings_auth, of op V "sy_app s"] saved.op_server [of op V "sy_app s"]
    by (auto simp: sys_access_def on_app_def)
qed (use assms in \<open>auto simp: sys_access_def on_app_def intro: admin_sim\<close>)

lemma sys_runs_sim:
  "sys_runs es s = Ret (os, s') \<Longrightarrow> access_run (session_actors es s) (sys_access s) (sys_access s')"
proof (induction es arbitrary: s os)
  case (Cons e es)
  from Cons.prems obtain o1 s1 os' where 1: "sys_step e s = Ret (o1, s1)" and 2: "sys_runs es s1 = Ret (os', s')"
    by (auto simp: bind_outcome_eq_Ret map_ret_eq)
  from access_run.act [OF sys_step_sim [OF 1] Cons.IH [OF 2]] 1 show ?case by simp
qed (simp add: access_run.stop)

subsection \<open>Property\<close>

text \<open>
  C3: Access control. Every session is a run of the abstract machine, each event a number of steps of
  the one actor it belongs to. So a request changes who is connected, and in which role, only on behalf
  of the client its verified token names, and then only that client's entry, downwards; only an
  anonymous login adds clients, as guests or in a role a plugin offered for a pending identifier, which
  it uses up; a refused request does nothing; and only datagrams decide whom the voice server relays to,
  among the connected clients.
\<close>

theorem session_refines_access_control:
  "sys_runs es s = Ret (os, s') \<Longrightarrow>
   access_run (session_actors es s) (sys_access s) (sys_access s') \<and> length (session_actors es s) = length es"
proof -
  assume r: "sys_runs es s = Ret (os, s')"
  then have "length (session_actors es s) = length es"
    by (induction es arbitrary: s os) (auto simp: bind_outcome_eq_Ret map_ret_eq)
  with sys_runs_sim [OF r] show ?thesis by blast
qed

theorem session_refines_access_control_witness:
  "\<exists>os s'. sys_runs sample_session sample_system = Ret (os, s') \<and>
     access_run (session_actors sample_session sample_system) (sys_access sample_system) (sys_access s') \<and>
     members (sys_access sample_system) = Map.empty \<and> members (sys_access s') 2 = Some GuestRole \<and> 2 \<in> relayed (sys_access s')"
proof -
  obtain os s' c where r: "sys_runs sample_session sample_system = Ret (os, s')"
    and c: "gget (Clients (app_server (sy_app s'))) 2 = Some c" "c_Role c = 0" "v_clients (sy_voice s') 2 \<noteq> None"
    using sample_runs by fastforce
  have "members (sys_access sample_system) = Map.empty"
    using sample_fresh by (simp add: fresh_system_def sys_access_def access_of_def members_of_def)
  with session_refines_access_control [OF r] r c show ?thesis
    by (auto simp: sys_access_def access_of_def members_of_def GuestRole_def)
qed

end
