(* ===== verification/Conversation.thy ===== *)
theory Conversation
  imports AccessControl
begin

text \<open>
  The parts working together: what it takes for one client to hear another, from the requests and
  datagrams of the two to the datagram that reaches the listener.
\<close>

text \<open>A verified request of a client to replace its radios, told by its answer.\<close>

lemma radio_request:
  assumes "serve_unary E md (CallUpdateRadioInfo ri) cs = Ret (ReSrs Done, cs')"
  obtains token guid role ks g where "bearer md = Some token"
    "check_token (en_crypto E) (en_now E) token 0 cs = Ret (Inr (guid, role), ks)" "uuid_parse (en_uuid E) guid = Some g"
    "cs_state cs' = (cs_state cs)\<lparr>RadioClients := gadjust (RadioClients (cs_state cs)) g (\<lambda>_. convertRadioInfo ri)\<rparr>"
    "gget (RadioClients (cs_state cs)) g \<noteq> None" "cs_settings cs' = cs_settings cs"
proof -
  have n: "needs_token (CallUpdateRadioInfo ri)" by simp
  from serve_unary_srs [OF n assms] obtain token guid role ks where t: "bearer md = Some token"
    "check_token (en_crypto E) (en_now E) token 0 cs = Ret (Inr (guid, role), ks)"
    and "run_handler_for E (Some guid) (CallUpdateRadioInfo ri) (cs\<lparr>cs_keys := ks\<rparr>) = Ret (ReSrs Done, cs')"
    by blast
  then obtain g where "uuid_parse (en_uuid E) guid = Some g"
    "cs_state cs' = (cs_state cs)\<lparr>RadioClients := gadjust (RadioClients (cs_state cs)) g (\<lambda>_. convertRadioInfo ri)\<rparr>"
    "gget (RadioClients (cs_state cs)) g \<noteq> None" "cs_settings cs' = cs_settings cs"
    by (auto simp: map_ret_eq UpdateRadioInfo_def with_client_Ret split: if_splits)
  with t show ?thesis by (rule that)
qed

lemma sys_runs_Cons:
  "sys_runs (e # es) s = Ret (os, s') \<longleftrightarrow>
     (\<exists>o1 s1 os'. sys_step e s = Ret (o1, s1) \<and> sys_runs es s1 = Ret (os', s') \<and> os = o1 # os')"
  by (auto simp: bind_outcome_eq_Ret map_ret_eq)

text \<open>What a datagram is.\<close>

definition says_hello :: "uuid_lib \<Rightarrow> byte list \<Rightarrow> uuid \<Rightarrow> bool" where
  "says_hello L d g \<longleftrightarrow> (\<exists>p. ParsePacket L d = Inr p \<and> PType p = PacketTypeHello \<and> SenderID p = g)"

definition speaks_on :: "uuid_lib \<Rightarrow> byte list \<Rightarrow> uuid \<Rightarrow> float32 \<Rightarrow> bool" where
  "speaks_on L d g f \<longleftrightarrow> (\<exists>p. ParsePacket L d = Inr p \<and> PType p = PacketTypeVoice \<and> SenderID p = g \<and>
     FrequencyAsFloat32 p = f)"

text \<open>A hello of a connected client, as a step of the whole.\<close>

lemma hello_step:
  assumes "v_running (sy_voice s)" and "says_hello L d g" and "DoesClientExist g (app_server (sy_app s))"
  shows "sys_step (Datagram L order now d a) s =
    Ret ((None, [SendUDP (SerializePacket L (NewVCSHelloAckPacket g)) a]),
      s\<lparr>sy_voice := (sy_voice s)\<lparr>v_clients := (v_clients (sy_voice s))(g \<mapsto> \<lparr>v_Addr = a, v_LastSeen = now\<rparr>)\<rparr>\<rparr>)"
  using assms by (auto simp: says_hello_def handle_hello_eq handleHelloPacket_def)

lemma tuned_convert:
  "tuned (Radios (convertRadioInfo ri)) f \<longleftrightarrow>
     (\<exists>r. find (\<lambda>r. f32_eq (pr_Frequency r) f) (pri_Radios ri) = Some r \<and> pr_Enabled r)"
proof -
  have "find (\<lambda>r. f32_eq (r_Frequency r) f) (map convertSingleRadioState rs) =
      map_option convertSingleRadioState (find (\<lambda>r. f32_eq (pr_Frequency r) f) rs)" for rs
    by (induction rs) (auto simp: convertSingleRadioState_def)
  then show ?thesis by (auto simp: tuned_iff convertRadioInfo_def convertSingleRadioState_def)
qed

subsection \<open>Property\<close>

text \<open>
  C4: A conversation. Take two connected clients, whatever their coalitions. The listener sets its
  radios with a request its token authorises, the first one on the frequency switched on; both say
  hello, each from its own address. Then the next voice packet of the speaker on that frequency, if it
  is no test frequency, is relayed byte for byte to the listener's address.
\<close>

theorem conversation:
  "uuid_lib_ok L \<Longrightarrow> v_running (sy_voice s) \<Longrightarrow> listener \<noteq> speaker \<Longrightarrow>
   DoesClientExist listener (app_server (sy_app s)) \<Longrightarrow> DoesClientExist speaker (app_server (sy_app s)) \<Longrightarrow>
   request_actor E md (CallUpdateRadioInfo ri) (ap_control (sy_app s)) = Client listener \<Longrightarrow>
   find (\<lambda>r. f32_eq (pr_Frequency r) f) (pri_Radios ri) = Some radio \<Longrightarrow> pr_Enabled radio \<Longrightarrow>
   \<not> IsFrequencyTest f (app_settings (sy_app s)) \<Longrightarrow>
   says_hello L d1 listener \<Longrightarrow> says_hello L d2 speaker \<Longrightarrow> speaks_on L d3 speaker f \<Longrightarrow>
   iter_order o3 (gget (Clients (app_server (sy_app s)))) \<Longrightarrow>
   sys_runs [Rpc E md (CallUpdateRadioInfo ri), Datagram L o1 t1 d1 a1, Datagram L o2 t2 d2 a2,
     Datagram L o3 t3 d3 a3] s = Ret (os, s') \<Longrightarrow>
   fst (os ! 0) = Some (ReSrs Done) \<Longrightarrow> SendUDP d3 a1 \<in> set (snd (os ! 3))"
proof -
  assume L: "uuid_lib_ok L" and run: "v_running (sy_voice s)" and ne: "listener \<noteq> speaker"
    and ex: "DoesClientExist listener (app_server (sy_app s))" "DoesClientExist speaker (app_server (sy_app s))"
    and act: "request_actor E md (CallUpdateRadioInfo ri) (ap_control (sy_app s)) = Client listener"
    and radio: "find (\<lambda>r. f32_eq (pr_Frequency r) f) (pri_Radios ri) = Some radio" "pr_Enabled radio"
    and nt: "\<not> IsFrequencyTest f (app_settings (sy_app s))"
    and d: "says_hello L d1 listener" "says_hello L d2 speaker" "speaks_on L d3 speaker f"
    and o3: "iter_order o3 (gget (Clients (app_server (sy_app s))))"
    and r: "sys_runs [Rpc E md (CallUpdateRadioInfo ri), Datagram L o1 t1 d1 a1, Datagram L o2 t2 d2 a2,
       Datagram L o3 t3 d3 a3] s = Ret (os, s')"
    and answer: "fst (os ! 0) = Some (ReSrs Done)"
  from r obtain x1 s1 os1 where r1: "sys_step (Rpc E md (CallUpdateRadioInfo ri)) s = Ret (x1, s1)"
    and r2: "sys_runs [Datagram L o1 t1 d1 a1, Datagram L o2 t2 d2 a2, Datagram L o3 t3 d3 a3] s1 = Ret (os1, s')"
    and os: "os = x1 # os1" unfolding sys_runs_Cons by blast
  from r1 answer os obtain cs where rpc: "serve_unary E md (CallUpdateRadioInfo ri) (ap_control (sy_app s)) = Ret (ReSrs Done, cs)"
    and s1: "s1 = on_app (\<lambda>a. a\<lparr>ap_control := cs\<rparr>) s"
    by (auto simp: map_ret_eq)
  obtain token guid role ks g where tok: "bearer md = Some token"
      "check_token (en_crypto E) (en_now E) token 0 (ap_control (sy_app s)) = Ret (Inr (guid, role), ks)"
      "uuid_parse (en_uuid E) guid = Some g"
    and st0: "cs_state cs = (app_server (sy_app s))\<lparr>RadioClients :=
      gadjust (RadioClients (app_server (sy_app s))) g (\<lambda>_. convertRadioInfo ri)\<rparr>"
    and rad0: "gget (RadioClients (app_server (sy_app s))) g \<noteq> None" and ss: "cs_settings cs = app_settings (sy_app s)"
    by (rule radio_request [OF rpc])
  have g: "g = listener" using act tok by (simp add: request_actor_def)
  note st = st0 [unfolded g] and rad = rad0 [unfolded g]
  let ?v = "(sy_voice s)\<lparr>v_clients := (v_clients (sy_voice s))(listener \<mapsto> \<lparr>v_Addr = a1, v_LastSeen = t1\<rparr>,
      speaker \<mapsto> \<lparr>v_Addr = a2, v_LastSeen = t2\<rparr>)\<rparr>"
  have ex': "DoesClientExist listener (cs_state cs)" "DoesClientExist speaker (cs_state cs)"
    using ex by (simp_all add: st DoesClientExist_def)
  from d(3) obtain p where p: "ParsePacket L d3 = Inr p" "PType p = PacketTypeVoice" "SenderID p = speaker" "FrequencyAsFloat32 p = f"
    by (auto simp: speaks_on_def)
  have outs: "snd (os ! 3) = snd (handlePacket L o3 t3 (cs_settings cs) (cs_state cs) d3 a3 ?v)"
  proof -
    let ?s2 = "s1\<lparr>sy_voice := (sy_voice s)\<lparr>v_clients := (v_clients (sy_voice s))(listener \<mapsto> \<lparr>v_Addr = a1, v_LastSeen = t1\<rparr>)\<rparr>\<rparr>"
    let ?s3 = "s1\<lparr>sy_voice := ?v\<rparr>"
    have f: "app_server (sy_app s1) = cs_state cs" "sy_voice s1 = sy_voice s" by (simp_all add: s1 on_app_def)
    have h1: "sys_step (Datagram L o1 t1 d1 a1) s1 = Ret ((None, [SendUDP (SerializePacket L (NewVCSHelloAckPacket listener)) a1]), ?s2)"
      using hello_step [of s1, OF _ d(1)] run ex' by (simp add: f)
    have h2: "sys_step (Datagram L o2 t2 d2 a2) ?s2 = Ret ((None, [SendUDP (SerializePacket L (NewVCSHelloAckPacket speaker)) a2]), ?s3)"
      using hello_step [of ?s2, OF _ d(2)] run ex' by (simp add: f)
    from r2 obtain x2 sa os2 where a: "sys_step (Datagram L o1 t1 d1 a1) s1 = Ret (x2, sa)" "os1 = x2 # os2"
      and r3: "sys_runs [Datagram L o2 t2 d2 a2, Datagram L o3 t3 d3 a3] sa = Ret (os2, s')"
      unfolding sys_runs_Cons [of "Datagram L o1 t1 d1 a1"] by blast
    from a(1) h1 have "sa = ?s2" by simp
    from r3 [unfolded this] obtain x3 sb os3 where b: "sys_step (Datagram L o2 t2 d2 a2) ?s2 = Ret (x3, sb)" "os2 = x3 # os3"
      and r4: "sys_runs [Datagram L o3 t3 d3 a3] sb = Ret (os3, s')"
      unfolding sys_runs_Cons [of "Datagram L o2 t2 d2 a2"] by blast
    from b(1) h2 have "sb = ?s3" by simp
    with r4 obtain x4 s4 where "os1 = [x2, x3, x4]" "sys_step (Datagram L o3 t3 d3 a3) ?s3 = Ret (x4, s4)"
      unfolding sys_runs_Cons using a(2) b(2) by auto
    then show ?thesis by (auto simp: os f s1 on_app_def split_beta Let_def)
  qed
  have "hears (cs_state cs) ?v speaker f listener \<lparr>v_Addr = a1, v_LastSeen = t1\<rparr>"
    using ne ex' rad radio by (auto simp: hears_def st gomap_simps tuned_convert)
  moreover have "set (snd (handlePacket L o3 t3 (cs_settings cs) (cs_state cs) d3 a3 ?v)) =
      {SendUDP d3 (v_Addr c) | u c. hears (cs_state cs) ?v speaker f u c}"
    using relay_set [OF L _ p(1,2), of ?v "\<lparr>v_Addr = a2, v_LastSeen = t2\<rparr>" "cs_settings cs" o3 "cs_state cs" t3 a3]
      run nt o3 p(3,4) by (simp add: ss st)
  ultimately show ?thesis unfolding outs by force
qed

definition two_clients :: "float32 \<Rightarrow> system" where
  "two_clients f = \<lparr>sy_app = sample_app\<lparr>ap_control := sample_control\<lparr>cs_state := sample_server f\<rparr>\<rparr>,
     sy_voice = voice_bind NewVoiceServer\<rparr>"

definition one_radio :: "float32 \<Rightarrow> pb_radio_info" where
  "one_radio f = \<lparr>pri_Radios = [\<lparr>pr_Id = 1, pr_Name = ''VHF'', pr_Frequency = f, pr_Enabled = True, pr_IsIntercom = False\<rparr>],
     pri_Muted = False, pri_LastUpdate = None\<rparr>"

lemma sample_token:
  "\<exists>token. check_token sample_crypto 0 token 0 (sample_control\<lparr>cs_state := st\<rparr>) =
     Ret (Inr (uuid_string sample_uuid_lib 1, 0), cs_keys sample_control)"
proof -
  let ?cs = "sample_control\<lparr>cs_state := st\<rparr>" and ?g = "uuid_string sample_uuid_lib 1"
  obtain s where i: "issue_token hash_env ?g 0 ?cs = Ret (Inr s, ?cs)"
    unfolding hash_env_def by (atomize_elim, rule sample_issue) simp
  have "crypto_lib_ok (en_crypto hash_env)" using sample_crypto_ok by (simp add: hash_env_def)
  moreover have "cached (cs_keys ?cs) = Some (7, ec_public (en_crypto hash_env) 7)" by (simp add: hash_env_def)
  moreover have "token_expiry hash_env ?cs = token_expiry hash_env sample_control" by (simp add: token_expiry_def)
  then have "0 < token_expiry hash_env ?cs"
    using sample_expiry less_trans [OF second_pos] unfolding hash_env_def by metis
  ultimately have "check_token (en_crypto hash_env) 0 s 0 ?cs = Ret (Inr (?g, 0), cs_keys ?cs)"
    using issue_token_checks [OF _ i] by simp
  then show ?thesis by (auto simp: hash_env_def)
qed

lemma datagram_returns: "\<exists>o1 s1. sys_step (Datagram L order now d a) s = Ret (o1, s1)"
  by (simp add: split_beta Let_def)

theorem conversation_witness:
  "\<exists>f d2 d3 md os s'. sys_runs [Rpc hash_env md (CallUpdateRadioInfo (one_radio f)),
       Datagram sample_uuid_lib [1, 2] 1 (SerializePacket sample_uuid_lib ((NewVCSHelloAckPacket 1)\<lparr>PType := PacketTypeHello\<rparr>)) (UDPAddr ''10.0.0.1'' 4000),
       Datagram sample_uuid_lib [1, 2] 2 d2 (UDPAddr ''10.0.0.2'' 4000),
       Datagram sample_uuid_lib [1, 2] 3 d3 (UDPAddr ''10.0.0.2'' 4000)] (two_clients f) = Ret (os, s') \<and>
     SendUDP d3 (UDPAddr ''10.0.0.1'' 4000) \<in> set (snd (os ! 3))"
proof -
  let ?L = sample_uuid_lib and ?p = "NewVCSVoicePacket 2 0 145500 [0xF8]"
  let ?f = "FrequencyAsFloat32 ?p" and ?h = "\<lambda>g. SerializePacket sample_uuid_lib ((NewVCSHelloAckPacket g)\<lparr>PType := PacketTypeHello\<rparr>)"
  let ?d = "SerializePacket ?L ?p" and ?s = "two_clients (FrequencyAsFloat32 ?p)"
  have fin: "?f \<noteq> NaN32"
    using khz_as_f32_eq [of 145500] by (simp add: FrequencyAsFloat32_def khz_as_f32_def NewVCSVoicePacket_def)
  have hello: "says_hello ?L (?h g) g" for g
  proof -
    have "ParsePacket ?L (?h g) = Inr ((NewVCSHelloAckPacket g)\<lparr>PType := PacketTypeHello\<rparr>)"
      by (rule ParsePacket_SerializePacket) (simp_all add: sample_uuid_lib_ok wf_packet_def NewVCSHelloAckPacket_def
          MagicVCS_def packet_type_defs)
    then show ?thesis by (simp add: says_hello_def NewVCSHelloAckPacket_def)
  qed
  have "ParsePacket ?L ?d = Inr ?p" by (rule ParsePacket_SerializePacket) (simp_all add: sample_uuid_lib_ok)
  then have speak: "speaks_on ?L ?d 2 ?f" by (simp add: speaks_on_def) (simp add: NewVCSVoicePacket_def)
  obtain token where t: "check_token sample_crypto 0 token 0 (ap_control (sy_app ?s)) =
      Ret (Inr (uuid_string ?L 1, 0), cs_keys sample_control)" using sample_token by (auto simp: two_clients_def)
  let ?md = "bearer_header token" and ?rq = "CallUpdateRadioInfo (one_radio ?f)"
  have t': "check_token (en_crypto hash_env) (en_now hash_env) token 0 (ap_control (sy_app ?s)) =
      Ret (Inr (uuid_string ?L 1, 0), cs_keys sample_control)" using t by (simp add: hash_env_def)
  have act: "request_actor hash_env ?md ?rq (ap_control (sy_app ?s)) = Client 1"
    using t' by (simp add: request_actor_def) (simp add: hash_env_def)
  have "\<exists>cs. serve_unary hash_env ?md ?rq (ap_control (sy_app ?s)) = Ret (ReSrs Done, cs)"
    using serve_unary_accepted [OF _ bearer_header t', of ?rq]
    by (simp add: UpdateRadioInfo_def with_client_def hash_env_def two_clients_def sample_server_def)
  then obtain s1 where r1: "sys_step (Rpc hash_env ?md ?rq) ?s = Ret ((Some (ReSrs Done), []), s1)"
    by (auto simp del: full_method.simps)
  obtain x2 s2 where r2: "sys_step (Datagram ?L [1, 2] 1 (?h 1) (UDPAddr ''10.0.0.1'' 4000)) s1 = Ret (x2, s2)"
    using datagram_returns by blast
  obtain x3 s3 where r3: "sys_step (Datagram ?L [1, 2] 2 (?h 2) (UDPAddr ''10.0.0.2'' 4000)) s2 = Ret (x3, s3)"
    using datagram_returns by blast
  obtain x4 s4 where r4: "sys_step (Datagram ?L [1, 2] 3 ?d (UDPAddr ''10.0.0.2'' 4000)) s3 = Ret (x4, s4)"
    using datagram_returns by blast
  have r: "sys_runs [Rpc hash_env ?md ?rq, Datagram ?L [1, 2] 1 (?h 1) (UDPAddr ''10.0.0.1'' 4000),
      Datagram ?L [1, 2] 2 (?h 2) (UDPAddr ''10.0.0.2'' 4000), Datagram ?L [1, 2] 3 ?d (UDPAddr ''10.0.0.2'' 4000)] ?s =
      Ret ([(Some (ReSrs Done), []), x2, x3, x4], s4)"
    unfolding sys_runs_Cons using r1 r2 r3 r4 by simp
  have "\<not> IsFrequencyTest ?f (app_settings (sy_app ?s))"
    by (simp add: two_clients_def sample_settings_def IsFrequencyTest_def default_settings_def f32_contains_def)
  moreover have "iter_order [1, 2] (gget (Clients (app_server (sy_app ?s))))"
    using sample_order by (simp add: two_clients_def)
  moreover have "v_running (sy_voice ?s)" "DoesClientExist 1 (app_server (sy_app ?s))" "DoesClientExist 2 (app_server (sy_app ?s))"
    by (simp_all add: two_clients_def voice_bind_def DoesClientExist_def sample_server_def)
  moreover have "find (\<lambda>r. f32_eq (pr_Frequency r) ?f) (pri_Radios (one_radio ?f)) = Some (hd (pri_Radios (one_radio ?f)))"
    "pr_Enabled (hd (pri_Radios (one_radio ?f)))" using fin by (simp_all add: one_radio_def)
  ultimately have "SendUDP ?d (UDPAddr ''10.0.0.1'' 4000) \<in> set (snd ([(Some (ReSrs Done), []), x2, x3, x4] ! 3))"
    by (intro conversation [OF sample_uuid_lib_ok _ _ _ _ act _ _ _ hello hello speak _ r]) simp_all
  with r show ?thesis by blast
qed

end
