(* ===== verification/Rest.thy ===== *)
theory Rest
  imports Prelude
begin

text \<open>
  The HTTP interface, \<^verbatim>\<open>rest/router.go\<close> and \<^verbatim>\<open>utils/rest.go\<close>: a router with two middlewares and one
  route. A handler of the \<^verbatim>\<open>gin\<close> framework transforms the response; a middleware gets the rest of the
  chain and runs it where the code calls \<open>c.Next()\<close>. What the framework answers to a request no route
  takes is a parameter. The measured duration of a request is logged only and left out.
\<close>

subsection \<open>Requests and responses\<close>

record http_request =
  hr_method :: string
  hr_path :: string

datatype log_level = LogInfo | LogWarn | LogError

record http_response =
  hs_status :: nat
  hs_headers :: "string \<rightharpoonup> string"
  hs_body :: "(string \<times> string) list option"
  hs_log :: "log_level list"

type_synonym http_handler = "http_request \<Rightarrow> http_response \<Rightarrow> http_response"

text \<open>What a response is before any handler ran.\<close>

definition new_response :: http_response where
  "new_response = \<lparr>hs_status = 200, hs_headers = Map.empty, hs_body = None, hs_log = []\<rparr>"

definition set_header :: "string \<Rightarrow> string \<Rightarrow> http_response \<Rightarrow> http_response" where
  "set_header k v w = w\<lparr>hs_headers := (hs_headers w)(k \<mapsto> v)\<rparr>"

subsection \<open>Middlewares\<close>

definition LogMiddleware :: "http_handler \<Rightarrow> http_handler" where
  "LogMiddleware next_h rq w =
     (let w1 = next_h rq w;
          level = (if 500 \<le> hs_status w1 then LogError else if 400 \<le> hs_status w1 then LogWarn else LogInfo)
      in w1\<lparr>hs_log := hs_log w1 @ [level]\<rparr>)"

record cors_options =
  Origin :: string

definition CORS :: "cors_options \<Rightarrow> http_handler \<Rightarrow> http_handler" where
  "CORS options next_h rq w =
     (let w1 = set_header ''Access-Control-Allow-Origin'' ''*'' w;
          w2 = (if Origin options \<noteq> [] then set_header ''Access-Control-Allow-Origin'' (Origin options) w1 else w1);
          w3 = set_header ''Access-Control-Max-Age'' ''86400'' w2;
          w4 = set_header ''Access-Control-Allow-Methods'' ''POST, GET, OPTIONS, PUT, DELETE, UPDATE'' w3;
          w5 = set_header ''Access-Control-Allow-Headers'' ''Origin, Content-Type, Content-Length, Accept-Encoding, X-CSRF-Token, Authorization, Date, Baggage, Sentry-Trace, User-Agent, X-Requested-With, X-Forwarded-For, X-Forwarded-Proto, X-Forwarded-Port, X-Forwarded-Host'' w4;
          w6 = set_header ''Access-Control-Expose-Headers'' ''Content-Length'' w5;
          w7 = set_header ''Access-Control-Allow-Credentials'' ''true'' w6
      in if hr_method rq = ''OPTIONS'' then w7\<lparr>hs_status := 200\<rparr> else next_h rq w7)"

subsection \<open>Router\<close>

definition api_root :: http_handler where
  "api_root rq w = w\<lparr>hs_status := 200,
     hs_body := Some [(''version'', ''1.0.0''), (''status'', ''success''), (''message'', ''API is running'')]\<rparr>"

definition GetRouter :: "http_handler \<Rightarrow> http_handler" where
  "GetRouter unrouted =
     LogMiddleware (CORS \<lparr>Origin = ''*''\<rparr>
       (\<lambda>rq w. if hr_method rq = ''GET'' \<and> hr_path rq = ''/api/v1/'' then api_root rq w else unrouted rq w))"

subsection \<open>Properties\<close>

text \<open>
  What the HTTP interface answers. A preflight request to any path is answered with status 200 and
  reaches no route; the one route answers with its fixed body; every other request gets the answer of
  the framework. Each request is logged once, at the level of its status, and answers that leave the
  headers alone allow every origin together with credentials.
\<close>

theorem rest_answers:
  "(if hr_method rq = ''OPTIONS'' then
      hs_status (GetRouter unrouted rq new_response) = 200 \<and> hs_body (GetRouter unrouted rq new_response) = None
    else if hr_method rq = ''GET'' \<and> hr_path rq = ''/api/v1/'' then
      hs_status (GetRouter unrouted rq new_response) = 200 \<and>
      map_of (the (hs_body (GetRouter unrouted rq new_response))) ''status'' = Some ''success''
    else \<exists>w. hs_status (GetRouter unrouted rq new_response) = hs_status (unrouted rq w) \<and>
      hs_body (GetRouter unrouted rq new_response) = hs_body (unrouted rq w)) \<and>
   (if hr_method rq = ''OPTIONS'' \<or> hr_method rq = ''GET'' \<and> hr_path rq = ''/api/v1/'' then
      hs_headers (GetRouter unrouted rq new_response) ''Access-Control-Allow-Origin'' = Some ''*'' \<and>
      hs_headers (GetRouter unrouted rq new_response) ''Access-Control-Allow-Credentials'' = Some ''true'' \<and>
      hs_log (GetRouter unrouted rq new_response) = [LogInfo]
    else True)"
  by (auto simp: GetRouter_def LogMiddleware_def CORS_def api_root_def set_header_def new_response_def Let_def)

end
