(* ===== verification/Spec2Isabelle.thy ===== *)
theory Spec2Isabelle
  imports Prelude GoFloat Protocol Events Slices ServerState BanFile Settings Expiry VoiceServer VoiceListen Audio Tokens PluginClients AuthService AuthSafety SrsService ControlServer AppAdmin BansIgnored AppControl Flags Entry VoiceControl Session AccessControl Conversation Rest
begin

text \<open>
  Verification development of \<^verbatim>\<open>vcs-srs-server\<close>, the server of a voice communication system for
  simulated radios, written in Go.

  \<^bold>\<open>The program.\<close> A control server speaks gRPC: clients authenticate (as guests with a coalition
  password, or through an authentication plugin, another process behind gRPC), get a signed token, and
  with it read and change the shared client and radio tables. A voice server speaks UDP: clients say
  hello with their identifier and send voice packets, which it relays to the clients whose radios are on
  the packet's frequency. An application object starts and stops these two and an HTTP server; an
  administrator works on it through a GUI whose services forward to it, and an event bus carries changes
  to the GUI. Settings and bans live in two files, the token keys in two more. The same program runs
  without a GUI, also as a voice node that connects to a remote control node.

  \<^bold>\<open>Conventions.\<close> A Go function is one definition over explicit state, under its Go name where HOL
  leaves it free. A call returns, panics or blocks for ever on a mutex: \<open>'a outcome\<close> with \<open>Ret\<close>,
  \<open>Panics\<close> and \<open>Blocks\<close>; errors a function returns are values of its own error type. Machine integers
  are words, \<^verbatim>\<open>float32\<close> and \<^verbatim>\<open>float64\<close> are exact multiples of the least subnormal with rounding
  written out, times are integers of nanoseconds, strings are byte lists. A Go map is an \<open>option\<close> of a
  map, \<open>None\<close> for nil; reading a nil map is allowed and writing one panics. Ranging over a map visits
  its keys in an order that is an argument, constrained by \<open>iter_order\<close> only where a result depends
  on it.

  \<^bold>\<open>Theories and sources\<close> (paths below \<^verbatim>\<open>src/\<close>), in the order of their imports:

  \<^item> \<open>Prelude\<close>: words, outcomes, maps, time, identifiers, and the lemma collection the others use.
  \<^item> \<open>GoFloat\<close>: the floating-point operations of frequency conversion, up to their rounding.
  \<^item> \<open>Protocol\<close>, \<^verbatim>\<open>voice/protocol.go\<close>: packets, \<open>ParsePacket\<close>, \<open>SerializePacket\<close>, flags, frequencies.
    The locale \<open>packet_codec\<close> is what the voice server relies on, interpreted as \<open>vcs\<close>.
  \<^item> \<open>Events\<close>, \<^verbatim>\<open>events/\<close>: subscriptions, publish queue, publisher goroutine. Channels are addresses in a
    heap of queues of capacity 10; the locale \<open>lossy_channel\<close> is interpreted on the non-blocking send.
  \<^item> \<open>Slices\<close>, \<^verbatim>\<open>utils/slice.go\<close>: removal by moving the last element.
  \<^item> \<open>ServerState\<close>, \<^verbatim>\<open>state/server.go\<close>: clients, radios, who listens on a frequency; locale
    \<open>client_registry\<close>, interpreted as \<open>reg\<close>. \<open>BanFile\<close>: the ban list's file, over a model of files.
  \<^item> \<open>Settings\<close>, \<^verbatim>\<open>state/settings.go\<close> and \<^verbatim>\<open>services/coalitions.go\<close>: the configuration and its look-ups;
    the locale \<open>named_table\<close> is interpreted on plugins and on coalitions.
  \<^item> \<open>Expiry\<close>: the locale \<open>expiring_table\<close> of tables swept by age, interpreted on the voice clients and on
    the half-done logins.
  \<^item> \<open>VoiceServer\<close>, \<open>VoiceListen\<close>, \<open>Audio\<close>, \<^verbatim>\<open>voice/server.go\<close>: packet handlers, routing, clean-up and
    shutdown; the receive loop and the buffer its handlers share; playback of test transmissions.
  \<^item> \<open>Tokens\<close>, \<^verbatim>\<open>utils/auth.go\<close> and \<^verbatim>\<open>utils/general.go\<close>: keys, their files and cache, tokens, passwords.
  \<^item> \<open>PluginClients\<close>, \<^verbatim>\<open>srs/plugin_client.go\<close>: connection, configuration, login and reconnection.
  \<^item> \<open>AuthService\<close> and \<open>AuthSafety\<close>, \<^verbatim>\<open>srs/auth_service.go\<close>: the four authentication calls and their
    properties. \<open>SrsService\<close>, \<^verbatim>\<open>srs/srs_service.go\<close> and \<^verbatim>\<open>srs/utils.go\<close>: the six calls of connected
    clients and the clean-up of silent ones.
  \<^item> \<open>ControlServer\<close>, \<^verbatim>\<open>control/\<close> and \<^verbatim>\<open>voiceontrol/service.go\<close>: start, stop, health, the interceptor that
    checks tokens, and \<open>serve_unary\<close>, a request from the interceptor through its handler.
  \<^item> \<open>AppAdmin\<close>, \<^verbatim>\<open>app/clients.go\<close>, \<^verbatim>\<open>app/settings.go\<close>, \<^verbatim>\<open>services/\<close>: what the administrator does; the
    locale \<open>settings_operation\<close> is interpreted on its nine operations. \<open>BansIgnored\<close>: no request reads
    the bans.
  \<^item> \<open>AppControl\<close>, \<^verbatim>\<open>app/app.go\<close>, \<^verbatim>\<open>app/server_control.go\<close>: start of the program, start and stop of the
    servers with the goroutines they leave, and the step relation \<open>life_step\<close> of their interleavings.
  \<^item> \<open>Flags\<close> and \<open>Entry\<close>, \<^verbatim>\<open>shared.go\<close>, \<^verbatim>\<open>main.go\<close>, \<^verbatim>\<open>headless.go\<close>: the command line and the two programs.
  \<^item> \<open>VoiceControl\<close>, \<^verbatim>\<open>voiceontrol/client.go\<close> and \<^verbatim>\<open>utils.go\<close>: the link of a voice node to its control node.
  \<^item> \<open>Rest\<close>, \<^verbatim>\<open>rest/router.go\<close> and \<^verbatim>\<open>utils/rest.go\<close>: the HTTP interface.
  \<^item> \<open>Session\<close>: all of it together, over one state: a session is a list of requests, clean-up rounds,
    administrator's operations and datagrams, in any order. \<open>AccessControl\<close>: an abstract machine of who
    may log in, is connected and is relayed to, and the simulation of every session by it.
    \<open>Conversation\<close>: what two clients do for one to hear the other.

  \<^bold>\<open>What is shown.\<close> Access: no sequence of events gives a client a role above what a plugin offered it,
  every connected client logged in under an identifier the server drew, a request touches its caller's
  entries only, and all this is a refinement of the abstract machine. Authentication: what each of the
  four calls accepts, refuses, leaves in the table, and when it blocks the server or panics; tokens are
  accepted exactly until they expire, with the role they carry, and across restarts. Voice: parser and
  serialiser are inverse, a voice packet reaches exactly the connected clients that listen, byte for
  byte, and nobody else. Life of the program: when it starts, that stopping is safe after any history in
  which sockets close, and what goes wrong otherwise. Bus: bounded, and in order for a subscriber that
  keeps up. Administration: each operation changes its part, and a restart finds it. Where the code does
  not do what it means to, a theorem states what it does: a guest login with a wrong password locks the
  service for ever, subscriptions panic so that silent clients stay, bans are never enforced, hellos are
  not authenticated, overlapping starts leave a server nobody can stop, handlers share the receive
  buffer.

  \<^bold>\<open>Bounds.\<close> No definition needs fuel: loops end by structure or by a measure (\<open>Parse\<close> on the number of
  arguments, the reconnection on its 20 attempts, which sleep 1791 seconds in all). Loops that run for
  as long as the server does are one step per round, under a relation or a list of events. Constants are
  those of the code: channels of 10 events, half-done logins of 20 and 5 minutes, 10 minutes to a silent
  subscriber's removal, one minute to a silent voice client's.

  \<^bold>\<open>Assumptions.\<close> Code outside the repository is a parameter: identifiers (\<open>uuid_lib\<close>), elliptic curves,
  PEM, JWT and bcrypt (\<open>crypto_lib\<close>), RSA and X.509 (\<open>rsa_lib\<close>), JSON and YAML (\<open>json_lib\<close>,
  \<open>yaml_lib\<close>), plugins (\<open>plugin_net\<close>), the Opus decoder and the sample decoder, and what the HTTP
  framework answers where no route matches. The contracts are \<open>uuid_lib_ok\<close> and its like: decoding what
  was encoded, verifying what was signed; each has an instance in a witness. A request handler, a
  datagram handler and an administrator's operation are one step each, as their mutexes serialise their
  accesses; where the code gives up a mutex between a check and its use, \<open>AppControl\<close> and
  \<open>VoiceListen\<close> take smaller steps.

  \<^bold>\<open>Not modelled.\<close> Logging: the logger and its handlers, the interceptor of \<^verbatim>\<open>control/server.go\<close> that
  logs each request with its duration, and the \<open>EstablishStream\<close> of \<^verbatim>\<open>voiceontrol/service.go\<close>, which
  does nothing else. The options of the window in \<^verbatim>\<open>main.go\<close> and the frontend, which are data for the
  GUI framework. The gRPC and TLS runtimes and the sockets, beyond their failing or not. The debug text
  of a packet. The generated protobuf code. Constructors of services that store their arguments.
\<close>

end
